(* ===== verification/Prelude.thy ===== *)
theory Prelude
  imports Complex_Main
begin

text \<open>
  Shared vocabulary of the development. Its main program is
  \<^verbatim>\<open>src/htimeline/extract.py\<close>; this theory names its data: timestamps (Python
  numbers, read as exact reals), byte offsets (Python ints), the sparse time index, the
  parsed trace records, the state of a \<^verbatim>\<open>HorovodTimeline\<close> object, which is also the
  content of the summary sidecar, and the exceptions the code can raise. It also holds
  Python's \<^verbatim>\<open>str.strip\<close> and the list lemmas the component theories share, collected in
  \<open>trace_simps\<close>; the Telegraf and network-utilization theories use \<open>strip\<close> as well.
\<close>

named_theorems trace_simps "list and string facts shared by the component proofs"

section \<open>Types of the model\<close>

type_synonym tstamp = real
type_synonym offset = int
type_synonym time_index = "(tstamp \<times> offset) list"

text \<open>
  The exceptions of the modelled code. \<open>NegativeSeek\<close> is the \<^verbatim>\<open>ValueError\<close> of a text-mode
  \<^verbatim>\<open>seek\<close> to a negative position, \<open>ZeroDivision\<close> Python's \<^verbatim>\<open>ZeroDivisionError\<close>,
  \<open>IndexScanFailed\<close> the \<^verbatim>\<open>RuntimeError\<close> of \<^verbatim>\<open>search_index\<close>, \<open>NoStride\<close> the
  \<^verbatim>\<open>RuntimeError\<close> of the constructor when neither stride parameter is given.
  \<open>TagHasEquals\<close> and \<open>TagIndexError\<close> are the two failures of the tag splitting of the
  telegraf templater.
\<close>

datatype pyerr =
    NegativeSeek int
  | ZeroDivision
  | IndexScanFailed
  | NoStride
  | TagHasEquals string
  | TagIndexError string
  | ModeError string
  | ListIndexError int

text \<open>
  A parsed trace line is a JSON object with an optional numeric \<^verbatim>\<open>ts\<close> key
  (\<^verbatim>\<open>'ts' in j.keys()\<close>, \<^verbatim>\<open>j['ts']\<close>) and its other keys, whose values are kept as their
  JSON text. The JSON library (\<^verbatim>\<open>ujson.loads\<close> / \<^verbatim>\<open>json.loads\<close>) is a parameter of the
  model: a \<open>decoder\<close> returns \<open>None\<close> where \<^verbatim>\<open>loads\<close> raises, and \<^verbatim>\<open>dumps\<close> is an
  \<open>encoder\<close>.
\<close>

record event =
  ts_field :: "tstamp option"
  other_fields :: "(string \<times> string) list"

type_synonym decoder = "string \<Rightarrow> event option"
type_synonym encoder = "event \<Rightarrow> string"

text \<open>Python truthiness of a parsed object: \<^verbatim>\<open>{}\<close> is false.\<close>

definition event_truthy :: "event \<Rightarrow> bool" where
  "event_truthy e \<longleftrightarrow> ts_field e \<noteq> None \<or> other_fields e \<noteq> []"

text \<open>
  The fields of a \<^verbatim>\<open>HorovodTimeline\<close> object (\<^verbatim>\<open>extract.py\<close> lines 150--154) and of the
  summary sidecar \<^verbatim>\<open><base>.sum.json\<close> written at lines 221--229.
\<close>

record summary =
  line_count :: nat
  min_ts :: tstamp
  max_ts :: tstamp
  index :: time_index
  metadata_events :: "event list"
  file_size :: nat

section \<open>Python's \<^verbatim>\<open>str.strip\<close>\<close>

text \<open>The ASCII characters for which \<^verbatim>\<open>str.isspace\<close> holds.\<close>

definition is_space :: "char \<Rightarrow> bool" where
  "is_space c \<longleftrightarrow> of_char c \<in> {9, 10, 11, 12, 13, 28, 29, 30, 31, 32 :: nat}"

definition lstrip :: "string \<Rightarrow> string" where
  "lstrip s = dropWhile is_space s"

definition rstrip :: "string \<Rightarrow> string" where
  "rstrip s = rev (dropWhile is_space (rev s))"

definition strip :: "string \<Rightarrow> string" where
  "strip s = lstrip (rstrip s)"

section \<open>Shared lemmas\<close>

lemma is_space_newline [simp, trace_simps]: "is_space CHR ''\<newline>''"
  by (simp add: is_space_def)

lemma lstrip_append_nonspace [trace_simps]:
  "\<not> is_space c \<Longrightarrow> lstrip (xs @ c # ys) = lstrip xs @ c # ys"
  by (induction xs) (auto simp: lstrip_def)

lemma rstrip_append_spaces [trace_simps]:
  "\<forall>x\<in>set ws. is_space x \<Longrightarrow> \<not> is_space c \<Longrightarrow> rstrip (xs @ c # ws) = xs @ [c]"
  by (simp add: rstrip_def dropWhile_append3)

lemma strip_nonspace_ends [trace_simps]:
  assumes "\<forall>x\<in>set ws. is_space x" and "\<not> is_space c"
  shows "strip (xs @ c # ws) = lstrip xs @ [c]"
  using assms by (simp add: strip_def rstrip_append_spaces lstrip_append_nonspace)

lemma count_list_concat [trace_simps]:
  "count_list (concat xss) x = sum_list (map (\<lambda>xs. count_list xs x) xss)"
  by (induction xss) simp_all

end
