(* ===== verification/File_IO.thy ===== *)
theory File_IO
  imports Prelude
begin

text \<open>
  A text-mode Python file object opened for reading, as \<^verbatim>\<open>extract.py\<close> uses it: the
  content (one \<open>char\<close> per byte, the trace being ASCII) and the position that
  \<^verbatim>\<open>tell()\<close> returns. \<^verbatim>\<open>read(n)\<close>, \<^verbatim>\<open>readline()\<close>, \<^verbatim>\<open>seek(p)\<close> and the iteration
  \<^verbatim>\<open>for line in f\<close> are functions on this record. The chunked reader \<^verbatim>\<open>blocks\<close>
  (lines 107--111) is proved to return the rest of the file, and two consecutive reads
  to move as far as one read of the summed length.
\<close>

record handle =
  hcontent :: string
  hpos :: nat

definition fh_open :: "string \<Rightarrow> handle" where
  "fh_open s = \<lparr>hcontent = s, hpos = 0\<rparr>"

definition rest_of :: "handle \<Rightarrow> string" where
  "rest_of h = drop (hpos h) (hcontent h)"

text \<open>\<^verbatim>\<open>read(n)\<close>: a negative count reads to the end of the file.\<close>

definition fh_read :: "int \<Rightarrow> handle \<Rightarrow> string \<times> handle" where
  "fh_read n h =
     (let b = (if n < 0 then rest_of h else take (nat n) (rest_of h))
      in (b, h\<lparr>hpos := hpos h + length b\<rparr>))"

text \<open>\<^verbatim>\<open>readline()\<close>: up to and including the next newline, or to the end of file.\<close>

fun line_prefix :: "string \<Rightarrow> string" where
  "line_prefix [] = []"
| "line_prefix (c # cs) = (if c = CHR ''\<newline>'' then [c] else c # line_prefix cs)"

definition fh_readline :: "handle \<Rightarrow> string \<times> handle" where
  "fh_readline h =
     (let l = line_prefix (rest_of h) in (l, h\<lparr>hpos := hpos h + length l\<rparr>))"

text \<open>\<^verbatim>\<open>seek(p)\<close> in text mode: a negative position raises \<^verbatim>\<open>ValueError\<close>.\<close>

definition fh_seek :: "int \<Rightarrow> handle \<Rightarrow> pyerr + handle" where
  "fh_seek p h = (if p < 0 then Inl (NegativeSeek p) else Inr (h\<lparr>hpos := nat p\<rparr>))"

text \<open>\<^verbatim>\<open>for line in f\<close>: readline until it returns the empty string.\<close>

function read_lines :: "handle \<Rightarrow> string list" where
  "read_lines h =
     (let (l, h') = fh_readline h in if l = [] then [] else l # read_lines h')"
  by pat_completeness auto

text \<open>\<^verbatim>\<open>blocks(files, size)\<close> (lines 107--111): read chunks until one is empty.\<close>

function blocks :: "nat \<Rightarrow> handle \<Rightarrow> string list \<times> handle" where
  "blocks bsize h =
     (let (b, h') = fh_read (int bsize) h
      in if b = [] then ([], h')
         else let (bs, h'') = blocks bsize h' in (b # bs, h''))"
  by pat_completeness auto

subsection \<open>Lines of a string\<close>

function split_lines :: "string \<Rightarrow> string list" where
  "split_lines s =
     (if s = [] then [] else line_prefix s # split_lines (drop (length (line_prefix s)) s))"
  by pat_completeness auto

lemma line_prefix_Nil_iff [simp, trace_simps]: "line_prefix s = [] \<longleftrightarrow> s = []"
  by (cases s) simp_all

lemma line_prefix_nonempty [trace_simps]: "s \<noteq> [] \<Longrightarrow> line_prefix s \<noteq> []"
  by simp

lemma line_prefix_is_prefix [trace_simps]: "line_prefix s @ drop (length (line_prefix s)) s = s"
  by (induction s) simp_all

lemma length_line_prefix_le [trace_simps]: "length (line_prefix s) \<le> length s"
  by (induction s) simp_all

lemma line_prefix_append [trace_simps]:
  "CHR ''\<newline>'' \<in> set s \<Longrightarrow> line_prefix (s @ t) = line_prefix s"
  by (induction s) auto

termination split_lines
  by (relation "measure length")
     (auto simp: line_prefix_nonempty length_line_prefix_le
       intro: diff_less[of "length (line_prefix _)"] dest: line_prefix_nonempty)

declare split_lines.simps [simp del]

lemma concat_split_lines [trace_simps]: "concat (split_lines s) = s"
proof (induction s rule: split_lines.induct)
  case (1 s)
  then show ?case
    by (subst split_lines.simps) (simp add: line_prefix_is_prefix)
qed

subsection \<open>Termination of the reading loops\<close>

lemma fh_readline_pos [trace_simps]:
  "fh_readline h = (l, h') \<Longrightarrow> hpos h' = hpos h + length l \<and> hcontent h' = hcontent h"
  by (auto simp: fh_readline_def Let_def)

lemma fh_readline_nonempty [trace_simps]:
  "fh_readline h = (l, h') \<Longrightarrow> l \<noteq> [] \<Longrightarrow>
     length (hcontent h') - hpos h' < length (hcontent h) - hpos h"
proof -
  assume "fh_readline h = (l, h')" and "l \<noteq> []"
  then have l: "l = line_prefix (rest_of h)" and h': "hpos h' = hpos h + length l"
    and c: "hcontent h' = hcontent h" and ne: "rest_of h \<noteq> []"
    by (auto simp: fh_readline_def Let_def)
  have "length l \<le> length (hcontent h) - hpos h"
    using length_line_prefix_le [of "rest_of h"] by (simp add: l rest_of_def)
  moreover have "hpos h < length (hcontent h)" and "0 < length l"
    using ne \<open>l \<noteq> []\<close> by (auto simp: rest_of_def)
  ultimately show ?thesis unfolding h' c by arith
qed

termination read_lines
  by (relation "measure (\<lambda>h. length (hcontent h) - hpos h)")
     (auto dest: sym [THEN fh_readline_nonempty])

lemma fh_read_pos [trace_simps]:
  "fh_read n h = (b, h') \<Longrightarrow> hpos h' = hpos h + length b \<and> hcontent h' = hcontent h"
  by (auto simp: fh_read_def Let_def)

lemma fh_read_nonempty [trace_simps]:
  "fh_read n h = (b, h') \<Longrightarrow> b \<noteq> [] \<Longrightarrow>
     length (hcontent h') - hpos h' < length (hcontent h) - hpos h"
  by (auto simp: fh_read_def Let_def rest_of_def split: if_splits)

termination blocks
  by (relation "measure (\<lambda>(bsize, h). length (hcontent h) - hpos h)")
     (auto dest: sym [THEN fh_read_nonempty])

declare read_lines.simps [simp del] blocks.simps [simp del]

subsection \<open>What the loops read\<close>

lemma rest_of_after_readline [trace_simps]:
  "rest_of (snd (fh_readline h)) = drop (length (fst (fh_readline h))) (rest_of h)"
  by (simp add: fh_readline_def Let_def rest_of_def add.commute)

lemma rest_of_after_read [trace_simps]:
  "rest_of (snd (fh_read n h)) = drop (length (fst (fh_read n h))) (rest_of h)"
  by (simp add: fh_read_def Let_def rest_of_def add.commute)

text \<open>\<^verbatim>\<open>for line in f\<close> yields the lines of the unread rest of the file.\<close>

lemma read_lines_split_lines [trace_simps]: "read_lines h = split_lines (rest_of h)"
proof (induction h rule: read_lines.induct)
  case (1 h)
  obtain l h' where r: "fh_readline h = (l, h')" by fastforce
  then have l: "l = line_prefix (rest_of h)" and rest: "rest_of h' = drop (length l) (rest_of h)"
    using rest_of_after_readline [of h] by (auto simp: fh_readline_def Let_def)
  show ?case
  proof (cases "l = []")
    case True
    then show ?thesis using r l by (simp add: read_lines.simps split_lines.simps)
  next
    case False
    then have "read_lines h' = split_lines (rest_of h')" using "1.IH" r by simp
    then show ?thesis using r l rest False
      by (subst read_lines.simps, subst split_lines.simps) simp
  qed
qed

text \<open>The chunks of \<^verbatim>\<open>blocks\<close> make up the rest of the file, whatever the chunk size.\<close>

lemma concat_blocks [trace_simps]:
  "0 < bsize \<Longrightarrow> concat (fst (blocks bsize h)) = rest_of h"
proof (induction bsize h rule: blocks.induct)
  case (1 bsize h)
  obtain b h' where r: "fh_read (int bsize) h = (b, h')" by fastforce
  then have b: "b = take bsize (rest_of h)" and rest: "rest_of h' = drop (length b) (rest_of h)"
    using rest_of_after_read [of "int bsize" h] by (auto simp: fh_read_def Let_def)
  show ?case
  proof (cases "b = []")
    case True
    with b "1.prems" have "rest_of h = []" by simp
    with True r show ?thesis by (simp add: blocks.simps)
  next
    case False
    obtain bs h'' where r': "blocks bsize h' = (bs, h'')" by fastforce
    have "concat bs = rest_of h'" using "1.IH" [OF r [symmetric] _ False] "1.prems" r' by simp
    then have "concat (b # bs) = rest_of h" using b rest by (simp add: min_def)
    then show ?thesis using r r' False by (subst blocks.simps) simp
  qed
qed

text \<open>Two reads move the position as far as one read of the summed length.\<close>

lemma fh_read_read [trace_simps]:
  "0 \<le> m \<Longrightarrow> 0 \<le> n \<Longrightarrow> snd (fh_read n (snd (fh_read m h))) = snd (fh_read (m + n) h)"
  by (simp add: fh_read_def Let_def rest_of_def min_def nat_add_distrib)

lemma fh_readline_within [trace_simps]:
  "fh_readline h = (l, h') \<Longrightarrow> hpos h \<le> length (hcontent h) \<Longrightarrow> hpos h' \<le> length (hcontent h')"
  using length_line_prefix_le [of "rest_of h"]
  by (auto simp: fh_readline_def Let_def rest_of_def)


lemma blocks_content [trace_simps]: "hcontent (snd (blocks bsize h)) = hcontent h"
proof (induction bsize h rule: blocks.induct)
  case (1 bsize h)
  obtain b h' where r: "fh_read (int bsize) h = (b, h')" by fastforce
  then have c: "hcontent h' = hcontent h" by (simp add: fh_read_pos)
  show ?case
  proof (cases "b = []")
    case True
    then show ?thesis using r c by (subst blocks.simps) simp
  next
    case False
    obtain bs h'' where r': "blocks bsize h' = (bs, h'')" by fastforce
    have "hcontent h'' = hcontent h'" using "1.IH" [OF r [symmetric] _ False] r' by simp
    then show ?thesis using r r' c False by (subst blocks.simps) simp
  qed
qed

end
