(* ===== verification/Line_Parse.thy ===== *)
theory Line_Parse
  imports Prelude
begin

text \<open>
  Decoding one trace line (\<^verbatim>\<open>HorovodTimeline.parse_line_as_json\<close>,
  \<^verbatim>\<open>extract_ts_from_line\<close>, \<^verbatim>\<open>extract_ts_from_json\<close>, \<^verbatim>\<open>extract.py\<close> lines 431--459).
  The line is stripped, a trailing \<^verbatim>\<open>},\<close> loses its comma, the array delimiters
  \<^verbatim>\<open>[\<close> and \<^verbatim>\<open>]\<close> are skipped, and the rest goes to the JSON decoder, whose exception
  is caught and turned into \<^verbatim>\<open>None\<close>. The optional \<^verbatim>\<open>verbose\<close> printing is not modelled.
  The lemmas show the trailing-comma tolerance and the skipping of delimiter lines for
  every decoder.
\<close>

definition parse_line_as_json :: "decoder \<Rightarrow> string \<Rightarrow> event option" where
  "parse_line_as_json loads line =
     (let l = strip line;
          l = (if drop (length l - 2) l = ''},'' then take (length l - 1) l else l)
      in if l = '']'' \<or> l = ''['' then None else loads l)"

definition extract_ts_from_line :: "decoder \<Rightarrow> string \<Rightarrow> tstamp option" where
  "extract_ts_from_line loads line =
     (case parse_line_as_json loads line of None \<Rightarrow> None | Some j \<Rightarrow> ts_field j)"

definition extract_ts_from_json :: "event option \<Rightarrow> tstamp option" where
  "extract_ts_from_json j = (case j of None \<Rightarrow> None | Some e \<Rightarrow> ts_field e)"

lemma extract_ts_from_line_json [trace_simps]:
  "extract_ts_from_line loads line = extract_ts_from_json (parse_line_as_json loads line)"
  by (simp add: extract_ts_from_line_def extract_ts_from_json_def)

lemma extract_ts_from_json_Some [trace_simps]:
  "extract_ts_from_json j = Some t \<longleftrightarrow> (\<exists>e. j = Some e \<and> ts_field e = Some t)"
  by (simp add: extract_ts_from_json_def split: option.splits)

lemma drop_last_two_not_comma [trace_simps]:
  assumes "c \<noteq> CHR '',''"
  shows "drop (length (ys @ [c]) - 2) (ys @ [c]) \<noteq> ''},''"
proof
  assume eq: "drop (length (ys @ [c]) - 2) (ys @ [c]) = ''},''"
  have "drop (length (ys @ [c]) - 2) (ys @ [c]) = drop (length ys - 1) ys @ [c]"
    by (cases ys rule: rev_cases) simp_all
  with eq have "last ''},'' = c" by (metis last_snoc)
  with assms show False by simp
qed

lemma nonspace_brace [simp, trace_simps]:
  "\<not> is_space CHR ''}''" "\<not> is_space CHR '',''" "\<not> is_space CHR ''[''" "\<not> is_space CHR '']''"
  by (simp_all add: is_space_def)

lemma lstrip_spaces [trace_simps]: "\<forall>c\<in>set ws. is_space c \<Longrightarrow> lstrip ws = []"
  by (simp add: lstrip_def)

lemma parse_strip_comma:
  assumes "\<forall>c\<in>set ws. is_space c"
  shows "parse_line_as_json loads (l @ ''},'' @ ws) = loads (lstrip l @ ''}'')"
proof -
  have "strip ((l @ ''}'') @ CHR '','' # ws) = lstrip (l @ ''}'') @ '',''"
    using assms by (rule strip_nonspace_ends) simp
  then have s: "strip (l @ ''},'' @ ws) = lstrip l @ ''},''"
    by (simp add: lstrip_append_nonspace)
  show ?thesis unfolding parse_line_as_json_def s by (simp add: Let_def)
qed

lemma parse_strip_brace:
  assumes "\<forall>c\<in>set ws. is_space c"
  shows "parse_line_as_json loads (l @ ''}'' @ ws) = loads (lstrip l @ ''}'')"
proof -
  have s: "strip (l @ ''}'' @ ws) = lstrip l @ ''}''"
    using assms strip_nonspace_ends [of ws "CHR ''}''" l] by simp
  have "drop (length (lstrip l @ ''}'') - 2) (lstrip l @ ''}'') \<noteq> ''},''"
    by (rule drop_last_two_not_comma) simp
  then show ?thesis unfolding parse_line_as_json_def s by (simp add: Let_def)
qed

section \<open>Properties\<close>

text \<open>
  Trailing-comma tolerance (spec section 6): a line ending in \<^verbatim>\<open>},\<close>, followed by
  any whitespace such as its newline, decodes exactly as the same line ending in \<^verbatim>\<open>}\<close>,
  whatever the JSON decoder.
\<close>

theorem trailing_comma_tolerated:
  assumes "\<forall>c\<in>set ws. is_space c"
  shows "parse_line_as_json loads (l @ ''},'' @ ws) = parse_line_as_json loads (l @ ''}'' @ ws)"
  using parse_strip_comma [OF assms] parse_strip_brace [OF assms] by (simp only:)

theorem trailing_comma_tolerated_witness:
  \<open>parse_line_as_json (\<lambda>s. if s = ''{"ts": 5}'' then Some \<lparr>ts_field = Some 5, other_fields = []\<rparr> else None)
     (''{"ts": 5'' @ ''},'' @ ''\<newline>'') =
   parse_line_as_json (\<lambda>s. if s = ''{"ts": 5}'' then Some \<lparr>ts_field = Some 5, other_fields = []\<rparr> else None)
     (''{"ts": 5'' @ ''}'' @ ''\<newline>'')\<close>
  using trailing_comma_tolerated [of \<open>''\<newline>''\<close>
      \<open>\<lambda>s. if s = ''{"ts": 5}'' then Some \<lparr>ts_field = Some 5, other_fields = []\<rparr> else None\<close>
      \<open>''{"ts": 5''\<close>]
  by (simp add: is_space_def)

text \<open>
  Array delimiters (spec section 6): a line that is \<^verbatim>\<open>[\<close> or \<^verbatim>\<open>]\<close> up to
  surrounding whitespace is never handed to the decoder and yields no record.
\<close>

theorem array_delimiters_skipped:
  assumes "\<forall>c\<in>set ws1. is_space c" and "\<forall>c\<in>set ws2. is_space c"
    and "d = CHR ''['' \<or> d = CHR '']''"
  shows "parse_line_as_json loads (ws1 @ d # ws2) = None"
proof -
  have "\<not> is_space d" using assms(3) by auto
  then have "strip (ws1 @ d # ws2) = [d]"
    using assms(1,2) by (simp add: strip_nonspace_ends lstrip_spaces)
  then show ?thesis using assms(3) by (auto simp: parse_line_as_json_def Let_def)
qed

theorem array_delimiters_skipped_witness:
  "parse_line_as_json (\<lambda>s. Some \<lparr>ts_field = None, other_fields = []\<rparr>) (''  '' @ CHR '']'' # ''\<newline>'') = None"
proof -
  have ws: "\<forall>c\<in>set ''  ''. is_space c" "\<forall>c\<in>set ''\<newline>''. is_space c"
    by (simp_all add: is_space_def)
  show ?thesis using array_delimiters_skipped [OF ws, of "CHR '']''"] by simp
qed

end
