(* ===== verification/Trace.thy ===== *)
theory Trace
  imports File_IO Line_Parse
begin

text \<open>
  The trace file seen as records at byte offsets. A line starts at offset 0 and after
  every newline; \<open>line_at f p\<close> is what \<^verbatim>\<open>readline()\<close> returns at \<open>p\<close>.
  \<open>records loads f\<close> lists the parsed lines with their start offsets in file order and
  \<open>timed_records\<close> those with a \<^verbatim>\<open>ts\<close>; a trace is monotone (the assumption of spec
  sections 3 and 4.4) when these timestamps are sorted. The lemmas show that reading a
  line from a line start ends at the next boundary and skips no line start, which the
  searcher, the index builder and the extractor all rely on.
\<close>

definition line_start :: "string \<Rightarrow> nat \<Rightarrow> bool" where
  "line_start f p \<longleftrightarrow> p < length f \<and> (p = 0 \<or> f ! (p - 1) = CHR ''\<newline>'')"

definition boundary :: "string \<Rightarrow> nat \<Rightarrow> bool" where
  "boundary f p \<longleftrightarrow> line_start f p \<or> p = length f"

definition line_at :: "string \<Rightarrow> nat \<Rightarrow> string" where
  "line_at f p = line_prefix (drop p f)"

definition record_at :: "decoder \<Rightarrow> string \<Rightarrow> nat \<Rightarrow> (nat \<times> event) list" where
  "record_at loads f p =
     (if line_start f p
      then (case parse_line_as_json loads (line_at f p) of None \<Rightarrow> [] | Some e \<Rightarrow> [(p, e)])
      else [])"

definition records :: "decoder \<Rightarrow> string \<Rightarrow> (nat \<times> event) list" where
  "records loads f = concat (map (record_at loads f) [0..<length f])"

definition timed_records :: "decoder \<Rightarrow> string \<Rightarrow> (nat \<times> tstamp) list" where
  "timed_records loads f =
     concat (map (\<lambda>(p, e). case ts_field e of None \<Rightarrow> [] | Some t \<Rightarrow> [(p, t)]) (records loads f))"

definition monotone_trace :: "decoder \<Rightarrow> string \<Rightarrow> bool" where
  "monotone_trace loads f \<longleftrightarrow> sorted (map snd (timed_records loads f))"

text \<open>The timestamp a line contributes, paired with its offset.\<close>

definition line_ts :: "decoder \<Rightarrow> string \<Rightarrow> nat \<Rightarrow> (nat \<times> tstamp) list" where
  "line_ts loads f p = (case extract_ts_from_line loads (line_at f p) of None \<Rightarrow> [] | Some t \<Rightarrow> [(p, t)])"

text \<open>
  A small trace in the format of spec section 6, used by the witnesses: a top-level
  array with one metadata record and four timed records, each line ending in \<^verbatim>\<open>},\<close>.
  \<open>example_loads\<close> decodes exactly its five objects and \<open>example_dumps\<close> prints them back.
\<close>

definition example_table :: "(string \<times> event) list" where
  \<open>example_table =
     [(''{"ph":"M"}'', \<lparr>ts_field = None, other_fields = [(''ph'', ''"M"'')]\<rparr>),
      (''{"ts":10}'', \<lparr>ts_field = Some 10, other_fields = []\<rparr>),
      (''{"ts":20}'', \<lparr>ts_field = Some 20, other_fields = []\<rparr>),
      (''{"ts":30}'', \<lparr>ts_field = Some 30, other_fields = []\<rparr>),
      (''{"ts":40}'', \<lparr>ts_field = Some 40, other_fields = []\<rparr>)]\<close>

definition example_loads :: decoder where
  "example_loads = map_of example_table"

definition example_dumps :: encoder where
  "example_dumps e = (case filter (\<lambda>(k, v). v = e) example_table of (k, _) # _ \<Rightarrow> k | [] \<Rightarrow> ''{}'')"

definition example_trace :: string where
  \<open>example_trace =
     ''[\<newline>{"ph":"M"},\<newline>{"ts":10},\<newline>{"ts":20},\<newline>{"ts":30},\<newline>{"ts":40},\<newline>]\<newline>''\<close>

subsection \<open>Lines and boundaries\<close>

lemma line_prefix_newline_free [trace_simps]:
  "i < length (line_prefix s) - 1 \<Longrightarrow> line_prefix s ! i \<noteq> CHR ''\<newline>''"
proof (induction s arbitrary: i)
  case Nil
  then show ?case by simp
next
  case (Cons c cs)
  then show ?case by (cases i) (auto split: if_splits)
qed

lemma line_prefix_nth [trace_simps]: "i < length (line_prefix s) \<Longrightarrow> line_prefix s ! i = s ! i"
  by (metis line_prefix_is_prefix nth_append)

lemma line_prefix_end [trace_simps]:
  "line_prefix s = l \<Longrightarrow> l \<noteq> [] \<Longrightarrow> length l < length s \<Longrightarrow> last l = CHR ''\<newline>''"
proof (induction s arbitrary: l)
  case Nil
  then show ?case by simp
next
  case (Cons c cs)
  then show ?case by (auto split: if_splits)
qed

lemma line_at_length [trace_simps]: "p < length f \<Longrightarrow> 0 < length (line_at f p)"
  by (simp add: line_at_def)

lemma line_at_bound [trace_simps]:
  assumes "p \<le> length f"
  shows "p + length (line_at f p) \<le> length f"
proof -
  have "length (line_at f p) \<le> length f - p"
    using length_line_prefix_le [of "drop p f"] by (simp add: line_at_def)
  then show ?thesis using assms by arith
qed

text \<open>The end of a line read from a line start is a boundary.\<close>

lemma line_end_boundary_any [trace_simps]:
  assumes "p < length f"
  shows "boundary f (p + length (line_at f p))"
proof (cases "p + length (line_at f p) = length f")
  case True
  then show ?thesis by (simp add: boundary_def)
next
  case False
  let ?l = "line_at f p"
  have lt: "p + length ?l < length f"
    using False line_at_bound [of p f] assms by simp
  have ne: "?l \<noteq> []" using assms line_at_length [of p f] by simp
  have "length ?l < length (drop p f)" using lt by simp
  then have "last ?l = CHR ''\<newline>''"
    using ne line_prefix_end [of "drop p f" ?l] by (simp add: line_at_def)
  moreover have "last ?l = f ! (p + length ?l - 1)"
  proof -
    have "last ?l = ?l ! (length ?l - 1)" using ne by (simp add: last_conv_nth)
    also have "\<dots> = f ! (p + (length ?l - 1))"
      using ne line_prefix_nth [of "length ?l - 1" "drop p f"] lt by (simp add: line_at_def)
    also have "p + (length ?l - 1) = p + length ?l - 1"
      using ne by (simp add: Suc_le_eq)
    finally show ?thesis .
  qed
  ultimately show ?thesis using lt by (simp add: boundary_def line_start_def)
qed

lemma line_end_boundary [trace_simps]:
  "line_start f p \<Longrightarrow> boundary f (p + length (line_at f p))"
  by (rule line_end_boundary_any) (simp add: line_start_def)

text \<open>No line starts strictly inside a line.\<close>

lemma no_start_inside_line [trace_simps]:
  assumes "line_start f p" and "p < q" and "q < p + length (line_at f p)"
  shows "\<not> line_start f q"
proof
  assume q: "line_start f q"
  let ?l = "line_at f p"
  have "q - 1 - p < length ?l - 1" using assms(2,3) by arith
  then have "?l ! (q - 1 - p) \<noteq> CHR ''\<newline>''"
    by (simp add: line_at_def line_prefix_newline_free)
  moreover have "?l ! (q - 1 - p) = f ! (q - 1)"
    using assms line_prefix_nth [of "q - 1 - p" "drop p f"] line_at_bound [of p f]
    by (simp add: line_at_def line_start_def)
  ultimately show False using q assms(2) by (simp add: line_start_def)
qed

subsection \<open>Records in file order\<close>

lemma record_at_fst [trace_simps]: "x \<in> set (record_at loads f p) \<Longrightarrow> fst x = p"
  by (cases "line_start f p") (auto simp: record_at_def split: option.splits)

lemma length_record_at [trace_simps]: "length (record_at loads f p) \<le> 1"
  unfolding record_at_def by (simp split: option.split)

lemma concat_map_pick [trace_simps]:
  "p < n \<Longrightarrow> concat (map (\<lambda>q. if q = p then X else []) [0..<n]) = X"
proof (induction n)
  case 0
  then show ?case by simp
next
  case (Suc n)
  show ?case
  proof (cases "p = n")
    case True
    then have "concat (map (\<lambda>q. if q = p then X else []) [0..<n]) = []"
      by (simp add: concat_eq_Nil_conv)
    then show ?thesis using True by simp
  next
    case False
    then show ?thesis using Suc by simp
  qed
qed

lemma filter_record_at [trace_simps]:
  "filter (\<lambda>x. fst x = p) (record_at loads f q) = (if q = p then record_at loads f p else [])"
  by (auto simp: filter_id_conv filter_empty_conv dest: record_at_fst)

lemma sorted_concat_slots [trace_simps]:
  assumes "\<And>p x. x \<in> set (g p) \<Longrightarrow> fst x = p" and "\<And>p. length (g p) \<le> 1"
  shows "sorted_wrt (<) (map fst (concat (map g [a..<b])))"
proof (induction b)
  case 0
  then show ?case by simp
next
  case (Suc b)
  show ?case
  proof (cases "a \<le> b")
    case False
    then show ?thesis by simp
  next
    case True
    have "length (g b) \<le> 1" by (rule assms(2))
    then have one: "sorted_wrt (<) (map fst (g b))"
      by (cases "g b") auto
    have lt: "\<forall>x\<in>set (concat (map g [a..<b])). \<forall>y\<in>set (g b). fst x < fst y"
    proof (intro ballI)
      fix x y
      assume "x \<in> set (concat (map g [a..<b]))" and y: "y \<in> set (g b)"
      then obtain q where "q < b" and "x \<in> set (g q)" by auto
      then show "fst x < fst y" using assms(1) [OF y] assms(1) [of x q] by simp
    qed
    show ?thesis using Suc.IH one lt True by (simp add: sorted_wrt_append)
  qed
qed

lemma records_sorted [trace_simps]: "sorted_wrt (<) (map fst (records loads f))"
  unfolding records_def by (rule sorted_concat_slots [OF record_at_fst length_record_at])

lemma records_member [trace_simps]:
  "(p, e) \<in> set (records loads f) \<longleftrightarrow>
     line_start f p \<and> parse_line_as_json loads (line_at f p) = Some e"
  by (auto simp: records_def record_at_def line_start_def split: option.splits if_splits)

lemma timed_records_member [trace_simps]:
  "(p, t) \<in> set (timed_records loads f) \<longleftrightarrow>
     line_start f p \<and> extract_ts_from_line loads (line_at f p) = Some t"
proof
  assume "(p, t) \<in> set (timed_records loads f)"
  then show "line_start f p \<and> extract_ts_from_line loads (line_at f p) = Some t"
    by (auto simp: timed_records_def records_member extract_ts_from_line_def
        split: option.splits prod.splits)
next
  assume a: "line_start f p \<and> extract_ts_from_line loads (line_at f p) = Some t"
  then obtain e where e: "parse_line_as_json loads (line_at f p) = Some e" and "ts_field e = Some t"
    by (auto simp: extract_ts_from_line_def split: option.splits)
  moreover have "(p, e) \<in> set (records loads f)" using a e by (simp add: records_member)
  ultimately show "(p, t) \<in> set (timed_records loads f)"
    by (force simp: timed_records_def)
qed

lemma filter_sorted_split [trace_simps]:
  fixes xs :: "('a::linorder \<times> 'b) list"
  assumes "sorted_wrt (<) (map fst xs)" and "p < p'"
    and "\<And>x. x \<in> set xs \<Longrightarrow> fst x < p \<or> fst x = p \<or> p' \<le> fst x"
  shows "filter (\<lambda>x. p \<le> fst x) xs =
         filter (\<lambda>x. fst x = p) xs @ filter (\<lambda>x. p' \<le> fst x) xs"
  using assms
proof (induction xs)
  case Nil
  then show ?case by simp
next
  case (Cons x xs)
  have ih: "filter (\<lambda>x. p \<le> fst x) xs =
            filter (\<lambda>x. fst x = p) xs @ filter (\<lambda>x. p' \<le> fst x) xs"
    using Cons by simp
  have later: "\<forall>y\<in>set xs. fst x < fst y" using Cons.prems(1) by simp
  show ?case
  proof (cases "fst x = p")
    case True
    have "p' \<le> fst y" if y: "y \<in> set xs" for y
    proof -
      have "fst y < p \<or> fst y = p \<or> p' \<le> fst y" using Cons.prems(3) y by simp
      moreover have "p < fst y" using later y True by auto
      ultimately show ?thesis by (metis less_asym less_irrefl)
    qed
    then have all: "\<forall>y\<in>set xs. p' \<le> fst y" by blast
    moreover have "\<forall>y\<in>set xs. p \<le> fst y"
      using all Cons.prems(2) by (meson less_le_trans less_imp_le)
    ultimately have "filter (\<lambda>x. p' \<le> fst x) xs = filter (\<lambda>x. p \<le> fst x) xs"
      by simp
    moreover have "filter (\<lambda>x. fst x = p) xs = []" using later True by (auto simp: filter_empty_conv)
    ultimately show ?thesis using True Cons.prems(2) by simp
  next
    case False
    moreover have "fst x < p \<or> fst x = p \<or> p' \<le> fst x" using Cons.prems(3) by simp
    ultimately have "fst x < p \<or> p' \<le> fst x" by blast
    then show ?thesis
    proof
      assume "fst x < p"
      then show ?thesis using ih Cons.prems(2) False by auto
    next
      assume x: "p' \<le> fst x"
      then have big: "\<forall>y\<in>set xs. p' < fst y" using later by (meson le_less_trans)
      then have "\<forall>y\<in>set xs. p < fst y" using Cons.prems(2) by (meson less_trans)
      then have "filter (\<lambda>x. fst x = p) xs = []" and "filter (\<lambda>x. p \<le> fst x) xs = xs"
        by (auto simp: filter_empty_conv less_imp_le)
      moreover have "filter (\<lambda>x. p' \<le> fst x) xs = xs" using big by (auto simp: less_imp_le)
      ultimately show ?thesis using x False Cons.prems(2) by auto
    qed
  qed
qed

text \<open>The records from a line start on: that line's record, then those after the line.\<close>

lemma records_from_line [trace_simps]:
  assumes "line_start f p"
  shows "filter (\<lambda>x. p \<le> fst x) (records loads f) =
         record_at loads f p @ filter (\<lambda>x. p + length (line_at f p) \<le> fst x) (records loads f)"
proof -
  let ?p' = "p + length (line_at f p)"
  have lt: "p < ?p'" using assms line_at_length [of p f] by (simp add: line_start_def)
  have split: "fst x < p \<or> fst x = p \<or> ?p' \<le> fst x" if x: "x \<in> set (records loads f)" for x
  proof -
    obtain q e where qe: "x = (q, e)" by fastforce
    then have "line_start f q" using x by (simp add: records_member)
    then have "\<not> (p < q \<and> q < ?p')" using no_start_inside_line [OF assms] by blast
    then show ?thesis using qe by auto
  qed
  have "filter (\<lambda>x. fst x = p) (records loads f) = record_at loads f p"
  proof -
    have "filter (\<lambda>x. fst x = p) (records loads f) =
          concat (map (\<lambda>q. filter (\<lambda>x. fst x = p) (record_at loads f q)) [0..<length f])"
      by (simp add: records_def filter_concat comp_def)
    also have "\<dots> = concat (map (\<lambda>q. if q = p then record_at loads f p else []) [0..<length f])"
      by (simp add: filter_record_at)
    also have "\<dots> = record_at loads f p"
      using assms by (simp add: line_start_def concat_map_pick)
    finally show ?thesis .
  qed
  then show ?thesis using filter_sorted_split [OF records_sorted lt split] by simp
qed

lemma records_from_end [trace_simps]:
  "filter (\<lambda>x. length f \<le> fst x) (records loads f) = []"
  by (auto simp: filter_empty_conv records_member line_start_def)

lemma readline_at [trace_simps]:
  "fh_readline \<lparr>hcontent = f, hpos = p\<rparr> = (line_at f p, \<lparr>hcontent = f, hpos = p + length (line_at f p)\<rparr>)"
  by (simp add: fh_readline_def rest_of_def line_at_def Let_def)

lemma boundary_zero [trace_simps]: "boundary f 0"
  by (cases f) (simp_all add: boundary_def line_start_def)


lemma boundary_length [trace_simps]: "boundary f (length f)"
  by (simp add: boundary_def)


lemma records_timed [trace_simps]:
  "(p, e) \<in> set (records loads f) \<Longrightarrow> ts_field e = Some t \<Longrightarrow> (p, t) \<in> set (timed_records loads f)"
  by (force simp: timed_records_def)


lemma line_starts_between [trace_simps]:
  assumes "line_start f q"
  shows "filter (line_start f) [q..<length f] =
         q # filter (line_start f) [q + length (line_at f q)..<length f]"
proof -
  let ?q' = "q + length (line_at f q)"
  have lt: "q < ?q'" using assms line_at_length [of q f] by (simp add: line_start_def)
  have le: "?q' \<le> length f" using assms line_at_bound [of q f] by (simp add: line_start_def)
  have split: "[q..<length f] = q # [Suc q..<?q'] @ [?q'..<length f]"
  proof -
    have "[q..<length f] = [q..<?q'] @ [?q'..<length f]"
      using lt le upt_add_eq_append [of q ?q' "length f - ?q'"] by simp
    then show ?thesis using lt by (simp add: upt_conv_Cons)
  qed
  have "filter (line_start f) [Suc q..<?q'] = []"
    using no_start_inside_line [OF assms] by (auto simp: filter_empty_conv)
  then show ?thesis using split assms by simp
qed

lemma split_lines_from [trace_simps]:
  "boundary f q \<Longrightarrow> split_lines (drop q f) = map (line_at f) (filter (line_start f) [q..<length f])"
proof (induction "length f - q" arbitrary: q rule: less_induct)
  case less
  show ?case
  proof (cases "q = length f")
    case True
    then show ?thesis by (simp add: split_lines.simps)
  next
    case False
    then have ls: "line_start f q" using less.prems by (simp add: boundary_def)
    let ?q' = "q + length (line_at f q)"
    have lt: "q < ?q'" using ls line_at_length [of q f] by (simp add: line_start_def)
    have le: "?q' \<le> length f" using ls line_at_bound [of q f] by (simp add: line_start_def)
    have ih: "split_lines (drop ?q' f) = map (line_at f) (filter (line_start f) [?q'..<length f])"
    proof (rule less.hyps)
      show "length f - ?q' < length f - q" using lt le by linarith
    qed (rule line_end_boundary [OF ls])
    have "split_lines (drop q f) = line_at f q # split_lines (drop ?q' f)"
      using ls by (subst split_lines.simps) (simp add: line_at_def line_start_def add.commute)
    then show ?thesis using ih line_starts_between [OF ls] by simp
  qed
qed

lemma filter_timed_records [trace_simps]:
  "filter (\<lambda>x. P (fst x)) (timed_records loads f) =
   concat (map (\<lambda>(p, e). case ts_field e of None \<Rightarrow> [] | Some t \<Rightarrow> [(p, t)])
     (filter (\<lambda>x. P (fst x)) (records loads f)))"
proof -
  have "filter (\<lambda>x. P (fst x)) (concat (map (\<lambda>(p, e). case ts_field e of None \<Rightarrow> [] | Some t \<Rightarrow> [(p, t)]) rs)) =
        concat (map (\<lambda>(p, e). case ts_field e of None \<Rightarrow> [] | Some t \<Rightarrow> [(p, t)])
          (filter (\<lambda>x. P (fst x)) rs))" for rs :: "(nat \<times> event) list"
    by (induction rs) (auto split: option.split)
  then show ?thesis unfolding timed_records_def .
qed

lemma timed_records_from_line [trace_simps]:
  assumes "line_start f q"
  shows "filter (\<lambda>x. q \<le> fst x) (timed_records loads f) =
         (case extract_ts_from_line loads (line_at f q) of None \<Rightarrow> [] | Some t \<Rightarrow> [(q, t)]) @
         filter (\<lambda>x. q + length (line_at f q) \<le> fst x) (timed_records loads f)"
  by (subst (1 2) filter_timed_records, subst records_from_line [OF assms])
     (simp add: record_at_def assms extract_ts_from_line_def split: option.split)

lemma timed_records_from_end [trace_simps]:
  "filter (\<lambda>x. length f \<le> fst x) (timed_records loads f) = []"
  by (subst filter_timed_records) (simp add: records_from_end)

lemma timed_records_from [trace_simps]:
  "boundary f q \<Longrightarrow>
   filter (\<lambda>x. q \<le> fst x) (timed_records loads f) =
   concat (map (line_ts loads f) (filter (line_start f) [q..<length f]))"
proof (induction "length f - q" arbitrary: q rule: less_induct)
  case less
  show ?case
  proof (cases "q = length f")
    case True
    then show ?thesis using timed_records_from_end [of f loads] by simp
  next
    case False
    then have ls: "line_start f q" using less.prems by (simp add: boundary_def)
    let ?q' = "q + length (line_at f q)"
    have lt: "q < ?q'" using ls line_at_length [of q f] by (simp add: line_start_def)
    have le: "?q' \<le> length f" using ls line_at_bound [of q f] by (simp add: line_start_def)
    have ih: "filter (\<lambda>x. ?q' \<le> fst x) (timed_records loads f) =
              concat (map (line_ts loads f) (filter (line_start f) [?q'..<length f]))"
    proof (rule less.hyps)
      show "length f - ?q' < length f - q" using lt le by linarith
    qed (rule line_end_boundary [OF ls])
    show ?thesis
      using ih timed_records_from_line [OF ls, of loads] line_starts_between [OF ls]
      by (simp add: line_ts_def)
  qed
qed

lemma timed_records_fst:
  "x \<in> set (timed_records loads f) \<Longrightarrow> \<exists>e. (fst x, e) \<in> set (records loads f)"
  by (auto simp: timed_records_def split: option.splits)

lemma timed_records_sorted [trace_simps]: "sorted_wrt (<) (map fst (timed_records loads f))"
proof -
  have "sorted_wrt (<) (map fst (concat (map (\<lambda>(p, e). case ts_field e of None \<Rightarrow> [] | Some t \<Rightarrow> [(p, t)]) rs)))"
    if "sorted_wrt (<) (map fst rs)" for rs :: "(nat \<times> event) list"
    using that
  proof (induction rs)
    case Nil
    then show ?case by simp
  next
    case (Cons r rs)
    obtain p e where r: "r = (p, e)" by fastforce
    have "p < fst y" if "y \<in> set (concat (map (\<lambda>(p, e). case ts_field e of None \<Rightarrow> [] | Some t \<Rightarrow> [(p, t)]) rs))" for y
      using that Cons.prems r by (auto split: option.splits)
    then show ?case using Cons r by (auto simp: sorted_wrt_append split: option.split)
  qed
  then show ?thesis unfolding timed_records_def using records_sorted by blast
qed

lemma sorted_pairs_le:
  fixes xs :: "('a::linorder \<times> 'b::linorder) list"
  assumes "sorted_wrt (\<lambda>x y. fst x < fst y) xs" and "sorted (map snd xs)"
    and "x \<in> set xs" and "y \<in> set xs" and "fst x \<le> fst y"
  shows "snd x \<le> snd y"
  using assms
proof (induction xs)
  case Nil
  then show ?case by simp
next
  case (Cons a xs)
  then show ?case by (auto simp: not_le)
qed

lemma monotone_trace_le [trace_simps]:
  assumes "monotone_trace loads f" and "(p, t) \<in> set (timed_records loads f)"
    and "(p', t') \<in> set (timed_records loads f)" and "p \<le> p'"
  shows "t \<le> t'"
  using sorted_pairs_le [of "timed_records loads f" "(p, t)" "(p', t')"] assms timed_records_sorted [of loads f]
  by (simp add: monotone_trace_def sorted_wrt_map)

end
