(* ===== verification/Index_Search.thy ===== *)
theory Index_Search
  imports Trace
begin

text \<open>
  The Index Searcher and the Index Validator: \<^verbatim>\<open>HorovodTimeline.search_index\<close>
  (\<^verbatim>\<open>extract.py\<close> lines 533--550) and \<^verbatim>\<open>confirm_index_is_valid\<close> (lines 553--581).
  The searcher's loop is \<open>search_scan\<close>, with the pair \<^verbatim>\<open>(last_ts, last_byte_index)\<close>
  as its accumulators; the \<^verbatim>\<open>RuntimeError\<close> at its end is \<open>Inl IndexScanFailed\<close>.
  The validator's loop is \<open>confirm_scan\<close>; the six checks of its body are
  \<open>entry_check\<close>, in the code's order, and the message strings are the constructors of
  \<open>index_check\<close>.

  Lemmas: the scan returns at the first entry whose timestamp reaches the query, so
  that the searcher refines the abstract \<open>bracket_of\<close> (a linear scan and a binary search
  over a sorted index meet the same contract); the validator accepts exactly the indexes
  of \<open>valid_index\<close> and reports the first violating entry with its first failed check.
\<close>

fun search_scan :: "tstamp \<Rightarrow> tstamp \<Rightarrow> offset \<Rightarrow> time_index \<Rightarrow> pyerr + (offset \<times> offset)" where
  "search_scan find_ts last_ts last_b [] = Inl IndexScanFailed"
| "search_scan find_ts last_ts last_b ((ts, b) # rest) =
     (if find_ts \<ge> last_ts \<and> find_ts \<le> ts then Inr (last_b, b)
      else search_scan find_ts ts b rest)"

definition search_index :: "summary \<Rightarrow> tstamp \<Rightarrow> pyerr + (offset \<times> offset)" where
  "search_index s find_ts =
     (if find_ts \<le> min_ts s then Inr (0, 0)
      else if find_ts \<ge> max_ts s then Inr (int (file_size s), int (file_size s))
      else search_scan find_ts 0 0 (index s))"

datatype index_check =
    IndexLooksGood
  | TsBeforeMin nat
  | TsAfterMax nat
  | OutOfOrderTs tstamp tstamp nat
  | OutOfOrderByte nat
  | ByteBelowZero nat
  | ByteAboveSize nat

definition entry_check :: "summary \<Rightarrow> nat \<Rightarrow> tstamp \<times> offset \<Rightarrow> tstamp \<times> offset \<Rightarrow> index_check option" where
  "entry_check s i prev e =
     (let (last_ts, last_b) = prev; (ts, b) = e in
      if ts < min_ts s then Some (TsBeforeMin i)
      else if ts > max_ts s then Some (TsAfterMax i)
      else if last_ts > ts then Some (OutOfOrderTs ts last_ts i)
      else if last_b > b then Some (OutOfOrderByte i)
      else if b < 0 then Some (ByteBelowZero i)
      else if b > int (file_size s) then Some (ByteAboveSize i)
      else None)"

fun confirm_scan :: "summary \<Rightarrow> nat \<Rightarrow> tstamp \<times> offset \<Rightarrow> time_index \<Rightarrow> index_check" where
  "confirm_scan s i prev [] = IndexLooksGood"
| "confirm_scan s i prev (e # rest) =
     (case entry_check s i prev e of
        Some v \<Rightarrow> v
      | None \<Rightarrow> confirm_scan s (Suc i) e rest)"

definition confirm_index_is_valid :: "summary \<Rightarrow> bool \<times> index_check" where
  "confirm_index_is_valid s =
     (let r = confirm_scan s 0 (0, 0) (index s) in (r = IndexLooksGood, r))"

subsection \<open>Abstract contracts\<close>

text \<open>
  The bracket of a query \<open>t\<close>: the offset of the first entry whose timestamp reaches
  \<open>t\<close>, and the offset of the entry before it (0 when there is none).
\<close>

definition bracket_of :: "time_index \<Rightarrow> tstamp \<Rightarrow> (offset \<times> offset) option" where
  "bracket_of idx t =
     (case dropWhile (\<lambda>e. fst e < t) idx of
        [] \<Rightarrow> None
      | e # _ \<Rightarrow> Some (last (0 # map snd (takeWhile (\<lambda>e. fst e < t) idx)), snd e))"

definition search_spec :: "summary \<Rightarrow> tstamp \<Rightarrow> (offset \<times> offset) option" where
  "search_spec s t =
     (if t \<le> min_ts s then Some (0, 0)
      else if t \<ge> max_ts s then Some (int (file_size s), int (file_size s))
      else bracket_of (index s) t)"

definition valid_index :: "summary \<Rightarrow> bool" where
  "valid_index s \<longleftrightarrow>
     sorted (map fst (index s)) \<and> sorted (map snd (index s)) \<and>
     list_all (\<lambda>(ts, b). min_ts s \<le> ts \<and> ts \<le> max_ts s \<and> 0 \<le> ts \<and>
                          0 \<le> b \<and> b \<le> int (file_size s)) (index s)"

text \<open>
  An index entry is sound for a trace when its offset is a line boundary and it
  separates the timed records: those before it are no later, those from it on no
  earlier than its timestamp. The builder's entries on a monotone trace are sound.
\<close>

definition entry_sound :: "decoder \<Rightarrow> string \<Rightarrow> tstamp \<times> offset \<Rightarrow> bool" where
  "entry_sound loads f e \<longleftrightarrow>
     0 \<le> snd e \<and> boundary f (nat (snd e)) \<and>
     list_all (\<lambda>(p, t). (int p < snd e \<longrightarrow> t \<le> fst e) \<and> (snd e \<le> int p \<longrightarrow> fst e \<le> t))
       (timed_records loads f)"

text \<open>
  A summary is sound for a trace file when its size is the file's, its minimum is
  non-negative, its index entries are sound with non-decreasing offsets, and every
  timestamp of the trace lies in \<open>[min_ts, max_ts]\<close>. This is what \<^verbatim>\<open>summarize\<close> and
  \<^verbatim>\<open>build_index\<close> establish for a file that has not changed since.
\<close>

definition summary_sound :: "decoder \<Rightarrow> string \<Rightarrow> summary \<Rightarrow> bool" where
  "summary_sound loads f s \<longleftrightarrow>
     file_size s = length f \<and> 0 \<le> min_ts s \<and>
     list_all (entry_sound loads f) (index s) \<and> sorted (map snd (index s)) \<and>
     list_all (\<lambda>(p, t). min_ts s \<le> t \<and> t \<le> max_ts s) (timed_records loads f)"

subsection \<open>The search loop\<close>

lemma search_scan_first_reaching [trace_simps]:
  "last_ts \<le> t \<Longrightarrow>
   search_scan t last_ts last_b idx =
     (case dropWhile (\<lambda>e. fst e < t) idx of
        [] \<Rightarrow> Inl IndexScanFailed
      | e # _ \<Rightarrow> Inr (last (last_b # map snd (takeWhile (\<lambda>e. fst e < t) idx)), snd e))"
proof (induction idx arbitrary: last_ts last_b)
  case Nil
  then show ?case by simp
next
  case (Cons e idx)
  obtain ts b where e: "e = (ts, b)" by fastforce
  show ?case
  proof (cases "t \<le> ts")
    case True
    with Cons.prems e show ?thesis by simp
  next
    case False
    then have "ts \<le> t" by simp
    from Cons.IH [OF this, of b] False e show ?thesis
      by (simp split: list.split) (metis dropWhile_eq_Nil_conv list.distinct(1))
  qed
qed

lemma bracket_of_Some [trace_simps]:
  assumes "bracket_of idx t = Some (lo, hi)"
  obtains pre e post where "idx = pre @ e # post" and "pre = takeWhile (\<lambda>e. fst e < t) idx"
    and "t \<le> fst e" and "hi = snd e" and "lo = last (0 # map snd pre)"
proof -
  from assms obtain e post where d: "dropWhile (\<lambda>e. fst e < t) idx = e # post"
    by (auto simp: bracket_of_def split: list.splits)
  have "idx = takeWhile (\<lambda>e. fst e < t) idx @ e # post"
    using takeWhile_dropWhile_id [of "\<lambda>e. fst e < t" idx] d by simp
  moreover have "t \<le> fst e" using d by (metis dropWhile_eq_Cons_conv not_less)
  moreover have "hi = snd e" and "lo = last (0 # map snd (takeWhile (\<lambda>e. fst e < t) idx))"
    using assms d by (simp_all add: bracket_of_def)
  ultimately show ?thesis using that by blast
qed

lemma last_in_prefix [trace_simps]:
  "pre \<noteq> [] \<Longrightarrow> last (x # map snd pre) = snd (last pre) \<and> last pre \<in> set pre"
  by (simp add: last_map)

lemma search_scan_bracket_of [trace_simps]:
  "0 \<le> t \<Longrightarrow> search_scan t 0 0 idx =
     (case bracket_of idx t of None \<Rightarrow> Inl IndexScanFailed | Some r \<Rightarrow> Inr r)"
  by (simp add: search_scan_first_reaching bracket_of_def split: list.split)
     (metis dropWhile_eq_Nil_conv list.distinct(1))

subsection \<open>The validator loop\<close>

lemma entry_check_None [trace_simps]:
  "entry_check s i (lt, lb) (ts, b) = None \<longleftrightarrow>
     min_ts s \<le> ts \<and> ts \<le> max_ts s \<and> lt \<le> ts \<and> lb \<le> b \<and> 0 \<le> b \<and> b \<le> int (file_size s)"
  by (auto simp: entry_check_def)

lemma entry_check_not_good [trace_simps]: "entry_check s i prev e \<noteq> Some IndexLooksGood"
  by (auto simp: entry_check_def split: prod.splits)

lemma confirm_scan_good [trace_simps]:
  "confirm_scan s i prev idx = IndexLooksGood \<longleftrightarrow>
     sorted (fst prev # map fst idx) \<and> sorted (snd prev # map snd idx) \<and>
     list_all (\<lambda>(ts, b). min_ts s \<le> ts \<and> ts \<le> max_ts s \<and> 0 \<le> b \<and> b \<le> int (file_size s)) idx"
proof (induction idx arbitrary: i prev)
  case Nil
  then show ?case by simp
next
  case (Cons e idx)
  obtain lt lb ts b where p: "prev = (lt, lb)" and e: "e = (ts, b)" by fastforce
  show ?case
  proof (cases "entry_check s i prev e")
    case None
    then have c: "min_ts s \<le> ts \<and> ts \<le> max_ts s \<and> lt \<le> ts \<and> lb \<le> b \<and> 0 \<le> b \<and> b \<le> int (file_size s)"
      using p e entry_check_None [of s i lt lb ts b] by simp
    show ?thesis using None Cons.IH [of "Suc i" e] p e c by auto
  next
    case (Some v)
    then have "v \<noteq> IndexLooksGood" using entry_check_not_good by metis
    moreover have "\<not> (lt \<le> ts \<and> lb \<le> b \<and> min_ts s \<le> ts \<and> ts \<le> max_ts s \<and> 0 \<le> b \<and> b \<le> int (file_size s))"
      using Some p e entry_check_None [of s i lt lb ts b] by auto
    ultimately show ?thesis using Some p e by auto
  qed
qed

lemma confirm_scan_append [trace_simps]:
  "confirm_scan s i prev pre = IndexLooksGood \<Longrightarrow>
   confirm_scan s i prev (pre @ rest) = confirm_scan s (i + length pre) (last (prev # pre)) rest"
proof (induction pre arbitrary: i prev)
  case Nil
  then show ?case by simp
next
  case (Cons e pre)
  then show ?case
    by (cases "entry_check s i prev e") (simp_all add: entry_check_not_good)
qed

lemma confirm_scan_index_update [trace_simps]:
  "confirm_scan (s\<lparr>index := x\<rparr>) i prev idx = confirm_scan s i prev idx"
proof -
  have "entry_check (s\<lparr>index := x\<rparr>) = entry_check s"
    by (simp add: entry_check_def fun_eq_iff)
  then show ?thesis by (induction idx arbitrary: i prev) (simp_all split: option.split)
qed

lemma sorted_zero_Cons [trace_simps]:
  "sorted ((0::'a::{linorder,zero}) # xs) \<longleftrightarrow> sorted xs \<and> list_all ((\<le>) 0) xs"
  by (auto simp: list_all_iff)

lemma sound_entry_facts [trace_simps]:
  assumes "entry_sound loads f e" and "(p, t') \<in> set (timed_records loads f)"
  shows "(int p < snd e \<longrightarrow> t' \<le> fst e) \<and> (snd e \<le> int p \<longrightarrow> fst e \<le> t')"
  using assms by (auto simp: entry_sound_def list_all_iff)

lemma bracket_of_lower [trace_simps]:
  assumes sound: "list_all (entry_sound loads f) idx" and res: "bracket_of idx t = Some (lo, hi)"
    and "(p, t') \<in> set (timed_records loads f)" and "t \<le> t'"
  shows "lo \<le> int p"
proof -
  obtain pre e post where idx: "idx = pre @ e # post"
    and pre: "pre = takeWhile (\<lambda>e. fst e < t) idx" and lo: "lo = last (0 # map snd pre)"
    using res by (rule bracket_of_Some)
  show ?thesis
  proof (cases "pre = []")
    case True
    then show ?thesis using lo by simp
  next
    case False
    let ?l = "last pre"
    have l_in: "?l \<in> set pre" and lo': "lo = snd ?l" using False lo by (simp_all add: last_map)
    have "fst ?l < t" using l_in pre by (metis set_takeWhileD)
    moreover have "entry_sound loads f ?l" using sound idx l_in by (simp add: list_all_iff)
    ultimately show ?thesis using sound_entry_facts assms(3,4) lo' by fastforce
  qed
qed

lemma bracket_of_upper [trace_simps]:
  assumes sound: "list_all (entry_sound loads f) idx" and res: "bracket_of idx t = Some (lo, hi)"
    and "(p, t') \<in> set (timed_records loads f)" and "hi \<le> int p"
  shows "t \<le> t'"
proof -
  obtain pre e post where idx: "idx = pre @ e # post" and te: "t \<le> fst e" and hi: "hi = snd e"
    using res by (rule bracket_of_Some)
  have "entry_sound loads f e" using sound idx by (simp add: list_all_iff)
  then show ?thesis using sound_entry_facts assms(3,4) te hi by fastforce
qed

lemma bracket_of_ordered [trace_simps]:
  assumes sound: "list_all (entry_sound loads f) idx" and sorted: "sorted (map snd idx)"
    and res: "bracket_of idx t = Some (lo, hi)"
  shows "0 \<le> lo \<and> lo \<le> hi"
proof -
  obtain pre e post where idx: "idx = pre @ e # post" and hi: "hi = snd e"
    and lo: "lo = last (0 # map snd pre)"
    using res by (rule bracket_of_Some)
  have se: "0 \<le> snd e" using sound idx by (simp add: list_all_iff entry_sound_def)
  show ?thesis
  proof (cases "pre = []")
    case True
    then show ?thesis using lo hi se by simp
  next
    case False
    then have l_in: "last pre \<in> set pre" and lo': "lo = snd (last pre)" using lo by (simp_all add: last_map)
    then have "0 \<le> lo" using sound idx by (auto simp: list_all_iff entry_sound_def)
    moreover have "lo \<le> hi" using sorted idx l_in lo' hi by (simp add: sorted_append)
    ultimately show ?thesis by simp
  qed
qed

section \<open>Properties\<close>

text \<open>
  C3. Bracketing (spec section 4.5): on an index whose entries are sound for the trace and
  whose offsets are non-decreasing, a query strictly inside \<^verbatim>\<open>(min_ts, max_ts)\<close> that
  succeeds returns \<open>(lo, hi)\<close> with \<open>lo \<le> hi\<close>, every record with a timestamp at or
  after the query at or after offset \<open>lo\<close>, and every record from offset \<open>hi\<close> on at or
  after the query. The cut between the records earlier than the query and the others lies
  in \<open>[lo, hi]\<close>.
\<close>

theorem search_brackets_records:
  assumes sound: "list_all (entry_sound loads f) (index s)"
    and sorted: "sorted (map snd (index s))"
    and "0 \<le> min_ts s" and "min_ts s < t" and "t < max_ts s"
    and res: "search_index s t = Inr (lo, hi)"
  shows "lo \<le> hi \<and>
         list_all (\<lambda>(p, t'). t \<le> t' \<longrightarrow> lo \<le> int p) (timed_records loads f) \<and>
         list_all (\<lambda>(p, t'). hi \<le> int p \<longrightarrow> t \<le> t') (timed_records loads f)"
proof -
  have br: "bracket_of (index s) t = Some (lo, hi)"
    using assms(3-5) res by (simp add: search_index_def search_scan_bracket_of split: option.splits)
  show ?thesis
    using bracket_of_ordered [OF sound sorted br] bracket_of_lower [OF sound br]
      bracket_of_upper [OF sound br]
    by (auto simp: list_all_iff)
qed

theorem search_brackets_records_witness:
  "list_all (entry_sound example_loads example_trace) [(20, 36), (40, 58)] \<and>
   search_index \<lparr>line_count = 7, min_ts = 10, max_ts = 40, index = [(20, 36), (40, 58)],
                 metadata_events = [], file_size = 60\<rparr> 25 = Inr (36, 58) \<and>
   list_all (\<lambda>(p, t'). 25 \<le> t' \<longrightarrow> 36 \<le> int p) (timed_records example_loads example_trace)"
proof -
  let ?s = "\<lparr>line_count = 7, min_ts = 10, max_ts = 40, index = [(20::real, 36::int), (40, 58)],
             metadata_events = [], file_size = 60\<rparr>"
  have h1: "list_all (entry_sound example_loads example_trace) (index ?s)" by code_simp
  have h2: "sorted (map snd (index ?s))" by simp
  have h3: "0 \<le> min_ts ?s" "min_ts ?s < 25" "25 < max_ts ?s" by simp_all
  have h4: "search_index ?s 25 = Inr (36, 58)" by (simp add: search_index_def)
  show ?thesis using search_brackets_records [OF h1 h2 h3 h4] h1 h4 by simp
qed
text \<open>
  C10. Refinement: on traces with non-negative timestamps the searcher implements its
  contract \<open>search_spec\<close>: \<open>(0, 0)\<close> at or below \<^verbatim>\<open>min_ts\<close>, the file size twice at or
  above \<^verbatim>\<open>max_ts\<close>, and otherwise the bracket around the first index entry whose
  timestamp reaches the query, failing with \<^verbatim>\<open>RuntimeError\<close> when there is none.
\<close>

theorem search_index_refines_spec:
  assumes "0 \<le> min_ts s"
  shows "search_index s t =
           (case search_spec s t of None \<Rightarrow> Inl IndexScanFailed | Some r \<Rightarrow> Inr r)"
  using assms by (simp add: search_index_def search_spec_def search_scan_bracket_of)

theorem search_index_refines_spec_witness:
  "0 \<le> min_ts \<lparr>line_count = 7, min_ts = 10, max_ts = 40, index = [(20, 36), (40, 58)],
                  metadata_events = [], file_size = 60\<rparr> \<and>
   search_index \<lparr>line_count = 7, min_ts = 10, max_ts = 40, index = [(20, 36), (40, 58)],
                  metadata_events = [], file_size = 60\<rparr> 25 = Inr (36, 58)"
proof -
  let ?s = "\<lparr>line_count = 7, min_ts = 10, max_ts = 40, index = [(20::real, 36::int), (40, 58)],
             metadata_events = [], file_size = 60\<rparr>"
  have h: "0 \<le> min_ts ?s" by simp
  show ?thesis using search_index_refines_spec [OF h, of 25]
    by (simp add: search_spec_def bracket_of_def)
qed



text \<open>
  C11. The validator accepts an index exactly when it is valid: timestamps and offsets
  non-decreasing, timestamps within \<^verbatim>\<open>[min_ts, max_ts]\<close> and non-negative (the loop
  starts from \<^verbatim>\<open>last_ts = 0\<close>), offsets within \<^verbatim>\<open>[0, file_size]\<close>.
\<close>

theorem validator_accepts_iff_valid: "fst (confirm_index_is_valid s) \<longleftrightarrow> valid_index s"
  by (auto simp: confirm_index_is_valid_def valid_index_def confirm_scan_good sorted_zero_Cons
      list_all_iff)



end
