(* ===== verification/Extractor.thy ===== *)
theory Extractor
  imports Index_Search
begin

text \<open>
  The Extractor: \<^verbatim>\<open>HorovodTimeline.extract_and_save_slice\<close> (\<^verbatim>\<open>extract.py\<close> lines
  463--528). \<open>extract_window\<close> computes the exact window and the buffered window of
  lines 470--478, the two searches give the byte range, \<open>meta_text\<close> is the loop of
  lines 497--502 that writes the metadata events, and \<open>extract_loop\<close> is the
  \<^verbatim>\<open>while True\<close> loop of lines 507--528: it reads a line, writes it when its timestamp
  lies in the exact window, and stops after the first line that ends at or after the
  upper byte bound. The loop need not stop, so it is a \<^theory_text>\<open>partial_function (option)\<close>.
  The model returns the text written to the output file and the list of written events
  (the \<^verbatim>\<open>event_list\<close> of \<^verbatim>\<open>return_slice\<close>); the output path and the progress bar are not
  modelled.
\<close>

definition in_window :: "tstamp \<Rightarrow> tstamp \<Rightarrow> event \<Rightarrow> bool" where
  "in_window lo hi e \<longleftrightarrow> (case ts_field e of None \<Rightarrow> False | Some ts \<Rightarrow> lo \<le> ts \<and> ts \<le> hi)"

definition emit_record :: "encoder \<Rightarrow> tstamp \<Rightarrow> tstamp \<Rightarrow> event option \<Rightarrow>
    string \<times> event list \<Rightarrow> string \<times> event list" where
  "emit_record dumps lo hi j acc =
     (case j of
        None \<Rightarrow> acc
      | Some e \<Rightarrow>
          (case ts_field e of
             None \<Rightarrow> acc
           | Some ts \<Rightarrow>
               if ts \<ge> lo \<and> ts \<le> hi
               then (fst acc @ '',\<newline>'' @ dumps e, snd acc @ [e]) else acc))"

partial_function (option) extract_loop ::
  "decoder \<Rightarrow> encoder \<Rightarrow> tstamp \<Rightarrow> tstamp \<Rightarrow> int \<Rightarrow> handle \<Rightarrow> string \<times> event list \<Rightarrow>
   (string \<times> event list) option" where
  "extract_loop loads dumps lo hi maxb h acc =
     (case fh_readline h of
        (line, h') \<Rightarrow>
          (let acc' = emit_record dumps lo hi (parse_line_as_json loads line) acc
           in if int (hpos h') \<ge> maxb then Some (fst acc' @ ''\<newline>]'', snd acc')
              else extract_loop loads dumps lo hi maxb h' acc'))"

fun meta_text :: "encoder \<Rightarrow> bool \<Rightarrow> event list \<Rightarrow> string" where
  "meta_text dumps first_line [] = []"
| "meta_text dumps first_line (m # ms) =
     (if first_line then ''\<newline>'' @ dumps m else '',\<newline>'' @ dumps m) @ meta_text dumps False ms"

definition extract_window :: "summary \<Rightarrow> real \<Rightarrow> real \<Rightarrow> tstamp \<times> tstamp \<times> tstamp \<times> tstamp" where
  "extract_window s start_secs dur_secs =
     (let min_extract_ts = start_secs * 1000000 + min_ts s;
          min_buffer_ts = min_extract_ts - 2 * 1000000;
          min_buffer_ts = (if min_buffer_ts < 0 then 0 else min_buffer_ts);
          max_extract_ts = (start_secs + dur_secs) * 1000000 + min_ts s;
          max_buffer_ts = max_extract_ts + 2 * 1000000;
          max_buffer_ts = (if max_buffer_ts > max_ts s then max_ts s else max_buffer_ts)
      in (min_extract_ts, min_buffer_ts, max_extract_ts, max_buffer_ts))"

definition extract_and_save_slice ::
  "decoder \<Rightarrow> encoder \<Rightarrow> summary \<Rightarrow> string \<Rightarrow> real \<Rightarrow> real \<Rightarrow>
   (pyerr + string \<times> event list) option" where
  "extract_and_save_slice loads dumps s f start_secs dur_secs =
     (case extract_window s start_secs dur_secs of
        (min_extract_ts, min_buffer_ts, max_extract_ts, max_buffer_ts) \<Rightarrow>
          (case search_index s min_buffer_ts of
             Inl err \<Rightarrow> Some (Inl err)
           | Inr (min_buffer_byte, _) \<Rightarrow>
               (case search_index s max_buffer_ts of
                  Inl err \<Rightarrow> Some (Inl err)
                | Inr (_, max_buffer_byte) \<Rightarrow>
                    (case fh_seek min_buffer_byte (fh_open f) of
                       Inl err \<Rightarrow> Some (Inl err)
                     | Inr h \<Rightarrow>
                         map_option Inr
                           (extract_loop loads dumps min_extract_ts max_extract_ts max_buffer_byte h
                              (''['' @ meta_text dumps True (metadata_events s), []))))))"

subsection \<open>The records a scan writes\<close>

definition window_records :: "decoder \<Rightarrow> string \<Rightarrow> tstamp \<Rightarrow> tstamp \<Rightarrow> nat \<Rightarrow> nat \<Rightarrow> event list" where
  "window_records loads f lo hi p q =
     map snd (filter (\<lambda>(r, e). p \<le> r \<and> r < q \<and> in_window lo hi e) (records loads f))"

definition written :: "encoder \<Rightarrow> event list \<Rightarrow> string" where
  "written dumps es = concat (map (\<lambda>e. '',\<newline>'' @ dumps e) es)"

text \<open>The events of the trace whose timestamp lies in \<open>[lo, hi]\<close>, in file order.\<close>

definition window_events :: "decoder \<Rightarrow> string \<Rightarrow> tstamp \<Rightarrow> tstamp \<Rightarrow> event list" where
  "window_events loads f lo hi = map snd (filter (\<lambda>(r, e). in_window lo hi e) (records loads f))"

lemma written_append [simp, trace_simps]: "written dumps (xs @ ys) = written dumps xs @ written dumps ys"
  by (simp add: written_def)

lemma emit_record_at [trace_simps]:
  assumes "line_start f p"
  shows "emit_record dumps lo hi (parse_line_as_json loads (line_at f p)) (out, evs) =
         (let es = map snd (filter (\<lambda>(r, e). in_window lo hi e) (record_at loads f p))
          in (out @ written dumps es, evs @ es))"
  using assms
  by (auto simp: emit_record_def record_at_def in_window_def written_def Let_def
      split: option.splits)

lemma window_records_step [trace_simps]:
  assumes "line_start f p" and "p + length (line_at f p) \<le> q"
  shows "window_records loads f lo hi p q =
         map snd (filter (\<lambda>(r, e). in_window lo hi e) (record_at loads f p)) @
         window_records loads f lo hi (p + length (line_at f p)) q"
proof -
  let ?p' = "p + length (line_at f p)"
  have "0 < length (line_at f p)" using assms(1) line_at_length [of p f] by (simp add: line_start_def)
  then have lt: "p < q" using assms(2) by linarith
  have "filter (\<lambda>(r, e). p \<le> r \<and> r < q \<and> in_window lo hi e) (records loads f) =
        filter (\<lambda>(r, e). r < q \<and> in_window lo hi e) (filter (\<lambda>x. p \<le> fst x) (records loads f))"
    by (simp add: split_def conj_ac)
  also have "\<dots> = filter (\<lambda>(r, e). r < q \<and> in_window lo hi e) (record_at loads f p) @
                  filter (\<lambda>(r, e). r < q \<and> in_window lo hi e) (filter (\<lambda>x. ?p' \<le> fst x) (records loads f))"
    by (simp add: records_from_line [OF assms(1)])
  also have "filter (\<lambda>(r, e). r < q \<and> in_window lo hi e) (record_at loads f p) =
             filter (\<lambda>(r, e). in_window lo hi e) (record_at loads f p)"
    using lt by (intro filter_cong) (auto dest: record_at_fst)
  finally show ?thesis
    by (simp add: window_records_def split_def conj_ac)
qed

lemma window_records_empty [trace_simps]: "window_records loads f lo hi p p = []"
  by (auto simp: window_records_def filter_empty_conv)

lemma line_end_le_boundary:
  assumes "line_start f p" and "boundary f q" and "p < q"
  shows "p + length (line_at f p) \<le> q"
proof (cases "q = length f")
  case True
  then show ?thesis using assms(1) line_at_bound [of p f] by (simp add: line_start_def)
next
  case False
  then have "line_start f q" using assms(2) by (simp add: boundary_def)
  then show ?thesis using no_start_inside_line [OF assms(1) assms(3)] by linarith
qed

lemma extract_loop_step:
  "extract_loop loads dumps lo hi maxb \<lparr>hcontent = f, hpos = p\<rparr> acc =
     (let acc' = emit_record dumps lo hi (parse_line_as_json loads (line_at f p)) acc;
          p' = p + length (line_at f p)
      in if int p' \<ge> maxb then Some (fst acc' @ ''\<newline>]'', snd acc')
         else extract_loop loads dumps lo hi maxb \<lparr>hcontent = f, hpos = p'\<rparr> acc')"
  by (subst extract_loop.simps) (simp add: readline_at Let_def)

lemma extract_loop_range:
  assumes "boundary f p" and "boundary f q" and "p < q"
  shows "extract_loop loads dumps lo hi (int q) \<lparr>hcontent = f, hpos = p\<rparr> (out, evs) =
         Some (out @ written dumps (window_records loads f lo hi p q) @ ''\<newline>]'',
               evs @ window_records loads f lo hi p q)"
  using assms
proof (induction "q - p" arbitrary: p out evs rule: less_induct)
  case less
  let ?p' = "p + length (line_at f p)"
  let ?es = "map snd (filter (\<lambda>(r, e). in_window lo hi e) (record_at loads f p))"
  have ls: "line_start f p" using less.prems by (auto simp: boundary_def line_start_def)
  have le: "?p' \<le> q" by (rule line_end_le_boundary [OF ls less.prems(2,3)])
  have step: "window_records loads f lo hi p q = ?es @ window_records loads f lo hi ?p' q"
    by (rule window_records_step [OF ls le])
  have emit: "emit_record dumps lo hi (parse_line_as_json loads (line_at f p)) (out, evs) =
              (out @ written dumps ?es, evs @ ?es)"
    using emit_record_at [OF ls] by (simp add: Let_def)
  show ?case
  proof (cases "?p' < q")
    case False
    then have "?p' = q" using le by simp
    then show ?thesis using step emit
      by (subst extract_loop_step) (simp add: Let_def window_records_empty)
  next
    case True
    have "p < ?p'" using ls line_at_length [of p f] by (simp add: line_start_def)
    then have "q - ?p' < q - p" using True by linarith
    moreover have "boundary f ?p'" by (rule line_end_boundary [OF ls])
    ultimately have "extract_loop loads dumps lo hi (int q) \<lparr>hcontent = f, hpos = ?p'\<rparr>
                       (out @ written dumps ?es, evs @ ?es) =
                     Some ((out @ written dumps ?es) @ written dumps (window_records loads f lo hi ?p' q) @ ''\<newline>]'',
                           (evs @ ?es) @ window_records loads f lo hi ?p' q)"
      using less.hyps less.prems(2) True by blast
    then show ?thesis using True step emit by (subst extract_loop_step) (simp add: Let_def)
  qed
qed
lemma extract_loop_Some_bound:
  assumes "extract_loop loads dumps lo hi maxb h acc = Some y"
  shows "hpos h \<le> length (hcontent h) \<longrightarrow> maxb \<le> int (length (hcontent h))"
proof (rule extract_loop.raw_induct [where P = "\<lambda>_ _ _ _ maxb h _ _.
    hpos h \<le> length (hcontent h) \<longrightarrow> maxb \<le> int (length (hcontent h))", OF _ assms])
  fix loop :: "decoder \<Rightarrow> encoder \<Rightarrow> tstamp \<Rightarrow> tstamp \<Rightarrow> int \<Rightarrow> handle \<Rightarrow> string \<times> event list \<Rightarrow>
     (string \<times> event list) option"
    and loads dumps lo hi maxb h acc y
  assume ih: "\<And>dumps lo hi maxb h acc b y. loop dumps lo hi maxb h acc b = Some y \<Longrightarrow>
                hpos acc \<le> length (hcontent acc) \<longrightarrow> h \<le> int (length (hcontent acc))"
    and body: "(case fh_readline h of (line, h') \<Rightarrow>
        let acc' = emit_record dumps lo hi (parse_line_as_json loads line) acc
        in if maxb \<le> int (hpos h') then Some (fst acc' @ ''\<newline>]'', snd acc')
           else loop loads dumps lo hi maxb h' acc') = Some y"
  obtain l h' where r: "fh_readline h = (l, h')" by fastforce
  show "hpos h \<le> length (hcontent h) \<longrightarrow> maxb \<le> int (length (hcontent h))"
  proof
    assume "hpos h \<le> length (hcontent h)"
    then have h': "hpos h' \<le> length (hcontent h')" "hcontent h' = hcontent h"
      using fh_readline_within [OF r] fh_readline_pos [OF r] by auto
    show "maxb \<le> int (length (hcontent h))"
    proof (cases "maxb \<le> int (hpos h')")
      case True
      moreover have "int (hpos h') \<le> int (length (hcontent h))" using h' by simp
      ultimately show ?thesis by linarith
    next
      case False
      then show ?thesis using ih [of loads dumps lo hi maxb h' _ y] body r h' by (simp add: Let_def)
    qed
  qed
qed


lemma extract_loop_diverges:
  assumes "hpos h \<le> length (hcontent h)" and "int (length (hcontent h)) < maxb"
  shows "extract_loop loads dumps lo hi maxb h acc = None"
  using assms extract_loop_Some_bound [of loads dumps lo hi maxb h acc] by (cases "extract_loop loads dumps lo hi maxb h acc") auto


lemma search_index_boundary:
  assumes sound: "list_all (entry_sound loads f) (index s)" and "0 \<le> min_ts s"
    and "file_size s = length f" and res: "search_index s t = Inr (a, b)"
  shows "0 \<le> a \<and> 0 \<le> b \<and> boundary f (nat a) \<and> boundary f (nat b)"
proof (cases "min_ts s < t \<and> t < max_ts s")
  case False
  then show ?thesis using assms by (auto simp: search_index_def boundary_zero boundary_length split: if_splits)
next
  case True
  then have "bracket_of (index s) t = Some (a, b)"
    using assms by (simp add: search_index_def search_scan_bracket_of split: option.splits)
  then obtain pre e post where idx: "index s = pre @ e # post"
    and a: "a = last (0 # map snd pre)" and b: "b = snd e"
    by (rule bracket_of_Some)
  have "entry_sound loads f e" using sound idx by (simp add: list_all_iff)
  then have eb: "0 \<le> b \<and> boundary f (nat b)" using b by (simp add: entry_sound_def)
  have "0 \<le> a \<and> boundary f (nat a)"
  proof (cases "pre = []")
    case True
    then show ?thesis using a by (simp add: boundary_zero)
  next
    case False
    then have "entry_sound loads f (last pre)" and "a = snd (last pre)"
      using sound idx a by (simp_all add: list_all_iff last_map)
    then show ?thesis by (simp add: entry_sound_def)
  qed
  then show ?thesis using eb by simp
qed


lemma search_index_lower:
  assumes ss: "summary_sound loads f s" and res: "search_index s t = Inr (a, b)"
    and "a < int (file_size s)" and tr: "(p, t') \<in> set (timed_records loads f)" and "t \<le> t'"
  shows "a \<le> int p"
proof -
  consider "t \<le> min_ts s" | "max_ts s \<le> t" | "min_ts s < t \<and> t < max_ts s" by linarith
  then show ?thesis
  proof cases
    case 3
    then have "bracket_of (index s) t = Some (a, b)"
      using ss res by (simp add: search_index_def summary_sound_def search_scan_bracket_of split: option.splits)
    then show ?thesis using bracket_of_lower tr assms(5) ss by (fastforce simp: summary_sound_def)
  qed (use assms in \<open>auto simp: search_index_def split: if_splits\<close>)
qed

lemma search_index_upper:
  assumes ss: "summary_sound loads f s" and res: "search_index s t = Inr (a, b)"
    and "0 < b" and tr: "(p, t') \<in> set (timed_records loads f)" and lt: "t' < t \<or> max_ts s \<le> t"
  shows "int p < b"
proof -
  have p: "p < length f" using tr by (simp add: timed_records_member line_start_def)
  consider "t \<le> min_ts s" | "\<not> t \<le> min_ts s \<and> max_ts s \<le> t" | "min_ts s < t \<and> t < max_ts s"
    by linarith
  then show ?thesis
  proof cases
    case 3
    then have "bracket_of (index s) t = Some (a, b)"
      using ss res by (simp add: search_index_def summary_sound_def search_scan_bracket_of split: option.splits)
    moreover have "\<not> t \<le> t'" using lt 3 by linarith
    ultimately show ?thesis using bracket_of_upper tr ss by (fastforce simp: summary_sound_def)
  qed (use assms p in \<open>auto simp: search_index_def summary_sound_def split: if_splits\<close>)
qed

lemma slice_window_records:
  assumes ss: "summary_sound loads f s"
    and w: "extract_window s start_secs dur_secs = (lo_e, lo_b, hi_e, hi_b)"
    and r1: "search_index s lo_b = Inr (bl, x)" and r2: "search_index s hi_b = Inr (y, bh)"
    and lt: "bl < bh"
  shows "window_records loads f lo_e hi_e (nat bl) (nat bh) = window_events loads f lo_e hi_e"
proof -
  have fs: "file_size s = length f" and m0: "0 \<le> min_ts s"
    and sound: "list_all (entry_sound loads f) (index s)"
    using ss by (simp_all add: summary_sound_def)
  have b1: "0 \<le> bl \<and> boundary f (nat bl)" using search_index_boundary [OF sound m0 fs r1] by simp
  have b2: "0 \<le> bh \<and> boundary f (nat bh)" using search_index_boundary [OF sound m0 fs r2] by simp
  have bh_le: "bh \<le> int (file_size s)" using b2 fs by (auto simp: boundary_def line_start_def)
  have lob: "lo_b = (if lo_e - 2 * 1000000 < 0 then 0 else lo_e - 2 * 1000000)"
    and hib: "hi_b = (if hi_e + 2 * 1000000 > max_ts s then max_ts s else hi_e + 2 * 1000000)"
    using w by (auto simp: extract_window_def Let_def)
  have inside: "nat bl \<le> r \<and> r < nat bh"
    if mem: "(r, e) \<in> set (records loads f)" and iw: "in_window lo_e hi_e e" for r e
  proof -
    obtain t' where te: "ts_field e = Some t'" and win: "lo_e \<le> t'" "t' \<le> hi_e"
      using iw by (auto simp: in_window_def split: option.splits)
    have tr: "(r, t') \<in> set (timed_records loads f)" by (rule records_timed [OF mem te])
    then have rng: "min_ts s \<le> t' \<and> t' \<le> max_ts s" using ss by (auto simp: summary_sound_def list_all_iff)
    have "lo_b \<le> t'" using lob win rng m0 by auto
    then have "bl \<le> int r" using search_index_lower [OF ss r1 _ tr] lt bh_le by linarith
    moreover have "t' < hi_b \<or> max_ts s \<le> hi_b" using hib win rng by auto
    then have "int r < bh" using search_index_upper [OF ss r2 _ tr] lt b1 by linarith
    ultimately show ?thesis by linarith
  qed
  show ?thesis
    unfolding window_records_def window_events_def
    by (rule arg_cong [where f = "map snd"], rule filter_cong) (auto dest: inside)
qed

lemma extract_slice_loop:
  assumes ss: "summary_sound loads f s"
    and w: "extract_window s start_secs dur_secs = (lo_e, lo_b, hi_e, hi_b)"
    and r1: "search_index s lo_b = Inr (bl, x)" and r2: "search_index s hi_b = Inr (y, bh)"
    and lt: "bl < bh"
  shows "extract_and_save_slice loads dumps s f start_secs dur_secs =
           Some (Inr (''['' @ meta_text dumps True (metadata_events s) @
                      written dumps (window_records loads f lo_e hi_e (nat bl) (nat bh)) @ ''\<newline>]'',
                      window_records loads f lo_e hi_e (nat bl) (nat bh)))"
proof -
  have fs: "file_size s = length f" and m0: "0 \<le> min_ts s"
    and sound: "list_all (entry_sound loads f) (index s)"
    using ss by (simp_all add: summary_sound_def)
  have b1: "0 \<le> bl \<and> boundary f (nat bl)" using search_index_boundary [OF sound m0 fs r1] by simp
  have b2: "0 \<le> bh \<and> boundary f (nat bh)" using search_index_boundary [OF sound m0 fs r2] by simp
  have "extract_loop loads dumps lo_e hi_e bh \<lparr>hcontent = f, hpos = nat bl\<rparr>
          (''['' @ meta_text dumps True (metadata_events s), []) =
        Some ((''['' @ meta_text dumps True (metadata_events s)) @
                written dumps (window_records loads f lo_e hi_e (nat bl) (nat bh)) @ ''\<newline>]'',
              [] @ window_records loads f lo_e hi_e (nat bl) (nat bh))"
    using extract_loop_range [of f "nat bl" "nat bh"] b1 b2 lt by simp
  then show ?thesis
    using w r1 r2 b1
    by (simp add: extract_and_save_slice_def fh_seek_def fh_open_def)
qed


lemma window_events_all_timed:
  assumes "list_all (\<lambda>(p, t). lo \<le> t \<and> t \<le> hi) (timed_records loads f)"
  shows "window_events loads f lo hi = map snd (filter (\<lambda>(r, e). ts_field e \<noteq> None) (records loads f))"
  unfolding window_events_def
proof (rule arg_cong [where f = "map snd"], rule filter_cong)
  fix x assume "x \<in> set (records loads f)"
  then show "(case x of (r, e) \<Rightarrow> in_window lo hi e) = (case x of (r, e) \<Rightarrow> ts_field e \<noteq> None)"
    using assms records_timed [of "fst x" "snd x" loads f]
    by (cases x) (auto simp: in_window_def list_all_iff split: option.split)
qed simp

section \<open>Properties\<close>

text \<open>
  C1. Exact extraction (spec section 4.6): for a summary that is sound for the trace file,
  when both buffer searches succeed and the start offset lies before the stop offset,
  \<^verbatim>\<open>extract_and_save_slice\<close> terminates and writes \<^verbatim>\<open>[\<close>, the metadata events, then exactly
  the records whose timestamp lies in \<open>[min_extract_ts, max_extract_ts]\<close>, in file order,
  each after \<^verbatim>\<open>,\<newline>\<close>, and the closing \<^verbatim>\<open>\<newline>]\<close>; the returned event list is the
  same records.
\<close>

theorem extract_slice_exact:
  assumes ss: "summary_sound loads f s"
    and w: "extract_window s start_secs dur_secs = (lo_e, lo_b, hi_e, hi_b)"
    and r1: "search_index s lo_b = Inr (bl, x)" and r2: "search_index s hi_b = Inr (y, bh)"
    and lt: "bl < bh"
  shows "extract_and_save_slice loads dumps s f start_secs dur_secs =
           Some (Inr (''['' @ meta_text dumps True (metadata_events s) @
                      written dumps (window_events loads f lo_e hi_e) @ ''\<newline>]'',
                      window_events loads f lo_e hi_e))"
  using extract_slice_loop [OF assms] slice_window_records [OF assms] by simp

theorem extract_slice_exact_witness:
  \<open>summary_sound example_loads example_trace
     \<lparr>line_count = 7, min_ts = 10, max_ts = 40, index = [(20, 36), (40, 58)],
      metadata_events = [\<lparr>ts_field = None, other_fields = [(''ph'', ''"M"'')]\<rparr>], file_size = 60\<rparr> \<and>
   extract_and_save_slice example_loads example_dumps
     \<lparr>line_count = 7, min_ts = 10, max_ts = 40, index = [(20, 36), (40, 58)],
      metadata_events = [\<lparr>ts_field = None, other_fields = [(''ph'', ''"M"'')]\<rparr>], file_size = 60\<rparr>
     example_trace 0 (1 / 100000) =
   Some (Inr (''[\<newline>{"ph":"M"},\<newline>{"ts":10},\<newline>{"ts":20}\<newline>]'',
              [\<lparr>ts_field = Some 10, other_fields = []\<rparr>, \<lparr>ts_field = Some 20, other_fields = []\<rparr>]))\<close>
proof -
  let ?m = \<open>\<lparr>ts_field = None, other_fields = [(''ph'', ''"M"'')]\<rparr>\<close>
  let ?s = "\<lparr>line_count = 7, min_ts = 10, max_ts = 40, index = [(20::real, 36::int), (40, 58)],
             metadata_events = [?m], file_size = 60\<rparr>"
  have h1: "summary_sound example_loads example_trace ?s" by code_simp
  have h2: "extract_window ?s 0 (1 / 100000) = (10, 0, 20, 40)"
    by (simp add: extract_window_def Let_def)
  have h3: "search_index ?s 0 = Inr (0, 0)" by (simp add: search_index_def)
  have h4: "search_index ?s 40 = Inr (60, 60)" by (simp add: search_index_def)
  have h5: "window_events example_loads example_trace 10 20 =
            [\<lparr>ts_field = Some 10, other_fields = []\<rparr>, \<lparr>ts_field = Some 20, other_fields = []\<rparr>]"
    by code_simp
  have h6: \<open>''['' @ meta_text example_dumps True [?m] @
            written example_dumps [\<lparr>ts_field = Some 10, other_fields = []\<rparr>,
                                   \<lparr>ts_field = Some 20, other_fields = []\<rparr>] @ ''\<newline>]'' =
            ''[\<newline>{"ph":"M"},\<newline>{"ts":10},\<newline>{"ts":20}\<newline>]''\<close>
    by code_simp
  show ?thesis using extract_slice_exact [OF h1 h2 h3 h4] h1 h5 h6 by simp
qed



text \<open>
  C23. When the summary holds no metadata events and the window holds a record, the output
  file starts with \<^verbatim>\<open>[,\<close>: the first record is written after \<^verbatim>\<open>,\<newline>\<close> whatever came
  before it (\<^verbatim>\<open>extract.py\<close> line 517), so the slice is not valid JSON.
\<close>

theorem slice_without_metadata_starts_with_comma:
  assumes ss: "summary_sound loads f s"
    and w: "extract_window s start_secs dur_secs = (lo_e, lo_b, hi_e, hi_b)"
    and r1: "search_index s lo_b = Inr (bl, x)" and r2: "search_index s hi_b = Inr (y, bh)"
    and lt: "bl < bh" and nometa: "metadata_events s = []"
    and some: "window_events loads f lo_e hi_e \<noteq> []"
  shows "\<exists>rest. extract_and_save_slice loads dumps s f start_secs dur_secs =
           Some (Inr (''[,\<newline>'' @ rest, window_events loads f lo_e hi_e))"
proof -
  obtain e es where "window_events loads f lo_e hi_e = e # es" using some by (cases "window_events loads f lo_e hi_e") auto
  then show ?thesis
    using extract_slice_loop [OF ss w r1 r2 lt] slice_window_records [OF ss w r1 r2 lt] nometa
    by (simp add: written_def)
qed

theorem slice_without_metadata_starts_with_comma_witness:
  "summary_sound example_loads example_trace
     \<lparr>line_count = 7, min_ts = 10, max_ts = 40, index = [(20, 36), (40, 58)],
      metadata_events = [], file_size = 60\<rparr> \<and>
   extract_window \<lparr>line_count = 7, min_ts = 10, max_ts = 40, index = [(20, 36), (40, 58)],
      metadata_events = [], file_size = 60\<rparr> 0 (1 / 100000) = (10, 0, 20, 40) \<and>
   window_events example_loads example_trace 10 20 =
     [\<lparr>ts_field = Some 10, other_fields = []\<rparr>, \<lparr>ts_field = Some 20, other_fields = []\<rparr>] \<and>
   (\<exists>rest. extract_and_save_slice example_loads example_dumps
     \<lparr>line_count = 7, min_ts = 10, max_ts = 40, index = [(20, 36), (40, 58)],
      metadata_events = [], file_size = 60\<rparr> example_trace 0 (1 / 100000) =
     Some (Inr (''[,\<newline>'' @ rest, window_events example_loads example_trace 10 20)))"
proof -
  let ?s = "\<lparr>line_count = 7, min_ts = 10, max_ts = 40, index = [(20::real, 36::int), (40, 58)],
             metadata_events = [], file_size = 60\<rparr>"
  have h1: "summary_sound example_loads example_trace ?s" by code_simp
  have h2: "extract_window ?s 0 (1 / 100000) = (10, 0, 20, 40)" by (simp add: extract_window_def Let_def)
  have h3: "search_index ?s 0 = Inr (0, 0)" and h4: "search_index ?s 40 = Inr (60, 60)"
    by (simp_all add: search_index_def)
  have h5: "window_events example_loads example_trace 10 20 =
            [\<lparr>ts_field = Some 10, other_fields = []\<rparr>, \<lparr>ts_field = Some 20, other_fields = []\<rparr>]"
    by code_simp
  show ?thesis
    using slice_without_metadata_starts_with_comma [OF h1 h2 h3 h4, of example_dumps] h1 h2 h5 by simp
qed

text \<open>
  C16. The copy loop stops only at a line ending at or after \<^verbatim>\<open>max_buffer_byte\<close>. When that
  offset lies past the end of the file (a summary computed for a longer file), \<^verbatim>\<open>readline\<close>
  returns the empty string at EOF forever and \<^verbatim>\<open>extract_and_save_slice\<close> never returns.
\<close>

theorem extract_spins_past_eof:
  assumes w: "extract_window s start_secs dur_secs = (lo_e, lo_b, hi_e, hi_b)"
    and r1: "search_index s lo_b = Inr (bl, x)" and r2: "search_index s hi_b = Inr (y, bh)"
    and "0 \<le> bl" and "bl \<le> int (length f)" and "int (length f) < bh"
  shows "extract_and_save_slice loads dumps s f start_secs dur_secs = None"
proof -
  have "extract_loop loads dumps lo_e hi_e bh \<lparr>hcontent = f, hpos = nat bl\<rparr> acc = None" for acc
    using assms(4-6) by (intro extract_loop_diverges) simp_all
  then show ?thesis using w r1 r2 assms(4) by (simp add: extract_and_save_slice_def fh_seek_def fh_open_def)
qed

theorem extract_spins_past_eof_witness:
  "extract_window \<lparr>line_count = 7, min_ts = 10, max_ts = 40, index = [(20, 36), (40, 58)],
      metadata_events = [], file_size = 100\<rparr> 0 (1 / 100000) = (10, 0, 20, 40) \<and>
   search_index \<lparr>line_count = 7, min_ts = 10, max_ts = 40, index = [(20, 36), (40, 58)],
      metadata_events = [], file_size = 100\<rparr> 40 = Inr (100, 100) \<and>
   int (length example_trace) = 60 \<and>
   extract_and_save_slice example_loads example_dumps
     \<lparr>line_count = 7, min_ts = 10, max_ts = 40, index = [(20, 36), (40, 58)],
      metadata_events = [], file_size = 100\<rparr> example_trace 0 (1 / 100000) = None"
proof -
  let ?s = "\<lparr>line_count = 7, min_ts = 10, max_ts = 40, index = [(20::real, 36::int), (40, 58)],
             metadata_events = [], file_size = 100\<rparr>"
  have h1: "extract_window ?s 0 (1 / 100000) = (10, 0, 20, 40)" by (simp add: extract_window_def Let_def)
  have h2: "search_index ?s 0 = Inr (0, 0)" and h3: "search_index ?s 40 = Inr (100, 100)"
    by (simp_all add: search_index_def)
  have h4: "int (length example_trace) = 60" by (simp add: example_trace_def)
  show ?thesis
    using extract_spins_past_eof [OF h1 h2 h3, of example_trace example_loads example_dumps] h1 h3 h4 by simp
qed

text \<open>
  C24. When every timed record carries the same timestamp (\<open>min_ts = max_ts\<close>), the
  full-window extraction searches \<open>max_ts\<close>, gets \<open>(0, 0)\<close> from the first branch of
  \<^verbatim>\<open>search_index\<close>, and so reads only the first line of the file: a trace whose first line is
  the array opener yields no record at all, although spec section 8 promises every
  timestamped record.
\<close>

theorem full_window_single_timestamp:
  assumes eq: "min_ts s = max_ts s" and m0: "0 \<le> min_ts s"
    and first: "parse_line_as_json loads (line_at f 0) = None"
  shows "extract_and_save_slice loads dumps s f 0 ((max_ts s - min_ts s) / 1000000) =
           Some (Inr (''['' @ meta_text dumps True (metadata_events s) @ ''\<newline>]'', []))"
proof -
  let ?lo_b = "if min_ts s - 2 * 1000000 < 0 then 0 else min_ts s - 2 * 1000000"
  have w: "extract_window s 0 ((max_ts s - min_ts s) / 1000000) = (min_ts s, ?lo_b, min_ts s, min_ts s)"
    using eq by (simp add: extract_window_def Let_def)
  have r1: "search_index s ?lo_b = Inr (0, 0)" and r2: "search_index s (min_ts s) = Inr (0, 0)"
    using m0 by (simp_all add: search_index_def)
  have "extract_loop loads dumps (min_ts s) (min_ts s) 0 \<lparr>hcontent = f, hpos = 0\<rparr> acc = Some (fst acc @ ''\<newline>]'', snd acc)"
    for acc
    using first by (subst extract_loop_step) (simp add: Let_def emit_record_def)
  then show ?thesis using w r1 r2 by (simp add: extract_and_save_slice_def fh_seek_def fh_open_def)
qed

theorem full_window_single_timestamp_witness:
  \<open>min_ts \<lparr>line_count = 3, min_ts = 10, max_ts = 10, index = [], metadata_events = [], file_size = 15\<rparr> =
     max_ts \<lparr>line_count = 3, min_ts = 10, max_ts = 10, index = [], metadata_events = [], file_size = 15\<rparr> \<and>
   timed_records example_loads ''[\<newline>{"ts":10},\<newline>]\<newline>'' = [(2, 10)] \<and>
   extract_and_save_slice example_loads example_dumps
     \<lparr>line_count = 3, min_ts = 10, max_ts = 10, index = [], metadata_events = [], file_size = 15\<rparr>
     ''[\<newline>{"ts":10},\<newline>]\<newline>'' 0 0 = Some (Inr (''[\<newline>]'', []))\<close>
proof -
  let ?s = "\<lparr>line_count = 3, min_ts = 10::real, max_ts = 10, index = [], metadata_events = [], file_size = 15\<rparr>"
  let ?f = \<open>''[\<newline>{"ts":10},\<newline>]\<newline>''\<close>
  have h1: "min_ts ?s = max_ts ?s" and h2: "0 \<le> min_ts ?s" by simp_all
  have h3: "parse_line_as_json example_loads (line_at ?f 0) = None" by code_simp
  have h4: "timed_records example_loads ?f = [(2, 10)]" by code_simp
  show ?thesis using full_window_single_timestamp [OF h1 h2 h3, of example_dumps] h4 by simp
qed

end
