(* ===== verification/Scanner.thy ===== *)
theory Scanner
  imports Trace
begin

text \<open>
  The Scanner and the Metadata Scanner: \<^verbatim>\<open>HorovodTimeline.summarize\<close> (\<^verbatim>\<open>extract.py\<close>
  lines 278--331) and \<^verbatim>\<open>find_metadata_events\<close> (lines 334--365). \<open>summarize\<close> reads lines
  until one has a timestamp (\<open>find_min_ts\<close>, a loop that need not stop, so a
  \<^theory_text>\<open>partial_function (option)\<close>), counts newlines over the 64 KiB chunks of
  \<open>blocks\<close>, seeks to \<^verbatim>\<open>file_size - 100000\<close>, drops the rest of that line and keeps the
  largest non-zero timestamp of the remaining lines (\<open>max_step\<close>). The file size is a
  parameter, as \<^verbatim>\<open>self.file_size_bytes\<close> is set by the constructor from \<^verbatim>\<open>os.stat\<close>.
  \<open>meta_scan\<close> is the counted line loop of \<^verbatim>\<open>find_metadata_events\<close> with its \<^verbatim>\<open>break\<close>.
  Progress bars, timing and printing are not modelled.

  The lemmas give the value of \<open>summarize\<close> in terms of the trace's timed records, its
  divergence on a trace without timestamps, its \<^verbatim>\<open>ValueError\<close> on files under 100 kB, and
  the lines the metadata scan reads.
\<close>

partial_function (option) find_min_ts :: "decoder \<Rightarrow> handle \<Rightarrow> (tstamp \<times> handle) option" where
  "find_min_ts loads h =
     (case fh_readline h of
        (line, h') \<Rightarrow>
          (case extract_ts_from_line loads line of
             None \<Rightarrow> find_min_ts loads h'
           | Some ts \<Rightarrow> Some (ts, h')))"

definition max_step :: "decoder \<Rightarrow> tstamp \<Rightarrow> string \<Rightarrow> tstamp" where
  "max_step loads max_ts' line =
     (case extract_ts_from_line loads line of
        None \<Rightarrow> max_ts'
      | Some ts \<Rightarrow> if ts \<noteq> 0 then max ts max_ts' else max_ts')"

definition summarize :: "decoder \<Rightarrow> nat \<Rightarrow> string \<Rightarrow> (pyerr + nat \<times> tstamp \<times> tstamp) option" where
  "summarize loads fsz f =
     (case find_min_ts loads (fh_open f) of
        None \<Rightarrow> None
      | Some (min_ts', h1) \<Rightarrow>
          (case fh_seek 0 h1 of
             Inl err \<Rightarrow> Some (Inl err)
           | Inr h2 \<Rightarrow>
               (case blocks 65536 h2 of
                  (bls, h3) \<Rightarrow>
                    (let lc = sum_list (map (\<lambda>bl. count_list bl CHR ''\<newline>'') bls)
                     in case fh_seek (int fsz - 100000) h3 of
                          Inl err \<Rightarrow> Some (Inl err)
                        | Inr h4 \<Rightarrow>
                            (let h5 = snd (fh_readline h4);
                                 max_ts' = foldl (max_step loads) 0 (read_lines h5)
                             in Some (Inr (lc, min_ts', max_ts')))))))"

fun meta_scan :: "decoder \<Rightarrow> nat \<Rightarrow> nat \<Rightarrow> string list \<Rightarrow> (nat \<times> string) list" where
  "meta_scan loads max_lines cnt [] = []"
| "meta_scan loads max_lines cnt (line # lines) =
     (let cnt' = Suc cnt;
          hit = (case parse_line_as_json loads line of
                   None \<Rightarrow> False
                 | Some j \<Rightarrow> event_truthy j \<and> ts_field j = None)
      in (if hit then [(cnt', line)] else []) @
         (if cnt' > max_lines then [] else meta_scan loads max_lines cnt' lines))"

definition find_metadata_events :: "decoder \<Rightarrow> nat \<Rightarrow> string \<Rightarrow> event list" where
  "find_metadata_events loads max_lines f =
     concat (map (\<lambda>(_, line). case parse_line_as_json loads line of None \<Rightarrow> [] | Some j \<Rightarrow> [j])
       (meta_scan loads max_lines 0 (read_lines (fh_open f))))"

text \<open>
  Reference definitions for the statements: the maximum kept by the loop of lines
  320--323, the first line boundary after the seek target, and the metadata a line
  contributes.
\<close>

definition max_nonzero :: "tstamp \<Rightarrow> tstamp \<Rightarrow> tstamp" where
  "max_nonzero m t = (if t \<noteq> 0 then max t m else m)"

definition tail_start :: "string \<Rightarrow> nat \<Rightarrow> nat" where
  "tail_start f p0 = p0 + length (line_at f p0)"

definition metadata_of :: "decoder \<Rightarrow> string \<Rightarrow> event list" where
  "metadata_of loads line =
     (case parse_line_as_json loads line of
        None \<Rightarrow> []
      | Some j \<Rightarrow> if event_truthy j \<and> ts_field j = None then [j] else [])"

section \<open>Loop lemmas\<close>

lemma find_min_ts_step:
  "find_min_ts loads \<lparr>hcontent = f, hpos = p\<rparr> =
     (case extract_ts_from_line loads (line_at f p) of
        None \<Rightarrow> find_min_ts loads \<lparr>hcontent = f, hpos = p + length (line_at f p)\<rparr>
      | Some ts \<Rightarrow> Some (ts, \<lparr>hcontent = f, hpos = p + length (line_at f p)\<rparr>))"
  by (subst find_min_ts.simps) (simp add: readline_at)

lemma find_min_ts_from:
  assumes "boundary f q" and "filter (\<lambda>x. q \<le> fst x) (timed_records loads f) = (p, t) # rest"
  shows "find_min_ts loads \<lparr>hcontent = f, hpos = q\<rparr> = Some (t, \<lparr>hcontent = f, hpos = p + length (line_at f p)\<rparr>)"
  using assms
proof (induction "length f - q" arbitrary: q rule: less_induct)
  case less
  show ?case
  proof (cases "q = length f")
    case True
    then show ?thesis using less.prems(2) timed_records_from_end [of f loads] by simp
  next
    case False
    then have ls: "line_start f q" using less.prems by (simp add: boundary_def)
    let ?q' = "q + length (line_at f q)"
    have lt: "q < ?q'" using ls line_at_length [of q f] by (simp add: line_start_def)
    have le: "?q' \<le> length f" using ls line_at_bound [of q f] by (simp add: line_start_def)
    have split: "filter (\<lambda>x. q \<le> fst x) (timed_records loads f) =
                 line_ts loads f q @ filter (\<lambda>x. ?q' \<le> fst x) (timed_records loads f)"
      using timed_records_from_line [OF ls, of loads] by (simp add: line_ts_def)
    show ?thesis
    proof (cases "extract_ts_from_line loads (line_at f q)")
      case None
      then have "filter (\<lambda>x. ?q' \<le> fst x) (timed_records loads f) = (p, t) # rest"
        using split less.prems(2) by (simp add: line_ts_def)
      moreover have "length f - ?q' < length f - q" using lt le by linarith
      ultimately show ?thesis
        using less.hyps line_end_boundary [OF ls] None by (subst find_min_ts_step) simp
    next
      case (Some t')
      then show ?thesis using split less.prems(2) by (subst find_min_ts_step) (simp add: line_ts_def)
    qed
  qed
qed

lemma find_min_ts_Some_timed:
  assumes "find_min_ts loads h = Some y"
  shows "loads [] = None \<longrightarrow> boundary (hcontent h) (hpos h) \<longrightarrow>
         filter (\<lambda>x. hpos h \<le> fst x) (timed_records loads (hcontent h)) \<noteq> []"
proof (rule find_min_ts.raw_induct [where P = "\<lambda>loads h _. loads [] = None \<longrightarrow> boundary (hcontent h) (hpos h) \<longrightarrow>
      filter (\<lambda>x. hpos h \<le> fst x) (timed_records loads (hcontent h)) \<noteq> []", OF _ assms])
  fix loop :: "decoder \<Rightarrow> handle \<Rightarrow> (tstamp \<times> handle) option" and loads h y
  assume ih: "\<And>loads h y. loop loads h = Some y \<Longrightarrow> loads [] = None \<longrightarrow> boundary (hcontent h) (hpos h) \<longrightarrow>
                filter (\<lambda>x. hpos h \<le> fst x) (timed_records loads (hcontent h)) \<noteq> []"
    and body: "(case fh_readline h of (line, h') \<Rightarrow>
                  (case extract_ts_from_line loads line of None \<Rightarrow> loop loads h' | Some ts \<Rightarrow> Some (ts, h'))) = Some y"
  show "loads [] = None \<longrightarrow> boundary (hcontent h) (hpos h) \<longrightarrow>
        filter (\<lambda>x. hpos h \<le> fst x) (timed_records loads (hcontent h)) \<noteq> []"
  proof (intro impI)
    assume nil: "loads [] = None" and bd: "boundary (hcontent h) (hpos h)"
    obtain f q where h: "h = \<lparr>hcontent = f, hpos = q\<rparr>" by (cases h) simp
    show "filter (\<lambda>x. hpos h \<le> fst x) (timed_records loads (hcontent h)) \<noteq> []"
    proof (cases "q = length f")
      case True
      have "extract_ts_from_line loads [] = None"
        using nil by (simp add: extract_ts_from_line_def parse_line_as_json_def strip_def lstrip_def rstrip_def)
      then have "loop loads h = Some y" using body h True by (simp add: readline_at line_at_def)
      then show ?thesis using ih nil bd by blast
    next
      case False
      then have ls: "line_start f q" using bd h by (simp add: boundary_def)
      let ?q' = "q + length (line_at f q)"
      have split: "filter (\<lambda>x. q \<le> fst x) (timed_records loads f) =
                   line_ts loads f q @ filter (\<lambda>x. ?q' \<le> fst x) (timed_records loads f)"
        using timed_records_from_line [OF ls, of loads] by (simp add: line_ts_def)
      show ?thesis
      proof (cases "extract_ts_from_line loads (line_at f q)")
        case None
        then have "loop loads \<lparr>hcontent = f, hpos = ?q'\<rparr> = Some y" using body h by (simp add: readline_at)
        then have "filter (\<lambda>x. ?q' \<le> fst x) (timed_records loads f) \<noteq> []"
          using ih [of loads "\<lparr>hcontent = f, hpos = ?q'\<rparr>" y] nil line_end_boundary [OF ls] by simp
        then show ?thesis using split h by simp
      next
        case (Some t)
        then show ?thesis using split h by (simp add: line_ts_def)
      qed
    qed
  qed
qed

lemma find_min_ts_diverges:
  assumes "loads [] = None" and "boundary f q" and "filter (\<lambda>x. q \<le> fst x) (timed_records loads f) = []"
  shows "find_min_ts loads \<lparr>hcontent = f, hpos = q\<rparr> = None"
  using assms find_min_ts_Some_timed [of loads "\<lparr>hcontent = f, hpos = q\<rparr>"]
  by (cases "find_min_ts loads \<lparr>hcontent = f, hpos = q\<rparr>") auto

lemma foldl_max_step:
  "foldl (max_step loads) m (map (line_at f) ps) =
   foldl max_nonzero m (map snd (concat (map (line_ts loads f) ps)))"
  by (induction ps arbitrary: m)
     (simp_all add: max_step_def max_nonzero_def line_ts_def split: option.split)

lemma tail_lines_max:
  "foldl (max_step loads) 0 (read_lines (snd (fh_readline \<lparr>hcontent = f, hpos = p0\<rparr>))) =
   foldl max_nonzero 0 (map snd (filter (\<lambda>x. tail_start f p0 \<le> fst x) (timed_records loads f)))"
proof (cases "p0 < length f")
  case True
  then have "boundary f (tail_start f p0)" by (simp add: tail_start_def line_end_boundary_any)
  then show ?thesis
    by (simp add: readline_at read_lines_split_lines rest_of_def split_lines_from timed_records_from
        foldl_max_step tail_start_def)
next
  case False
  then have "filter (\<lambda>x. tail_start f p0 \<le> fst x) (timed_records loads f) = []"
    using timed_records_from_end [of f loads]
    by (auto simp: filter_empty_conv tail_start_def)
  moreover have "drop (tail_start f p0) f = []" using False by (simp add: tail_start_def)
  ultimately show ?thesis
    by (simp add: readline_at read_lines_split_lines rest_of_def split_lines.simps tail_start_def)
qed

lemma seek_handle [trace_simps]:
  "0 \<le> n \<Longrightarrow> fh_seek n h = Inr \<lparr>hcontent = hcontent h, hpos = nat n\<rparr>"
  by (cases h) (simp add: fh_seek_def)

lemma blocks_line_count [trace_simps]:
  "sum_list (map (\<lambda>bl. count_list bl CHR ''\<newline>'') (fst (blocks 65536 \<lparr>hcontent = f, hpos = 0\<rparr>))) =
   count_list f CHR ''\<newline>''"
  using concat_blocks [of 65536 "\<lparr>hcontent = f, hpos = 0\<rparr>"]
  by (simp add: count_list_concat [symmetric] rest_of_def)

lemma find_min_ts_first:
  "timed_records loads f = (p, t) # rest \<Longrightarrow>
   find_min_ts loads (fh_open f) = Some (t, \<lparr>hcontent = f, hpos = p + length (line_at f p)\<rparr>)"
  unfolding fh_open_def by (rule find_min_ts_from) (simp_all add: boundary_zero)

lemma summarize_value:
  assumes first: "timed_records loads f = (p, t) # rest" and big: "100000 \<le> fsz"
  shows "summarize loads fsz f =
           Some (Inr (count_list f CHR ''\<newline>'', t,
             foldl max_nonzero 0 (map snd (filter (\<lambda>x. tail_start f (fsz - 100000) \<le> fst x)
                                                   (timed_records loads f)))))"
proof -
  obtain bls h3 where b: "blocks 65536 \<lparr>hcontent = f, hpos = 0\<rparr> = (bls, h3)" by fastforce
  have h3: "hcontent h3 = f" using blocks_content [of 65536 "\<lparr>hcontent = f, hpos = 0\<rparr>"] b by simp
  have lc: "sum_list (map (\<lambda>bl. count_list bl CHR ''\<newline>'') bls) = count_list f CHR ''\<newline>''"
    using blocks_line_count [of f] b by simp
  have "nat (int fsz - 100000) = fsz - 100000" using big by simp
  then show ?thesis
    using find_min_ts_first [OF first] b h3 lc big tail_lines_max [of loads f "fsz - 100000"]
    by (simp add: summarize_def seek_handle Let_def)
qed

lemma foldl_max_nonzero_sorted:
  "sorted ys \<Longrightarrow> ys \<noteq> [] \<Longrightarrow> 0 < last ys \<Longrightarrow> m \<le> last ys \<Longrightarrow> foldl max_nonzero m ys = last ys"
proof (induction ys arbitrary: m)
  case Nil
  then show ?case by simp
next
  case (Cons y ys)
  show ?case
  proof (cases "ys = []")
    case True
    then show ?thesis using Cons.prems by (simp add: max_nonzero_def)
  next
    case False
    have "y \<le> last ys" using Cons.prems(1) False by (simp add: last_in_set)
    then have "max_nonzero m y \<le> last ys" using Cons.prems False by (simp add: max_nonzero_def)
    then show ?thesis using Cons.IH [of "max_nonzero m y"] Cons.prems False by simp
  qed
qed

lemma meta_scan_take:
  "cnt \<le> max_lines \<Longrightarrow>
   concat (map (\<lambda>(_, line). case parse_line_as_json loads line of None \<Rightarrow> [] | Some j \<Rightarrow> [j])
     (meta_scan loads max_lines cnt lines)) =
   concat (map (metadata_of loads) (take (Suc max_lines - cnt) lines))"
proof (induction lines arbitrary: cnt)
  case Nil
  then show ?case by simp
next
  case (Cons l ls)
  have hd: "concat (map (\<lambda>(_, line). case parse_line_as_json loads line of None \<Rightarrow> [] | Some j \<Rightarrow> [j])
              (if (case parse_line_as_json loads l of None \<Rightarrow> False
                   | Some j \<Rightarrow> event_truthy j \<and> ts_field j = None) then [(Suc cnt, l)] else [])) =
            metadata_of loads l"
    by (simp add: metadata_of_def split: option.split)
  show ?case
  proof (cases "Suc cnt > max_lines")
    case True
    then have "Suc max_lines - cnt = Suc 0" using Cons.prems by simp
    then show ?thesis using True hd by (simp add: Let_def)
  next
    case False
    then have "Suc max_lines - cnt = Suc (Suc max_lines - Suc cnt)" by simp
    then show ?thesis using False hd Cons.IH [of "Suc cnt"] by (simp add: Let_def)
  qed
qed

lemma summarize_None_iff:
  "summarize loads fsz f = None \<longleftrightarrow> find_min_ts loads (fh_open f) = None"
  by (auto simp: summarize_def Let_def split: option.splits sum.splits prod.splits)

lemma summarize_monotone_value:
  assumes mono: "monotone_trace loads f" and last: "timed_records loads f = pre @ [(p_last, t_last)]"
    and tail: "tail_start f (fsz - 100000) \<le> p_last" and pos: "0 < t_last" and big: "100000 \<le> fsz"
  shows "summarize loads fsz f = Some (Inr (count_list f CHR ''\<newline>'', snd (hd (timed_records loads f)), t_last))"
proof -
  have "timed_records loads f \<noteq> []" using last by simp
  then obtain p t rest where first: "timed_records loads f = (p, t) # rest"
    by (metis list.exhaust surj_pair)
  let ?ys = "map snd (filter (\<lambda>x. tail_start f (fsz - 100000) \<le> fst x) (timed_records loads f))"
  have ys: "?ys = map snd (filter (\<lambda>x. tail_start f (fsz - 100000) \<le> fst x) pre) @ [t_last]"
    using last tail by simp
  have "sorted (map snd (timed_records loads f))" using mono by (simp add: monotone_trace_def)
  then have "sorted ?ys" by (simp add: sorted_map sorted_wrt_filter)
  then have "foldl max_nonzero 0 ?ys = t_last"
    using foldl_max_nonzero_sorted [of ?ys 0] ys pos by simp
  then show ?thesis using summarize_value [OF first big] first by simp
qed

section \<open>Properties\<close>

text \<open>
  C6. Scanner (spec section 4.2): on a trace whose timestamps are non-decreasing in file
  order, when the last timed record lies after the first line boundary past
  \<^verbatim>\<open>file_size - 100000\<close> and is positive, \<open>summarize\<close> terminates and returns the number of
  newlines, the first timestamp of the file and the last one.
\<close>

theorem summarize_monotone:
  assumes mono: "monotone_trace loads f" and last: "timed_records loads f = pre @ [(p_last, t_last)]"
    and tail: "tail_start f (fsz - 100000) \<le> p_last" and pos: "0 < t_last" and big: "100000 \<le> fsz"
  shows "summarize loads fsz f = Some (Inr (count_list f CHR ''\<newline>'', snd (hd (timed_records loads f)), t_last))"
  using assms by (rule summarize_monotone_value)

theorem summarize_monotone_witness:
  "monotone_trace example_loads example_trace \<and>
   timed_records example_loads example_trace = [(14, 10), (25, 20), (36, 30)] @ [(47, 40)] \<and>
   tail_start example_trace 0 \<le> 47 \<and>
   summarize example_loads 100000 example_trace = Some (Inr (7, 10, 40))"
proof -
  have h1: "monotone_trace example_loads example_trace" by code_simp
  have h2: "timed_records example_loads example_trace = [(14, 10), (25, 20), (36, 30)] @ [(47, 40)]"
    by code_simp
  have h3: "tail_start example_trace (100000 - 100000) \<le> 47"
    by (simp add: tail_start_def line_at_def example_trace_def)
  have h4: "count_list example_trace CHR ''\<newline>'' = 7" by code_simp
  show ?thesis
    using summarize_monotone [OF h1 h2 h3] h1 h2 h3 h4 by simp
qed

text \<open>
  C29. Termination of the Scanner: for a decoder that rejects the empty string (what
  \<^verbatim>\<open>readline()\<close> returns at the end of the file), \<^verbatim>\<open>summarize\<close> returns, with a summary or
  an error, exactly when the trace has a line with a timestamp.
\<close>

theorem summarize_terminates_iff:
  assumes "loads [] = None"
  shows "(\<exists>r. summarize loads fsz f = Some r) \<longleftrightarrow> timed_records loads f \<noteq> []"
proof (cases "timed_records loads f")
  case Nil
  then have "find_min_ts loads (fh_open f) = None"
    using find_min_ts_diverges [of loads f 0] assms by (simp add: fh_open_def boundary_zero)
  then show ?thesis using Nil summarize_None_iff [of loads fsz f] by simp
next
  case (Cons x rest)
  then obtain p t where "timed_records loads f = (p, t) # rest" by (cases x) auto
  then have "find_min_ts loads (fh_open f) \<noteq> None" using find_min_ts_first by simp
  then show ?thesis using Cons summarize_None_iff [of loads fsz f] by auto
qed

theorem summarize_terminates_iff_witness:
  "example_loads [] = None \<and> timed_records example_loads example_trace \<noteq> [] \<and>
   (\<exists>r. summarize example_loads 60 example_trace = Some r)"
proof -
  have h: "example_loads [] = None" by code_simp
  have t: "timed_records example_loads example_trace \<noteq> []" by code_simp
  show ?thesis using summarize_terminates_iff [of example_loads 60 example_trace] h t by simp
qed

text \<open>
  C18. On a file under 100,000 bytes that has a timestamp, \<open>summarize\<close> seeks to a negative
  offset and raises \<^verbatim>\<open>ValueError\<close> (line 316): the 50,000-byte scenario of spec section 8
  cannot be summarised.
\<close>

theorem summarize_small_file_fails:
  assumes first: "timed_records loads f = (p, t) # rest" and small: "fsz < 100000"
  shows "summarize loads fsz f = Some (Inl (NegativeSeek (int fsz - 100000)))"
  using find_min_ts_first [OF first] small
  by (simp add: summarize_def seek_handle fh_seek_def split: prod.split)

theorem summarize_small_file_fails_witness:
  "timed_records example_loads example_trace = (14, 10) # [(25, 20), (36, 30), (47, 40)] \<and>
   summarize example_loads 60 example_trace = Some (Inl (NegativeSeek (-99940)))"
proof -
  have h1: "timed_records example_loads example_trace = (14, 10) # [(25, 20), (36, 30), (47, 40)]"
    by code_simp
  show ?thesis using summarize_small_file_fails [OF h1, of 60] h1 by simp
qed



text \<open>
  C19. Metadata Scanner (spec section 4.3): \<^verbatim>\<open>find_metadata_events(n)\<close> returns the truthy
  objects without \<^verbatim>\<open>ts\<close> among the first \<open>n + 1\<close> lines of the file, in file order: the
  counter is tested after the line is processed, so one line more than \<open>n\<close> is read.
\<close>

theorem metadata_scans_one_line_more:
  "find_metadata_events loads max_lines f =
     concat (map (metadata_of loads) (take (Suc max_lines) (split_lines f)))"
  using meta_scan_take [of 0 max_lines loads "split_lines f"]
  by (simp add: find_metadata_events_def read_lines_split_lines rest_of_def fh_open_def)

end
