(* ===== verification/Index_Builder.thy ===== *)
theory Index_Builder
  imports Index_Search
begin

text \<open>
  The Index Builder: \<^verbatim>\<open>HorovodTimeline.build_index\<close> and its generator \<^verbatim>\<open>line_samples\<close>
  (\<^verbatim>\<open>extract.py\<close> lines 368--421). Each step skips \<^verbatim>\<open>jump\<close> characters, in chunks of at
  most 65,536 when the stride is large (\<open>skip_chunks\<close>, the inner \<^verbatim>\<open>while\<close> loop), reads the
  rest of the current line, reads the next full line as the sample, and stops when that
  read is empty. \<open>build_index\<close> keeps \<open>(ts, tell())\<close> for the samples with a non-zero
  timestamp. Both loops terminate (measures on the remaining stride and on the unread
  part of the file). Progress bars and timing are not modelled.

  The lemmas show that the chunked skip is one read, that every sample is a full line
  of the trace, that sample offsets are more than a stride apart, and that on a
  monotone trace every entry is sound in the sense of \<open>Index_Search.entry_sound\<close>.
\<close>

function skip_chunks :: "int \<Rightarrow> int \<Rightarrow> handle \<Rightarrow> handle" where
  "skip_chunks jump jumped h =
     (if jump - jumped > 0
      then (let next_jump = min (jump - jumped) 65536;
                h' = snd (fh_read next_jump h)
            in skip_chunks jump (jumped + next_jump) h')
      else h)"
  by pat_completeness auto
termination
  by (relation "measure (\<lambda>(jump, jumped, h). nat (jump - jumped))") auto

declare skip_chunks.simps [simp del]

definition skip_bytes :: "int \<Rightarrow> handle \<Rightarrow> handle" where
  "skip_bytes jump h = (if jump < 65536 then snd (fh_read jump h) else skip_chunks jump 0 h)"

function line_samples :: "int \<Rightarrow> handle \<Rightarrow> (string \<times> nat) list" where
  "line_samples jump h =
     (let h1 = skip_bytes jump h;
          h2 = snd (fh_readline h1);
          (b, h3) = fh_readline h2
      in if b = [] then [] else (b, hpos h3) # line_samples jump h3)"
  by pat_completeness auto
definition build_index :: "decoder \<Rightarrow> int \<Rightarrow> string \<Rightarrow> time_index" where
  "build_index loads jump_bytes f =
     concat (map (\<lambda>(sample_line, ptr).
                    case extract_ts_from_line loads sample_line of
                      None \<Rightarrow> []
                    | Some ts \<Rightarrow> if ts \<noteq> 0 then [(ts, int ptr)] else [])
       (line_samples jump_bytes (fh_open f)))"

section \<open>Loop lemmas\<close>

lemma fh_read_zero [trace_simps]: "snd (fh_read 0 h) = h"
  by (simp add: fh_read_def Let_def)

lemma skip_chunks_read:
  "skip_chunks jump jumped h = snd (fh_read (max 0 (jump - jumped)) h)"
proof (induction jump jumped h rule: skip_chunks.induct)
  case (1 jump jumped h)
  show ?case
  proof (cases "jump - jumped > 0")
    case True
    let ?n = "min (jump - jumped) 65536"
    have "skip_chunks jump jumped h = skip_chunks jump (jumped + ?n) (snd (fh_read ?n h))"
      using True by (subst skip_chunks.simps) (simp add: Let_def)
    also have "\<dots> = snd (fh_read (max 0 (jump - (jumped + ?n))) (snd (fh_read ?n h)))"
      using "1.IH" True by simp
    also have "\<dots> = snd (fh_read (?n + max 0 (jump - (jumped + ?n))) h)"
      using True by (simp add: fh_read_read)
    also have "?n + max 0 (jump - (jumped + ?n)) = max 0 (jump - jumped)"
      using True by simp
    finally show ?thesis .
  next
    case False
    then show ?thesis by (subst skip_chunks.simps) (simp add: fh_read_zero)
  qed
qed

lemma skip_bytes_read [trace_simps]: "skip_bytes jump h = snd (fh_read jump h)"
  by (simp add: skip_bytes_def skip_chunks_read max_def)

termination line_samples
proof (relation "measure (\<lambda>(jump, h). length (hcontent h) - hpos h)")
  show "wf (measure (\<lambda>(jump, h). length (hcontent h) - hpos h))" by simp
next
  fix jump h h1 h2 x b h3
  assume h1: "h1 = skip_bytes jump h" and h2: "h2 = snd (fh_readline h1)" and x: "x = fh_readline h2"
    and b: "(b, h3) = x" and ne: "b \<noteq> []"
  obtain l where r2: "fh_readline h1 = (l, h2)" using h2 by (metis prod.collapse)
  have r3: "fh_readline h2 = (b, h3)" using x b by simp
  have "hcontent h1 = hcontent h \<and> hpos h \<le> hpos h1"
    using h1 by (simp add: skip_bytes_read fh_read_def Let_def)
  moreover have "hcontent h2 = hcontent h1 \<and> hpos h1 \<le> hpos h2" using fh_readline_pos [OF r2] by simp
  moreover have "length (hcontent h3) - hpos h3 < length (hcontent h2) - hpos h2"
    by (rule fh_readline_nonempty [OF r3 ne])
  moreover have "hcontent h3 = hcontent h2" using fh_readline_pos [OF r3] by simp
  ultimately show "((jump, h3), jump, h) \<in> measure (\<lambda>(jump, h). length (hcontent h) - hpos h)"
    by simp linarith
qed

declare line_samples.simps [simp del]

lemma line_samples_step:
  "line_samples jump \<lparr>hcontent = f, hpos = p\<rparr> =
     (let p1 = hpos (snd (fh_read jump \<lparr>hcontent = f, hpos = p\<rparr>));
          p2 = p1 + length (line_at f p1);
          b = line_at f p2
      in if b = [] then [] else (b, p2 + length b) # line_samples jump \<lparr>hcontent = f, hpos = p2 + length b\<rparr>)"
  by (subst line_samples.simps) (simp add: skip_bytes_read fh_read_def Let_def readline_at)

lemma line_samples_lines:
  "(b, ptr) \<in> set (line_samples jump \<lparr>hcontent = f, hpos = p\<rparr>) \<Longrightarrow>
   \<exists>q. p \<le> q \<and> line_start f q \<and> b = line_at f q \<and> ptr = q + length b"
proof (induction "length f - p" arbitrary: p rule: less_induct)
  case less
  let ?p1 = "hpos (snd (fh_read jump \<lparr>hcontent = f, hpos = p\<rparr>))"
  let ?p2 = "?p1 + length (line_at f ?p1)"
  let ?b = "line_at f ?p2"
  have p1: "p \<le> ?p1" by (simp add: fh_read_def Let_def)
  have ne: "?b \<noteq> []" using less.prems line_samples_step [of jump f p] by (auto simp: Let_def split: if_splits)
  then have lt2: "?p2 < length f" by (simp add: line_at_def)
  then have "?p1 < length f" by linarith
  then have ls: "line_start f ?p2" using line_end_boundary_any [of ?p1 f] lt2 by (simp add: boundary_def)
  have mem: "(b, ptr) = (?b, ?p2 + length ?b) \<or>
             (b, ptr) \<in> set (line_samples jump \<lparr>hcontent = f, hpos = ?p2 + length ?b\<rparr>)"
    using less.prems ne line_samples_step [of jump f p] by (simp add: Let_def)
  then show ?case
  proof
    assume "(b, ptr) = (?b, ?p2 + length ?b)"
    then show ?thesis using ls p1 by auto
  next
    assume rec: "(b, ptr) \<in> set (line_samples jump \<lparr>hcontent = f, hpos = ?p2 + length ?b\<rparr>)"
    have "0 < length ?b" using ne by simp
    then have "length f - (?p2 + length ?b) < length f - p" using lt2 p1 by linarith
    then obtain q where "?p2 + length ?b \<le> q \<and> line_start f q \<and> b = line_at f q \<and> ptr = q + length b"
      using less.hyps rec by blast
    then show ?thesis using p1 by (metis le_add1 order_trans)
  qed
qed

lemma line_samples_after:
  "(b, ptr) \<in> set (line_samples jump \<lparr>hcontent = f, hpos = p\<rparr>) \<Longrightarrow> int p + jump < int ptr"
proof (induction "length f - p" arbitrary: p rule: less_induct)
  case less
  let ?p1 = "hpos (snd (fh_read jump \<lparr>hcontent = f, hpos = p\<rparr>))"
  let ?p2 = "?p1 + length (line_at f ?p1)"
  let ?b = "line_at f ?p2"
  have ne: "?b \<noteq> []" using less.prems line_samples_step [of jump f p] by (auto simp: Let_def split: if_splits)
  then have lt2: "?p2 < length f" by (simp add: line_at_def)
  have p1: "int p + jump \<le> int ?p1"
    using lt2 by (auto simp: fh_read_def Let_def rest_of_def min_def split: if_splits)
  have "0 < length ?b" using ne by simp
  then have head: "int p + jump < int (?p2 + length ?b)" using p1 by linarith
  have mem: "(b, ptr) = (?b, ?p2 + length ?b) \<or>
             (b, ptr) \<in> set (line_samples jump \<lparr>hcontent = f, hpos = ?p2 + length ?b\<rparr>)"
    using less.prems ne line_samples_step [of jump f p] by (simp add: Let_def)
  then show ?case
  proof
    assume "(b, ptr) = (?b, ?p2 + length ?b)"
    then show ?thesis using head by simp
  next
    assume rec: "(b, ptr) \<in> set (line_samples jump \<lparr>hcontent = f, hpos = ?p2 + length ?b\<rparr>)"
    have "p \<le> ?p1" by (simp add: fh_read_def Let_def)
    then have "length f - (?p2 + length ?b) < length f - p" using lt2 \<open>0 < length ?b\<close> by linarith
    then have "int (?p2 + length ?b) + jump < int ptr" using less.hyps rec by blast
    then show ?thesis using head \<open>p \<le> ?p1\<close> by linarith
  qed
qed

lemma line_samples_spaced:
  "sorted_wrt (\<lambda>x y. int (snd x) + jump < int (snd y)) (line_samples jump \<lparr>hcontent = f, hpos = p\<rparr>)"
proof (induction "length f - p" arbitrary: p rule: less_induct)
  case less
  let ?p1 = "hpos (snd (fh_read jump \<lparr>hcontent = f, hpos = p\<rparr>))"
  let ?p2 = "?p1 + length (line_at f ?p1)"
  let ?b = "line_at f ?p2"
  show ?case
  proof (cases "?b = []")
    case True
    then show ?thesis using line_samples_step [of jump f p] by (simp add: Let_def)
  next
    case False
    then have lt2: "?p2 < length f" by (simp add: line_at_def)
    have "p \<le> ?p1" by (simp add: fh_read_def Let_def)
    moreover have "0 < length ?b" using False by simp
    ultimately have "length f - (?p2 + length ?b) < length f - p" using lt2 by linarith
    then have "sorted_wrt (\<lambda>x y. int (snd x) + jump < int (snd y))
                 (line_samples jump \<lparr>hcontent = f, hpos = ?p2 + length ?b\<rparr>)"
      using less.hyps by blast
    then show ?thesis
      using False line_samples_step [of jump f p] line_samples_after [of _ _ jump f "?p2 + length ?b"]
      by (auto simp: Let_def)
  qed
qed

lemma sorted_wrt_concat_entries:
  assumes "sorted_wrt (\<lambda>x y. P (k x) (k y)) xs" and "\<And>x y. y \<in> set (g x) \<Longrightarrow> k' y = k x"
    and "\<And>x. length (g x) \<le> 1"
  shows "sorted_wrt (\<lambda>a b. P (k' a) (k' b)) (concat (map g xs))"
  using assms(1)
proof (induction xs)
  case Nil
  then show ?case by simp
next
  case (Cons x xs)
  have "sorted_wrt (\<lambda>a b. P (k' a) (k' b)) (g x)"
    using assms(3) [of x] by (cases "g x" rule: remdups_adj.cases) simp_all
  then show ?case
    using Cons assms(2) by (auto simp: sorted_wrt_append)
qed

lemma sample_entry_sound:
  assumes mono: "monotone_trace loads f" and ls: "line_start f q"
    and ts: "extract_ts_from_line loads (line_at f q) = Some t"
  shows "entry_sound loads f (t, int (q + length (line_at f q)))"
proof -
  have qt: "(q, t) \<in> set (timed_records loads f)" using ls ts by (simp add: timed_records_member)
  have lo: "t' \<le> t" if "(p, t') \<in> set (timed_records loads f)" and "p < q + length (line_at f q)" for p t'
  proof -
    have "line_start f p" using that(1) by (simp add: timed_records_member)
    then have "p \<le> q" using no_start_inside_line [OF ls] that(2) by (meson not_le)
    then show ?thesis using monotone_trace_le [OF mono that(1) qt] by simp
  qed
  have hi: "t \<le> t'" if "(p, t') \<in> set (timed_records loads f)" and "q + length (line_at f q) \<le> p" for p t'
    using monotone_trace_le [OF mono qt that(1)] that(2) by simp
  show ?thesis
    unfolding entry_sound_def list_all_iff
    using line_end_boundary [OF ls] lo hi by (auto simp flip: of_nat_add)
qed

lemma build_index_entry:
  "e \<in> set (build_index loads jump f) \<Longrightarrow>
   \<exists>b ptr ts. (b, ptr) \<in> set (line_samples jump \<lparr>hcontent = f, hpos = 0\<rparr>) \<and>
              extract_ts_from_line loads b = Some ts \<and> e = (ts, int ptr)"
  by (auto simp: build_index_def fh_open_def split: option.splits if_splits)

lemma build_index_entries_sound:
  assumes mono: "monotone_trace loads f"
  shows "list_all (entry_sound loads f) (build_index loads jump f)"
  unfolding list_all_iff
proof
  fix e assume "e \<in> set (build_index loads jump f)"
  then obtain b ptr ts where s: "(b, ptr) \<in> set (line_samples jump \<lparr>hcontent = f, hpos = 0\<rparr>)"
    and ts: "extract_ts_from_line loads b = Some ts" and e: "e = (ts, int ptr)"
    using build_index_entry by blast
  obtain q where "line_start f q" and "b = line_at f q" and "ptr = q + length b"
    using line_samples_lines [OF s] by blast
  then show "entry_sound loads f e" using sample_entry_sound [OF mono] ts e by simp
qed

lemma build_index_gaps:
  "sorted_wrt (\<lambda>x y. snd x + jump < snd y) (build_index loads jump f)"
  unfolding build_index_def fh_open_def
  by (rule sorted_wrt_concat_entries [where k = "\<lambda>x. int (snd x)", OF line_samples_spaced])
     (auto split: option.splits)

section \<open>Properties\<close>

text \<open>
  C5. Index Builder (spec section 4.4): on a trace whose timestamps are non-decreasing in
  file order, every entry \<open>(ts, offset)\<close> that \<open>build_index\<close> produces, for any stride, is
  sound: its offset is a line boundary, every record before it has a timestamp at most
  \<open>ts\<close> and every record from it on a timestamp at least \<open>ts\<close>.
\<close>

theorem build_index_sound:
  assumes mono: "monotone_trace loads f"
  shows "list_all (entry_sound loads f) (build_index loads jump f)"
  using assms by (rule build_index_entries_sound)

theorem build_index_sound_witness:
  "monotone_trace example_loads example_trace \<and>
   build_index example_loads 10 example_trace = [(10, 25), (30, 47)] \<and>
   list_all (entry_sound example_loads example_trace) [(10, 25), (30, 47)]"
proof -
  have h1: "monotone_trace example_loads example_trace" by code_simp
  have h2: "build_index example_loads 10 example_trace = [(10, 25), (30, 47)]" by code_simp
  show ?thesis using build_index_sound [OF h1, of 10] h1 h2 by simp
qed


text \<open>
  C15. The chunked skip of lines 380--384, which reads at most 65,536 characters at a time,
  ends where a single \<^verbatim>\<open>read(jump)\<close> would.
\<close>

theorem chunked_skip_is_one_read:
  "0 \<le> jump \<Longrightarrow> skip_chunks jump 0 h = snd (fh_read jump h)"
  by (simp add: skip_chunks_read)

theorem chunked_skip_is_one_read_witness:
  "0 \<le> (70000::int) \<and>
   skip_chunks 70000 0 \<lparr>hcontent = example_trace, hpos = 0\<rparr> = \<lparr>hcontent = example_trace, hpos = 60\<rparr>"
proof -
  have len: "length example_trace = 60" by (simp add: example_trace_def)
  have "snd (fh_read 70000 \<lparr>hcontent = example_trace, hpos = 0\<rparr>) = \<lparr>hcontent = example_trace, hpos = 60\<rparr>"
    using len by (simp add: fh_read_def rest_of_def Let_def)
  then show ?thesis using chunked_skip_is_one_read [of 70000] by simp
qed

end
