(* ===== verification/Trace_Append.thy ===== *)
theory Trace_Append
  imports Trace
begin

text \<open>
  Growth of an append-only trace (spec section 3): how the records, line starts and
  timestamped records of a file \<open>a @ b\<close> relate to those of \<open>a\<close> and \<open>b\<close> when \<open>a\<close>
  ends with a newline. The offsets of \<open>b\<close>'s records are shifted by \<open>length a\<close>
  (\<open>shift\<close>). The Summary Store uses these facts to show that an index built for a
  trace stays sound after lines are appended, and to evaluate the constructor on a file
  of more than 100 kB that is a block of newlines followed by a small trace.
\<close>

definition ends_line :: "string \<Rightarrow> bool" where
  "ends_line a \<longleftrightarrow> a = [] \<or> last a = CHR ''\<newline>''"

definition shift :: "nat \<Rightarrow> (nat \<times> 'a) list \<Rightarrow> (nat \<times> 'a) list" where
  "shift n xs = map (\<lambda>(p, x). (p + n, x)) xs"

lemma shift_append [simp, trace_simps]: "shift n (xs @ ys) = shift n xs @ shift n ys"
  by (simp add: shift_def)

lemma shift_concat [trace_simps]: "shift n (concat xss) = concat (map (shift n) xss)"
  by (induction xss) (simp_all add: shift_def)

lemma newline_in_suffix:
  assumes "ends_line a" and "p < length a"
  shows "CHR ''\<newline>'' \<in> set (drop p a)"
proof -
  have "a \<noteq> []" using assms(2) by auto
  then have "last (drop p a) = CHR ''\<newline>''" using assms by (simp add: ends_line_def)
  moreover have "drop p a \<noteq> []" using assms(2) by simp
  ultimately show ?thesis by (metis last_in_set)
qed

lemma line_start_append_left:
  "ends_line a \<Longrightarrow> p < length a \<Longrightarrow> line_start (a @ b) p \<longleftrightarrow> line_start a p"
  by (auto simp: line_start_def nth_append)

lemma line_at_append_left:
  "ends_line a \<Longrightarrow> p < length a \<Longrightarrow> line_at (a @ b) p = line_at a p"
  using newline_in_suffix [of a p] by (simp add: line_at_def line_prefix_append)

lemma line_start_append_right:
  assumes "ends_line a"
  shows "line_start (a @ b) (length a + k) \<longleftrightarrow> line_start b k"
proof (cases k)
  case 0
  have "a \<noteq> [] \<Longrightarrow> (a @ b) ! (length a - 1) = CHR ''\<newline>''"
    using assms by (simp add: ends_line_def nth_append last_conv_nth)
  then show ?thesis using 0 by (auto simp: line_start_def)
next
  case (Suc j)
  then show ?thesis by (simp add: line_start_def nth_append)
qed

lemma line_at_append_right: "line_at (a @ b) (length a + k) = line_at b k"
  by (simp add: line_at_def)

lemma upt_shift: "[n..<n + m] = map (\<lambda>k. n + k) [0..<m]"
  by (induction m) simp_all

lemma record_at_append_left:
  "ends_line a \<Longrightarrow> p < length a \<Longrightarrow> record_at loads (a @ b) p = record_at loads a p"
  by (simp add: record_at_def line_start_append_left line_at_append_left)

lemma record_at_append_right:
  assumes "ends_line a"
  shows "record_at loads (a @ b) (length a + k) = shift (length a) (record_at loads b k)"
proof -
  have ls: "line_start (a @ b) (length a + k) = line_start b k" using assms by (rule line_start_append_right)
  show ?thesis
    unfolding record_at_def ls line_at_append_right
    by (cases "parse_line_as_json loads (line_at b k)") (simp_all add: shift_def add.commute)
qed

lemma records_append [trace_simps]:
  assumes "ends_line a"
  shows "records loads (a @ b) = records loads a @ shift (length a) (records loads b)"
proof -
  have split: "[0..<length (a @ b)] = [0..<length a] @ map (\<lambda>k. length a + k) [0..<length b]"
    using upt_add_eq_append [of 0 "length a" "length b"] by (simp add: upt_shift)
  have m1: "map (record_at loads (a @ b)) [0..<length a] = map (record_at loads a) [0..<length a]"
    using assms by (simp add: record_at_append_left)
  have m2: "map (record_at loads (a @ b)) (map (\<lambda>k. length a + k) [0..<length b]) =
                 map (\<lambda>k. shift (length a) (record_at loads b k)) [0..<length b]"
    using assms by (simp add: record_at_append_right)
  show ?thesis
    unfolding records_def split map_append concat_append m1 m2 by (simp add: shift_concat comp_def)
qed

lemma timed_records_append [trace_simps]:
  assumes "ends_line a"
  shows "timed_records loads (a @ b) = timed_records loads a @ shift (length a) (timed_records loads b)"
proof -
  have "concat (map (\<lambda>(p, e). case ts_field e of None \<Rightarrow> [] | Some t \<Rightarrow> [(p, t)]) (shift n rs)) =
        shift n (concat (map (\<lambda>(p, e). case ts_field e of None \<Rightarrow> [] | Some t \<Rightarrow> [(p, t)]) rs))"
    for n and rs :: "(nat \<times> event) list"
    by (induction rs) (auto simp: shift_def split: option.split)
  then show ?thesis using records_append [OF assms] by (simp add: timed_records_def)
qed

lemma ends_line_newline [simp, trace_simps]: "ends_line (xs @ [CHR ''\<newline>''])"
  by (simp add: ends_line_def)

lemma parse_newline_line:
  "loads [] = None \<Longrightarrow> parse_line_as_json loads ''\<newline>'' = None"
  by (simp add: parse_line_as_json_def strip_def lstrip_def rstrip_def)

lemma records_newlines [trace_simps]:
  assumes "loads [] = None"
  shows "records loads (replicate n CHR ''\<newline>'') = []"
proof (induction n)
  case 0
  then show ?case by (simp add: records_def)
next
  case (Suc n)
  have "records loads ''\<newline>'' = []"
    using parse_newline_line [of loads, OF assms]
    by (simp add: records_def record_at_def line_at_def line_start_def)
  moreover have "ends_line ''\<newline>''" by (simp add: ends_line_def)
  ultimately show ?case
    using Suc.IH records_append [of "''\<newline>''" loads "replicate n CHR ''\<newline>''"]
    by (simp add: shift_def)
qed

lemma timed_records_newlines [trace_simps]:
  "loads [] = None \<Longrightarrow> timed_records loads (replicate n CHR ''\<newline>'') = []"
  by (simp add: timed_records_def records_newlines)

lemma split_lines_append [trace_simps]:
  "ends_line a \<Longrightarrow> split_lines (a @ b) = split_lines a @ split_lines b"
proof (induction a rule: split_lines.induct)
  case (1 a)
  show ?case
  proof (cases "a = []")
    case True
    then show ?thesis by (simp add: split_lines.simps [of "[]"])
  next
    case False
    then have nl: "CHR ''\<newline>'' \<in> set a" using "1.prems" by (metis ends_line_def last_in_set)
    let ?l = "line_prefix a"
    have e: "ends_line (drop (length ?l) a)"
    proof (cases "length ?l < length a")
      case True
      then show ?thesis using "1.prems" False by (simp add: ends_line_def)
    next
      case False
      then show ?thesis by (simp add: ends_line_def)
    qed
    have "split_lines (a @ b) = ?l # split_lines (drop (length ?l) a @ b)"
      using False nl length_line_prefix_le [of a]
      by (subst split_lines.simps) (simp add: line_prefix_append)
    also have "\<dots> = ?l # split_lines (drop (length ?l) a) @ split_lines b"
      using "1.IH" False e by simp
    moreover have "split_lines a = ?l # split_lines (drop (length ?l) a)"
      using False by (subst split_lines.simps) simp
    ultimately show ?thesis by simp
  qed
qed

lemma boundary_append [trace_simps]:
  assumes "ends_line a" and "boundary a q"
  shows "boundary (a @ b) q"
proof (cases "q = length a")
  case True
  show ?thesis
  proof (cases "b = []")
    case True
    then show ?thesis using \<open>q = length a\<close> by (simp add: boundary_def)
  next
    case False
    then have "line_start (a @ b) (length a + 0)"
      using line_start_append_right [OF assms(1), of b 0] by (simp add: line_start_def)
    then show ?thesis using True by (simp add: boundary_def)
  qed
next
  case False
  then have "line_start a q" using assms(2) by (simp add: boundary_def)
  then show ?thesis using line_start_append_left [OF assms(1)] by (simp add: boundary_def line_start_def)
qed

lemma boundary_le_length: "boundary f q \<Longrightarrow> q \<le> length f"
  by (auto simp: boundary_def line_start_def)

lemma ends_line_replicate [trace_simps]: "ends_line (replicate n CHR ''\<newline>'')"
  by (cases n) (simp_all add: ends_line_def)

lemma count_list_replicate [trace_simps]: "count_list (replicate n x) y = (if x = y then n else 0)"
  by (induction n) auto

lemma replicate_Cons_pos: "0 < n \<Longrightarrow> replicate n x = x # replicate (n - 1) x"
  by (cases n) simp_all

end
