(* ===== verification/Timeline.thy ===== *)
theory Timeline
  imports Scanner Index_Builder Trace_Append
begin

text \<open>
  The Summary Store: the constructor \<^verbatim>\<open>HorovodTimeline.__init__\<close> (\<^verbatim>\<open>extract.py\<close> lines
  138--241). The state of a \<^verbatim>\<open>HorovodTimeline\<close> object is a \<open>summary\<close>; the sidecar
  \<^verbatim>\<open><base>.sum.json\<close> is an optional summary given to the constructor (\<open>stored\<close>) and the
  one it writes (the second component of the result, \<open>None\<close> when nothing is written).
  \<open>rebuild_flags\<close> is the staleness decision of lines 166--195, \<open>loaded_state\<close> the fields
  read from the sidecar, \<open>index_stride\<close> the stride of lines 209--214 with Python's
  truncating \<^verbatim>\<open>int()\<close> (\<open>py_int\<close>), and \<open>timeline_init\<close> runs the three rebuild stages in the
  code's order with their errors. The file size is the length of the trace string.
  Timing and printing are not modelled.

  The lemmas show that a fresh build of a monotone trace yields a summary sound in the
  sense of \<open>Index_Search.summary_sound\<close>, so that the extraction theorems apply to it;
  that reopening an unchanged trace rescans and writes nothing; that the object's
  recorded size is always the file's and the written sidecar is the object's state; that
  an index stays sound when the file grows by later records; and the error and
  staleness behaviours of the constructor.
\<close>

definition py_int :: "real \<Rightarrow> int" where
  "py_int x = (if 0 \<le> x then \<lfloor>x\<rfloor> else \<lceil>x\<rceil>)"

definition index_stride :: "int option \<Rightarrow> real option \<Rightarrow> real \<Rightarrow> nat \<Rightarrow> pyerr + int" where
  "index_stride bytes_per_index secs_per_index duration_secs fsz =
     (case bytes_per_index of
        Some b \<Rightarrow> Inr b
      | None \<Rightarrow>
          (case secs_per_index of
             None \<Rightarrow> Inl NoStride
           | Some sp \<Rightarrow>
               if sp = 0 then Inl ZeroDivision
               else (let jumps = duration_secs / sp
                     in if jumps = 0 then Inl ZeroDivision else Inr (py_int (real fsz / jumps)))))"

definition rebuild_flags :: "summary option \<Rightarrow> bool \<Rightarrow> real option \<Rightarrow> bool \<Rightarrow> nat \<Rightarrow> bool \<times> bool \<times> bool" where
  "rebuild_flags stored build_new_summary max_extract_time live fsz =
     (case stored of
        Some s \<Rightarrow>
          if \<not> build_new_summary then
            (let stale = (fsz \<noteq> file_size s);
                 by_time = (stale \<and> (case max_extract_time of
                                        None \<Rightarrow> False
                                      | Some t \<Rightarrow> t \<noteq> 0 \<and> t * 1000000 > max_ts s));
                 by_live = (stale \<and> live)
             in (by_time \<or> by_live, False, by_time \<or> by_live))
          else (True, True, True)
      | None \<Rightarrow> (True, True, True))"

definition loaded_state :: "summary option \<Rightarrow> bool \<Rightarrow> nat \<Rightarrow> summary" where
  "loaded_state stored build_new_summary fsz =
     (case stored of
        Some s \<Rightarrow> if \<not> build_new_summary then s\<lparr>file_size := fsz\<rparr>
                 else \<lparr>line_count = 0, min_ts = 0, max_ts = 0, index = [], metadata_events = [], file_size = fsz\<rparr>
      | None \<Rightarrow> \<lparr>line_count = 0, min_ts = 0, max_ts = 0, index = [], metadata_events = [], file_size = fsz\<rparr>)"

definition timeline_init ::
  "decoder \<Rightarrow> string \<Rightarrow> summary option \<Rightarrow> nat \<Rightarrow> int option \<Rightarrow> real option \<Rightarrow> bool \<Rightarrow>
   real option \<Rightarrow> bool \<Rightarrow> (pyerr + summary \<times> summary option) option" where
  "timeline_init loads f stored max_lines bytes_per_index secs_per_index build_new_summary
       max_extract_time live =
     (let fsz = length f;
          s0 = loaded_state stored build_new_summary fsz
      in case rebuild_flags stored build_new_summary max_extract_time live fsz of
           (new_line_count, new_metadata, new_index) \<Rightarrow>
             (case (if new_line_count
                    then map_option (map_sum id (\<lambda>(lc, mn, mx). s0\<lparr>line_count := lc, min_ts := mn, max_ts := mx\<rparr>))
                           (summarize loads fsz f)
                    else Some (Inr s0)) of
                None \<Rightarrow> None
              | Some (Inl err) \<Rightarrow> Some (Inl err)
              | Some (Inr s1) \<Rightarrow>
                  (let s2 = (if new_metadata
                             then s1\<lparr>metadata_events := find_metadata_events loads max_lines f\<rparr> else s1)
                   in if new_index
                      then (case index_stride bytes_per_index secs_per_index
                                   ((max_ts s2 - min_ts s2) / 1000000) fsz of
                              Inl err \<Rightarrow> Some (Inl err)
                            | Inr jump \<Rightarrow>
                                (let s3 = s2\<lparr>index := build_index loads jump f\<rparr> in Some (Inr (s3, Some s3))))
                      else Some (Inr (s2, if new_line_count \<or> new_metadata then Some s2 else None)))))"

section \<open>Constructor lemmas\<close>

lemma loaded_unchanged [trace_simps]:
  "file_size s = fsz \<Longrightarrow> loaded_state (Some s) False fsz = s"
  by (simp add: loaded_state_def)

lemma flags_unchanged [trace_simps]:
  "file_size s = fsz \<Longrightarrow> rebuild_flags (Some s) False met live fsz = (False, False, False)"
  by (simp add: rebuild_flags_def)

lemma flags_fresh [trace_simps]:
  "stored = None \<or> build_new \<Longrightarrow> rebuild_flags stored build_new met live fsz = (True, True, True)"
  by (auto simp: rebuild_flags_def split: option.split)

lemma map_sum_Inr_iff [trace_simps]: "map_sum id g z = Inr x \<longleftrightarrow> (\<exists>y. z = Inr y \<and> x = g y)"
  by (cases z) auto

lemma sorted_first_last_bounds:
  assumes "sorted (map snd xs)" and "xs = (p0, t0) # rest" and "xs = pre @ [(pl, t_last)]"
  shows "list_all (\<lambda>(p, t). t0 \<le> t \<and> t \<le> t_last) xs"
proof -
  have "t0 \<le> t" if "(p, t) \<in> set xs" for p t
    using assms(1,2) that by auto
  moreover have "t \<le> t_last" if "(p, t) \<in> set xs" for p t
    using assms(1,3) that by (auto simp: sorted_append)
  ultimately show ?thesis by (auto simp: list_all_iff)
qed

lemma entries_survive_append:
  assumes e: "ends_line a" and sound: "list_all (entry_sound loads a) idx"
    and later: "list_all (\<lambda>(p, t). list_all (\<lambda>e. fst e \<le> t) idx) (timed_records loads b)"
  shows "list_all (entry_sound loads (a @ b)) idx"
  unfolding list_all_iff
proof
  fix x assume x: "x \<in> set idx"
  then have sx: "entry_sound loads a x" using sound by (simp add: list_all_iff)
  then have b0: "0 \<le> snd x" and bd: "boundary a (nat (snd x))" by (simp_all add: entry_sound_def)
  have le: "nat (snd x) \<le> length a" using bd by (rule boundary_le_length)
  have old: "(int p < snd x \<longrightarrow> t \<le> fst x) \<and> (snd x \<le> int p \<longrightarrow> fst x \<le> t)"
    if "(p, t) \<in> set (timed_records loads a)" for p t
    using sound_entry_facts [OF sx that] .
  have new: "(int p < snd x \<longrightarrow> t \<le> fst x) \<and> (snd x \<le> int p \<longrightarrow> fst x \<le> t)"
    if mem: "(p, t) \<in> set (shift (length a) (timed_records loads b))" for p t
  proof -
    obtain k where k: "(k, t) \<in> set (timed_records loads b)" and p: "p = k + length a"
      using mem by (auto simp: shift_def)
    have "fst x \<le> t" using later k x by (fastforce simp: list_all_iff)
    moreover have "snd x \<le> int p" using le b0 p by linarith
    ultimately show ?thesis by simp
  qed
  show "entry_sound loads (a @ b) x"
    using boundary_append [OF e bd] b0 old new timed_records_append [OF e, of loads b]
    by (auto simp: entry_sound_def list_all_iff)
qed

lemma build_index_timed:
  "e \<in> set (build_index loads jump f) \<Longrightarrow> \<exists>p. (p, fst e) \<in> set (timed_records loads f)"
proof -
  assume "e \<in> set (build_index loads jump f)"
  then obtain b ptr ts where s: "(b, ptr) \<in> set (line_samples jump \<lparr>hcontent = f, hpos = 0\<rparr>)"
    and ts: "extract_ts_from_line loads b = Some ts" and e: "e = (ts, int ptr)"
    using build_index_entry by blast
  obtain q where "line_start f q" and "b = line_at f q"
    using line_samples_lines [OF s] by blast
  then show ?thesis using ts e by (auto simp: timed_records_member)
qed

lemma fresh_build_value:
  assumes mono: "monotone_trace loads f"
    and first: "timed_records loads f = (p0, t0) # rest" and last: "timed_records loads f = pre @ [(p_last, t_last)]"
    and t0: "0 \<le> t0" and pos: "0 < t_last"
    and tail: "tail_start f (length f - 100000) \<le> p_last" and big: "100000 \<le> length f"
    and fresh: "stored = None \<or> build_new_summary" and jump: "0 \<le> jump"
    and stride: "index_stride bytes_per_index secs_per_index ((t_last - t0) / 1000000) (length f) = Inr jump"
  shows "timeline_init loads f stored max_lines bytes_per_index secs_per_index build_new_summary
           max_extract_time live =
         Some (Inr (\<lparr>line_count = count_list f CHR ''\<newline>'', min_ts = t0, max_ts = t_last,
                      index = build_index loads jump f,
                      metadata_events = find_metadata_events loads max_lines f, file_size = length f\<rparr>,
                    Some \<lparr>line_count = count_list f CHR ''\<newline>'', min_ts = t0, max_ts = t_last,
                      index = build_index loads jump f,
                      metadata_events = find_metadata_events loads max_lines f, file_size = length f\<rparr>)) \<and>
         summary_sound loads f
           \<lparr>line_count = count_list f CHR ''\<newline>'', min_ts = t0, max_ts = t_last,
            index = build_index loads jump f,
            metadata_events = find_metadata_events loads max_lines f, file_size = length f\<rparr>"
proof -
  have sm: "summarize loads (length f) f = Some (Inr (count_list f CHR ''\<newline>'', t0, t_last))"
    using summarize_monotone_value [OF mono last tail pos big] first by simp
  have l0: "loaded_state stored build_new_summary (length f) =
            \<lparr>line_count = 0, min_ts = 0, max_ts = 0, index = [], metadata_events = [], file_size = length f\<rparr>"
    using fresh by (auto simp: loaded_state_def split: option.split)
  have run: "timeline_init loads f stored max_lines bytes_per_index secs_per_index build_new_summary
               max_extract_time live =
             Some (Inr (\<lparr>line_count = count_list f CHR ''\<newline>'', min_ts = t0, max_ts = t_last,
                          index = build_index loads jump f,
                          metadata_events = find_metadata_events loads max_lines f, file_size = length f\<rparr>,
                        Some \<lparr>line_count = count_list f CHR ''\<newline>'', min_ts = t0, max_ts = t_last,
                          index = build_index loads jump f,
                          metadata_events = find_metadata_events loads max_lines f, file_size = length f\<rparr>))"
    using flags_fresh [OF fresh] sm l0 stride by (simp add: timeline_init_def Let_def)
  have sorted: "sorted (map snd (build_index loads jump f))"
    using build_index_gaps [of jump loads f] jump
    by (simp add: sorted_map) (rule sorted_wrt_mono_rel, auto)
  have rng: "list_all (\<lambda>(p, t). t0 \<le> t \<and> t \<le> t_last) (timed_records loads f)"
    using mono sorted_first_last_bounds [OF _ first last] by (simp add: monotone_trace_def)
  have "summary_sound loads f
          \<lparr>line_count = count_list f CHR ''\<newline>'', min_ts = t0, max_ts = t_last,
           index = build_index loads jump f,
           metadata_events = find_metadata_events loads max_lines f, file_size = length f\<rparr>"
    using build_index_entries_sound [OF mono] sorted rng t0 by (simp add: summary_sound_def)
  then show ?thesis using run by simp
qed

text \<open>The example trace behind 100000 empty lines, a file large enough for the tail seek.\<close>

lemma padded_example_trace:
  shows "timed_records example_loads (replicate 100000 CHR ''\<newline>'' @ example_trace) =
           [(100014, 10), (100025, 20), (100036, 30), (100047, 40)]"
    and "length (replicate 100000 CHR ''\<newline>'' @ example_trace) = 100060"
    and "tail_start (replicate 100000 CHR ''\<newline>'' @ example_trace)
           (length (replicate 100000 CHR ''\<newline>'' @ example_trace) - 100000) \<le> 100047"
    and "count_list (replicate 100000 CHR ''\<newline>'' @ example_trace) CHR ''\<newline>'' = 100007"
proof -
  let ?pad = "replicate 100000 CHR ''\<newline>''"
  let ?F = "?pad @ example_trace"
  have len: "length example_trace = 60" by (simp add: example_trace_def)
  have lenF: "length ?F = 100060" using len by simp
  have nil: "example_loads [] = None" by code_simp
  have tex: "timed_records example_loads example_trace = [(14, 10), (25, 20), (36, 30), (47, 40)]"
    by code_simp
  have tF: "timed_records example_loads ?F = [(100014, 10), (100025, 20), (100036, 30), (100047, 40)]"
    using timed_records_append [OF ends_line_replicate, of example_loads 100000 example_trace]
      timed_records_newlines [of example_loads 100000, OF nil] tex
    by (simp add: shift_def)
  have "drop 60 ?F = CHR ''\<newline>'' # (replicate 99939 CHR ''\<newline>'' @ example_trace)"
    using replicate_Cons_pos [of 99940 "CHR ''\<newline>''"] by simp
  then have "line_at ?F 60 = ''\<newline>''" by (simp add: line_at_def)
  then have tl: "tail_start ?F (length ?F - 100000) \<le> 100047" using lenF by (simp add: tail_start_def)
  have "count_list example_trace CHR ''\<newline>'' = 7" by code_simp
  then have cnt: "count_list ?F CHR ''\<newline>'' = 100007" by (simp add: count_list_replicate)
  show "timed_records example_loads ?F = [(100014, 10), (100025, 20), (100036, 30), (100047, 40)]"
    by (rule tF)
  show "length ?F = 100060" by (rule lenF)
  show "tail_start ?F (length ?F - 100000) \<le> 100047" by (rule tl)
  show "count_list ?F CHR ''\<newline>'' = 100007" by (rule cnt)
qed

lemma padded_example_eof: "line_at (replicate 100000 CHR ''\<newline>'' @ example_trace) 100060 = []"
proof -
  have "length example_trace = 60" by (simp add: example_trace_def)
  then show ?thesis
    using line_at_append_right [of "replicate 100000 CHR ''\<newline>''" example_trace 60]
    by (simp add: line_at_def)
qed

section \<open>Properties\<close>

text \<open>
  C4. Summary Store, fresh build (spec sections 3 and 4.1): on a monotone trace of at
  least 100 kB with a non-negative first and positive last timestamp (the last lying in
  the scanned tail), a constructor without a usable sidecar and with a non-negative
  byte stride terminates, writes exactly its state, and that state is a sound summary:
  newline count, first and last timestamp, the built index, the metadata and the size.
\<close>

theorem fresh_build_sound:
  assumes mono: "monotone_trace loads f"
    and first: "timed_records loads f = (p0, t0) # rest" and last: "timed_records loads f = pre @ [(p_last, t_last)]"
    and t0: "0 \<le> t0" and pos: "0 < t_last"
    and tail: "tail_start f (length f - 100000) \<le> p_last" and big: "100000 \<le> length f"
    and fresh: "stored = None \<or> build_new_summary" and jump: "0 \<le> jump"
  shows "timeline_init loads f stored max_lines (Some jump) secs_per_index build_new_summary
           max_extract_time live =
         Some (Inr (\<lparr>line_count = count_list f CHR ''\<newline>'', min_ts = t0, max_ts = t_last,
                      index = build_index loads jump f,
                      metadata_events = find_metadata_events loads max_lines f, file_size = length f\<rparr>,
                    Some \<lparr>line_count = count_list f CHR ''\<newline>'', min_ts = t0, max_ts = t_last,
                      index = build_index loads jump f,
                      metadata_events = find_metadata_events loads max_lines f, file_size = length f\<rparr>)) \<and>
         summary_sound loads f
           \<lparr>line_count = count_list f CHR ''\<newline>'', min_ts = t0, max_ts = t_last,
            index = build_index loads jump f,
            metadata_events = find_metadata_events loads max_lines f, file_size = length f\<rparr>"
  using fresh_build_value [OF assms, of "Some jump" secs_per_index] by (simp add: index_stride_def)

theorem fresh_build_sound_witness:
  "monotone_trace example_loads (replicate 100000 CHR ''\<newline>'' @ example_trace) \<and>
   timed_records example_loads (replicate 100000 CHR ''\<newline>'' @ example_trace) =
     (100014, 10) # [(100025, 20), (100036, 30), (100047, 40)] \<and>
   timed_records example_loads (replicate 100000 CHR ''\<newline>'' @ example_trace) =
     [(100014, 10), (100025, 20), (100036, 30)] @ [(100047, 40)] \<and>
   tail_start (replicate 100000 CHR ''\<newline>'' @ example_trace)
     (length (replicate 100000 CHR ''\<newline>'' @ example_trace) - 100000) \<le> 100047 \<and>
   100000 \<le> length (replicate 100000 CHR ''\<newline>'' @ example_trace) \<and>
   build_index example_loads 100014 (replicate 100000 CHR ''\<newline>'' @ example_trace) = [(20, 100036)] \<and>
   timeline_init example_loads (replicate 100000 CHR ''\<newline>'' @ example_trace) None 5000000
     (Some 100014) (Some 1) False None False =
   Some (Inr (\<lparr>line_count = 100007, min_ts = 10, max_ts = 40, index = [(20, 100036)],
                metadata_events = find_metadata_events example_loads 5000000
                                    (replicate 100000 CHR ''\<newline>'' @ example_trace),
                file_size = 100060\<rparr>,
              Some \<lparr>line_count = 100007, min_ts = 10, max_ts = 40, index = [(20, 100036)],
                metadata_events = find_metadata_events example_loads 5000000
                                    (replicate 100000 CHR ''\<newline>'' @ example_trace),
                file_size = 100060\<rparr>)) \<and>
   summary_sound example_loads (replicate 100000 CHR ''\<newline>'' @ example_trace)
     \<lparr>line_count = 100007, min_ts = 10, max_ts = 40, index = [(20, 100036)],
      metadata_events = find_metadata_events example_loads 5000000
                          (replicate 100000 CHR ''\<newline>'' @ example_trace),
      file_size = 100060\<rparr>"
proof -
  let ?F = "replicate 100000 CHR ''\<newline>'' @ example_trace"
  have tF: "timed_records example_loads ?F = [(100014, 10), (100025, 20), (100036, 30), (100047, 40)]"
    and lenF: "length ?F = 100060" and h6: "tail_start ?F (length ?F - 100000) \<le> 100047"
    and cnt: "count_list ?F CHR ''\<newline>'' = 100007"
    by (rule padded_example_trace)+
  have h1: "monotone_trace example_loads ?F" using tF by (simp add: monotone_trace_def)
  have h2: "timed_records example_loads ?F = (100014, 10) # [(100025, 20), (100036, 30), (100047, 40)]"
    using tF by simp
  have h3: "timed_records example_loads ?F = [(100014, 10), (100025, 20), (100036, 30)] @ [(100047, 40)]"
    using tF by simp
  have h7: "100000 \<le> length ?F" using lenF by simp
  have la: "line_at ?F (100000 + k) = line_at example_trace k" for k
    using line_at_append_right [of "replicate 100000 CHR ''\<newline>''" example_trace k] by simp
  have l14: \<open>line_at ?F 100014 = ''{"ts":10},\<newline>''\<close>
    using la [of 14] by (simp add: line_at_def example_trace_def)
  have l25: \<open>line_at ?F 100025 = ''{"ts":20},\<newline>''\<close>
    using la [of 25] by (simp add: line_at_def example_trace_def)
  have l60: "line_at ?F 100060 = []" using padded_example_eof .
  have r1: "hpos (snd (fh_read 100014 \<lparr>hcontent = ?F, hpos = 0\<rparr>)) = 100014"
    using lenF by (simp add: fh_read_def rest_of_def Let_def)
  have r2: "hpos (snd (fh_read 100014 \<lparr>hcontent = ?F, hpos = 100036\<rparr>)) = 100060"
    using lenF by (simp add: fh_read_def rest_of_def Let_def)
  have "line_samples 100014 \<lparr>hcontent = ?F, hpos = 100036\<rparr> = []"
    using r2 l60 by (subst line_samples_step) (simp add: Let_def)
  then have samples: \<open>line_samples 100014 \<lparr>hcontent = ?F, hpos = 0\<rparr> = [(''{"ts":20},\<newline>'', 100036)]\<close>
    using r1 l14 l25 by (subst line_samples_step) (simp add: Let_def)
  have e20: \<open>extract_ts_from_line example_loads ''{"ts":20},\<newline>'' = Some 20\<close> by code_simp
  have h8: "build_index example_loads 100014 ?F = [(20, 100036)]"
    using samples e20 by (simp add: build_index_def fh_open_def)
  have fresh: "(None :: summary option) = None \<or> False" by simp
  have j: "0 \<le> (100014::int)" by simp
  show ?thesis
    using fresh_build_sound [OF h1 h2 h3 _ _ h6 h7 fresh j, of 5000000 "Some 1" None False]
      h1 h2 h3 h6 h7 h8 cnt lenF by simp
qed

text \<open>
  C7. Growth of an append-only trace (spec section 3): when a trace ending in a newline
  grows by complete lines whose timestamps are at least every timestamp of the old
  trace, the index built for the old trace stays sound for the grown file; keeping an
  old index for a grown file is safe.
\<close>

theorem built_index_survives_append:
  assumes mono: "monotone_trace loads a" and e: "ends_line a"
    and later: "list_all (\<lambda>(p, t). list_all (\<lambda>(q, t'). t' \<le> t) (timed_records loads a)) (timed_records loads b)"
  shows "list_all (entry_sound loads (a @ b)) (build_index loads jump a)"
proof (rule entries_survive_append [OF e build_index_entries_sound [OF mono]])
  show "list_all (\<lambda>(p, t). list_all (\<lambda>e. fst e \<le> t) (build_index loads jump a)) (timed_records loads b)"
    using later build_index_timed [of _ loads jump a] by (fastforce simp: list_all_iff)
qed

theorem built_index_survives_append_witness:
  \<open>monotone_trace example_loads example_trace \<and> ends_line example_trace \<and>
   list_all (\<lambda>(p, t). list_all (\<lambda>(q, t'). t' \<le> t) (timed_records example_loads example_trace))
     (timed_records example_loads ''{"ts":40},\<newline>'') \<and>
   build_index example_loads 10 example_trace = [(10, 25), (30, 47)] \<and>
   list_all (entry_sound example_loads (example_trace @ ''{"ts":40},\<newline>'')) [(10, 25), (30, 47)]\<close>
proof -
  have h1: "monotone_trace example_loads example_trace" by code_simp
  have h2: "ends_line example_trace" by (simp add: ends_line_def example_trace_def)
  have h3: \<open>list_all (\<lambda>(p, t). list_all (\<lambda>(q, t'). t' \<le> t) (timed_records example_loads example_trace))
              (timed_records example_loads ''{"ts":40},\<newline>'')\<close> by code_simp
  have h4: "build_index example_loads 10 example_trace = [(10, 25), (30, 47)]" by code_simp
  show ?thesis using built_index_survives_append [OF h1 h2 h3, of 10] h1 h2 h3 h4 by simp
qed

text \<open>
  C8. Reopening a trace whose size matches the sidecar loads the sidecar as the state,
  rescans nothing and writes nothing, whatever the other options.
\<close>

theorem reopen_unchanged:
  "file_size s = length f \<Longrightarrow>
   timeline_init loads f (Some s) max_lines bytes_per_index secs_per_index False max_extract_time live =
   Some (Inr (s, None))"
  by (simp add: timeline_init_def loaded_unchanged flags_unchanged)

theorem reopen_unchanged_witness:
  "file_size \<lparr>line_count = 7, min_ts = 10, max_ts = 40, index = [(20, 36), (40, 58)], metadata_events = [], file_size = 60\<rparr> = length example_trace \<and>
   timeline_init example_loads example_trace (Some \<lparr>line_count = 7, min_ts = 10, max_ts = 40, index = [(20, 36), (40, 58)], metadata_events = [], file_size = 60\<rparr>) 5000000 None (Some 1) False None False =
   Some (Inr (\<lparr>line_count = 7, min_ts = 10, max_ts = 40, index = [(20, 36), (40, 58)], metadata_events = [], file_size = 60\<rparr>, None))"
proof -
  have h: "file_size \<lparr>line_count = 7, min_ts = 10, max_ts = 40, index = [(20, 36), (40, 58)], metadata_events = [], file_size = 60\<rparr> = length example_trace" by (simp add: example_trace_def)
  show ?thesis using reopen_unchanged [OF h] h by simp
qed

text \<open>
  C9. Every successful construction leaves the object's recorded size equal to the file's
  and writes either nothing or exactly the object's state.
\<close>

theorem init_state_invariant:
  assumes "timeline_init loads f stored max_lines bytes_per_index secs_per_index build_new_summary
             max_extract_time live = Some (Inr (s, w))"
  shows "file_size s = length f \<and> (w = None \<or> w = Some s)"
proof -
  have "file_size (loaded_state stored build_new_summary (length f)) = length f"
    by (simp add: loaded_state_def split: option.split)
  then show ?thesis
    using assms
    by (auto simp: timeline_init_def Let_def map_sum_Inr_iff split: prod.splits option.splits sum.splits if_splits)
qed

theorem init_state_invariant_witness:
  "timeline_init example_loads example_trace (Some \<lparr>line_count = 7, min_ts = 10, max_ts = 40, index = [(20, 36), (40, 58)], metadata_events = [], file_size = 60\<rparr>) 5000000 None (Some 1) False None False =
     Some (Inr (\<lparr>line_count = 7, min_ts = 10, max_ts = 40, index = [(20, 36), (40, 58)], metadata_events = [], file_size = 60\<rparr>, None)) \<and>
   file_size \<lparr>line_count = 7, min_ts = 10, max_ts = 40, index = [(20, 36), (40, 58)], metadata_events = [], file_size = 60\<rparr> = length example_trace"
proof -
  have h0: "file_size \<lparr>line_count = 7, min_ts = 10, max_ts = 40, index = [(20, 36), (40, 58)], metadata_events = [], file_size = 60\<rparr> = length example_trace" by (simp add: example_trace_def)
  have h: "timeline_init example_loads example_trace (Some \<lparr>line_count = 7, min_ts = 10, max_ts = 40, index = [(20, 36), (40, 58)], metadata_events = [], file_size = 60\<rparr>) 5000000 None (Some 1) False None False =
           Some (Inr (\<lparr>line_count = 7, min_ts = 10, max_ts = 40, index = [(20, 36), (40, 58)], metadata_events = [], file_size = 60\<rparr>, None))"
    using h0 by (simp add: timeline_init_def loaded_unchanged flags_unchanged)
  show ?thesis using init_state_invariant [OF h] h by simp
qed

text \<open>
  C20. Staleness test (lines 180--184): for a grown file without \<^verbatim>\<open>live\<close>, the rebuild is
  decided by comparing \<^verbatim>\<open>max_extract_time * 10^6\<close>, a time relative to the trace start,
  with the absolute \<^verbatim>\<open>max_ts\<close>: when the relative time is at most \<^verbatim>\<open>max_ts\<close>, nothing is
  rebuilt, even where the requested end \<^verbatim>\<open>min_ts + max_extract_time * 10^6\<close> is past the
  indexed range.
\<close>

theorem stale_extract_not_rebuilt:
  assumes "length f \<noteq> file_size s" and "\<not> live" and "t * 1000000 \<le> max_ts s"
  shows "timeline_init loads f (Some s) max_lines bytes_per_index secs_per_index False (Some t) live =
         Some (Inr (s\<lparr>file_size := length f\<rparr>, None))"
  using assms by (simp add: timeline_init_def loaded_state_def rebuild_flags_def)

theorem stale_extract_not_rebuilt_witness:
  "length example_trace \<noteq> 50 \<and> \<not> False \<and> 3 / 2 * 1000000 \<le> (2000000::real) \<and>
   1000000 + 3 / 2 * 1000000 > (2000000::real) \<and>
   timeline_init example_loads example_trace
     (Some \<lparr>line_count = 7, min_ts = 1000000, max_ts = 2000000, index = [], metadata_events = [], file_size = 50\<rparr>)
     5000000 None (Some 1) False (Some (3 / 2)) False =
   Some (Inr (\<lparr>line_count = 7, min_ts = 1000000, max_ts = 2000000, index = [], metadata_events = [],
               file_size = 60\<rparr>, None))"
proof -
  let ?s = "\<lparr>line_count = 7, min_ts = 1000000, max_ts = 2000000::real, index = [], metadata_events = [], file_size = 50\<rparr>"
  have len: "length example_trace = 60" by (simp add: example_trace_def)
  have h1: "length example_trace \<noteq> file_size ?s" using len by simp
  have h2: "\<not> False" by simp
  have h3: "3 / 2 * 1000000 \<le> max_ts ?s" by simp
  show ?thesis using stale_extract_not_rebuilt [OF h1 h2 h3] len by simp
qed

text \<open>
  A fresh construction on a trace under 100 kB that has a timestamp fails with the
  \<^verbatim>\<open>ValueError\<close> of the scanner's negative seek.
\<close>

theorem fresh_small_file_fails:
  assumes first: "timed_records loads f = (p, t) # rest" and small: "length f < 100000"
    and fresh: "stored = None \<or> build_new_summary"
  shows "timeline_init loads f stored max_lines bytes_per_index secs_per_index build_new_summary
           max_extract_time live = Some (Inl (NegativeSeek (int (length f) - 100000)))"
proof -
  have "summarize loads (length f) f = Some (Inl (NegativeSeek (int (length f) - 100000)))"
    using find_min_ts_first [OF first] small
    by (simp add: summarize_def seek_handle fh_seek_def split: prod.split)
  then show ?thesis using flags_fresh [OF fresh] by (simp add: timeline_init_def)
qed

theorem fresh_small_file_fails_witness:
  "timed_records example_loads example_trace = (14, 10) # [(25, 20), (36, 30), (47, 40)] \<and>
   length example_trace < 100000 \<and>
   timeline_init example_loads example_trace None 5000000 None (Some 1) False None False =
   Some (Inl (NegativeSeek (-99940)))"
proof -
  have h1: "timed_records example_loads example_trace = (14, 10) # [(25, 20), (36, 30), (47, 40)]"
    by code_simp
  have len: "length example_trace = 60" by (simp add: example_trace_def)
  have h2: "length example_trace < 100000" using len by simp
  have h3: "(None :: summary option) = None \<or> False" by simp
  show ?thesis using fresh_small_file_fails [OF h1 h2 h3] h1 len by simp
qed


end
