(* ===== verification/Py_Str.thy ===== *)
theory Py_Str
  imports Prelude
begin

text \<open>
  The two methods of Python's \<open>str\<close> that the repository's text processing calls, as
  executable functions: \<open>str.replace\<close> (all occurrences, left to right, the empty
  pattern included) is \<open>replace_all\<close>, and \<open>str.split\<close> with a one-character separator
  is \<open>split_on\<close> (empty fields kept, never an empty result). They model Python's
  library, not code of the repository; the lemmas are the facts the configuration and
  log parsers use: replacement inside whitespace padding, the number of fields, and the
  fields around a single separator. \<open>str.startswith\<close> and \<open>str.endswith\<close> are
  \<open>startswith\<close> and \<open>endswith\<close>; \<open>str()\<close> of an integer is \<open>int_str\<close> and \<open>int()\<close> of a
  decimal string \<open>py_int_parse\<close>, with the round trip \<open>py_int_parse_int_str\<close>.
\<close>

function replace_all :: "string \<Rightarrow> string \<Rightarrow> string \<Rightarrow> string" where
  "replace_all old new s =
     (if old = [] then new @ concat (map (\<lambda>c. [c] @ new) s)
      else if take (length old) s = old then new @ replace_all old new (drop (length old) s)
      else (case s of [] \<Rightarrow> [] | c # cs \<Rightarrow> c # replace_all old new cs))"
  by pat_completeness auto
termination
proof (relation "measure (\<lambda>(old, new, s). length s)")
  fix old new :: string and s :: string
  assume ne: "old \<noteq> []" and pre: "take (length old) s = old"
  then have "s \<noteq> []" by auto
  then show "((old, new, drop (length old) s), old, new, s) \<in> measure (\<lambda>(old, new, s). length s)"
    using ne by simp
qed auto

declare replace_all.simps [simp del]

fun split_on :: "char \<Rightarrow> string \<Rightarrow> string list" where
  "split_on sep [] = [[]]"
| "split_on sep (c # cs) =
     (if c = sep then [] # split_on sep cs
      else (case split_on sep cs of w # ws \<Rightarrow> (c # w) # ws | [] \<Rightarrow> [[c]]))"

definition startswith :: "string \<Rightarrow> string \<Rightarrow> bool" where
  "startswith s p \<longleftrightarrow> take (length p) s = p"

definition endswith :: "string \<Rightarrow> string \<Rightarrow> bool" where
  "endswith s x \<longleftrightarrow> length x \<le> length s \<and> drop (length s - length x) s = x"

text \<open>Python's \<open>str()\<close> of an integer and \<open>int()\<close> of a decimal string.\<close>

definition is_digit :: "char \<Rightarrow> bool" where
  "is_digit c \<longleftrightarrow> 48 \<le> (of_char c :: nat) \<and> (of_char c :: nat) \<le> 57"

text \<open>Digits with single underscores between them, as \<open>int()\<close> accepts in base 10.\<close>

fun valid_digits :: "string \<Rightarrow> bool" where
  "valid_digits [] = False"
| "valid_digits [c] = is_digit c"
| "valid_digits (c # d # cs) = (is_digit c \<and> (if d = CHR ''_'' then valid_digits cs else valid_digits (d # cs)))"

definition digits_value :: "string \<Rightarrow> int" where
  "digits_value s = foldl (\<lambda>n c. 10 * n + (int (of_char c) - 48)) 0 (filter (\<lambda>c. c \<noteq> CHR ''_'') s)"

definition py_int_parse :: "string \<Rightarrow> int option" where
  "py_int_parse x =
     (case strip x of
        c # ds \<Rightarrow>
          if c = CHR ''-'' then (if valid_digits ds then Some (- digits_value ds) else None)
          else if c = CHR ''+'' then (if valid_digits ds then Some (digits_value ds) else None)
          else if valid_digits (c # ds) then Some (digits_value (c # ds)) else None
      | [] \<Rightarrow> None)"

fun nat_str :: "nat \<Rightarrow> string" where
  "nat_str n = (if n < 10 then [char_of (48 + n)] else nat_str (n div 10) @ [char_of (48 + n mod 10)])"

definition int_str :: "int \<Rightarrow> string" where
  "int_str i = (if i < 0 then CHR ''-'' # nat_str (nat (- i)) else nat_str (nat i))"

declare nat_str.simps [simp del]

lemma replace_all_Nil [simp]: "old \<noteq> [] \<Longrightarrow> replace_all old new [] = []"
  by (subst replace_all.simps) simp

lemma replace_all_match:
  "old \<noteq> [] \<Longrightarrow> replace_all old new (old @ t) = new @ replace_all old new t"
  by (subst replace_all.simps) simp

lemma replace_all_nomatch:
  "old \<noteq> [] \<Longrightarrow> hd old \<noteq> c \<Longrightarrow> replace_all old new (c # t) = c # replace_all old new t"
  by (subst replace_all.simps) (cases old, auto)

lemma replace_all_spaces:
  assumes "old \<noteq> []" and "\<not> is_space (hd old)" and "\<forall>c\<in>set ws. is_space c"
  shows "replace_all old new (ws @ t) = ws @ replace_all old new t"
  using assms(3)
proof (induction ws)
  case Nil
  then show ?case by simp
next
  case (Cons c ws)
  then have "hd old \<noteq> c" using assms(2) by auto
  then show ?case using Cons assms(1) by (simp add: replace_all_nomatch)
qed

lemma strip_padded:
  assumes "\<forall>c\<in>set ws1. is_space c" and "\<forall>c\<in>set ws2. is_space c"
    and "w \<noteq> []" and "\<not> is_space (hd w)" and "\<not> is_space (last w)"
  shows "strip (ws1 @ w @ ws2) = w"
proof -
  obtain v c where w: "w = v @ [c]" using assms(3) by (metis append_butlast_last_id)
  have "strip ((ws1 @ v) @ c # ws2) = lstrip (ws1 @ v) @ [c]"
    using assms(2,5) w by (intro strip_nonspace_ends) simp_all
  moreover have "lstrip (ws1 @ v) = v"
  proof (cases v)
    case Nil
    then show ?thesis using assms(1) by (simp add: lstrip_def)
  next
    case (Cons d ds)
    then have "\<not> is_space d" using assms(4) w by simp
    then show ?thesis using assms(1) Cons by (simp add: lstrip_def dropWhile_append2)
  qed
  ultimately show ?thesis using w by simp
qed

lemma split_on_no_sep: "sep \<notin> set w \<Longrightarrow> split_on sep (w @ sep # v) = w # split_on sep v"
  by (induction w) auto

lemma split_on_single: "sep \<notin> set w \<Longrightarrow> split_on sep w = [w]"
  by (induction w) auto

lemma replace_keeps_padding:
  assumes "old \<noteq> []" and "\<not> is_space (hd old)"
    and "\<forall>c\<in>set ws1. is_space c" and "\<forall>c\<in>set ws2. is_space c"
  shows "replace_all old new (ws1 @ old @ ws2) = ws1 @ new @ ws2"
  using replace_all_spaces [OF assms(1,2,3), of new "old @ ws2"]
    replace_all_spaces [OF assms(1,2,4), of new "[]"] replace_all_match [OF assms(1), of new ws2] assms(1)
  by simp

lemma split_on_nonempty: "split_on sep s \<noteq> []"
  by (induction s) (auto split: list.split)

lemma length_split_on: "length (split_on sep s) = Suc (count_list s sep)"
  by (induction s) (auto split: list.split simp: split_on_nonempty)

lemma split_on_one_sep:
  "count_list s sep = 1 \<Longrightarrow>
   split_on sep s = [takeWhile (\<lambda>x. x \<noteq> sep) s, drop (Suc (length (takeWhile (\<lambda>x. x \<noteq> sep) s))) s]"
proof (induction s)
  case Nil
  then show ?case by simp
next
  case (Cons c cs)
  show ?case
  proof (cases "c = sep")
    case True
    then have "sep \<notin> set cs" using Cons.prems by (simp add: count_list_0_iff)
    then show ?thesis using True by (simp add: split_on_single)
  next
    case False
    then show ?thesis using Cons by simp
  qed
qed

lemma replace_all_skip:
  "old \<noteq> [] \<Longrightarrow> hd old \<notin> set xs \<Longrightarrow> replace_all old new (xs @ ys) = xs @ replace_all old new ys"
  by (induction xs) (auto simp: replace_all_nomatch)

lemma strip_no_space_ends: "s \<noteq> [] \<Longrightarrow> \<not> is_space (hd s) \<Longrightarrow> \<not> is_space (last s) \<Longrightarrow> strip s = s"
  using strip_padded [of "[]" "[]" s] by simp

lemma digit_char: "d < 10 \<Longrightarrow> is_digit (char_of (48 + d)) \<and> (of_char (char_of (48 + d) :: char) :: nat) = 48 + d"
  by (simp add: is_digit_def of_char_of)

lemma digit_not_underscore: "is_digit c \<Longrightarrow> c \<noteq> CHR ''_''"
  by (auto simp: is_digit_def)

lemma nat_str_small: "n < 10 \<Longrightarrow> nat_str n = [char_of (48 + n)]"
  by (simp add: nat_str.simps)

lemma nat_str_big: "\<not> n < 10 \<Longrightarrow> nat_str n = nat_str (n div 10) @ [char_of (48 + n mod 10)]"
  by (subst nat_str.simps) simp

lemma nat_str_digits: "nat_str n \<noteq> [] \<and> list_all is_digit (nat_str n)"
proof (induction n rule: nat_str.induct)
  case (1 n)
  then show ?case by (cases "n < 10") (simp_all add: nat_str_small nat_str_big digit_char)
qed

lemma valid_digits_plain: "s \<noteq> [] \<Longrightarrow> list_all is_digit s \<Longrightarrow> valid_digits s"
proof (induction s rule: valid_digits.induct)
  case (3 c d cs)
  have "d \<noteq> CHR ''_''" using "3.prems" by (auto simp: is_digit_def)
  then show ?case using 3 by simp
qed simp_all

lemma digits_value_snoc:
  "c \<noteq> CHR ''_'' \<Longrightarrow> digits_value (s @ [c]) = 10 * digits_value s + (int (of_char c) - 48)"
  by (simp add: digits_value_def)

lemma digits_value_nat_str: "digits_value (nat_str n) = int n"
proof (induction n rule: nat_str.induct)
  case (1 n)
  show ?case
  proof (cases "n < 10")
    case True
    then have "char_of (48 + n) \<noteq> CHR ''_''" using digit_char [of n] digit_not_underscore by blast
    then show ?thesis using True by (simp add: nat_str_small digits_value_def digit_char)
  next
    case False
    have "char_of (48 + n mod 10) \<noteq> CHR ''_''" using digit_char [of "n mod 10"] digit_not_underscore by simp
    then have "digits_value (nat_str n) = 10 * int (n div 10) + int (n mod 10)"
      using False 1 by (simp add: nat_str_big digits_value_snoc digit_char)
    moreover have "10 * int (n div 10) + int (n mod 10) = int n" by presburger
    ultimately show ?thesis by simp
  qed
qed

lemma is_digit_not_space: "is_digit c \<Longrightarrow> \<not> is_space c"
  by (auto simp: is_digit_def is_space_def)

lemma int_str_ends: "int_str i \<noteq> [] \<and> \<not> is_space (hd (int_str i)) \<and> \<not> is_space (last (int_str i)) \<and> list_all (\<lambda>c. is_digit c \<or> c = CHR ''-'') (int_str i)"
  using nat_str_digits [of "nat (- i)"] nat_str_digits [of "nat i"]
  by (cases "nat_str (nat (- i))"; cases "nat_str (nat i)")
     (auto simp: int_str_def is_space_def list_all_iff is_digit_not_space dest!: is_digit_not_space)

lemma py_int_parse_int_str: "py_int_parse (int_str i) = Some i"
proof -
  have s: "strip (int_str i) = int_str i" using int_str_ends [of i] by (intro strip_no_space_ends) simp_all
  show ?thesis
  proof (cases "i < 0")
    case True
    then show ?thesis using s nat_str_digits [of "nat (- i)"]
      by (simp add: py_int_parse_def int_str_def valid_digits_plain digits_value_nat_str)
  next
    case False
    obtain c ds where cd: "nat_str (nat i) = c # ds" using nat_str_digits [of "nat i"] by (cases "nat_str (nat i)") auto
    have "is_digit c" using nat_str_digits [of "nat i"] cd by simp
    then have "c \<noteq> CHR ''-'' \<and> c \<noteq> CHR ''+''" by (auto simp: is_digit_def)
    then show ?thesis using False s nat_str_digits [of "nat i"] cd digits_value_nat_str [of "nat i"]
      by (simp add: py_int_parse_def int_str_def valid_digits_plain)
  qed
qed

lemma int_str_plain: "CHR '' '' \<notin> set (int_str i) \<and> CHR '':'' \<notin> set (int_str i) \<and> CHR ''\<newline>'' \<notin> set (int_str i)"
  using int_str_ends [of i] by (auto simp: list_all_iff is_digit_def)

end
