(* ===== verification/Reporting.thy ===== *)
theory Reporting
  imports Py_Str "HOL-Library.Sublist"
begin

text \<open>
  What \<^verbatim>\<open>src/htimeline/extract.py\<close> reports besides the extracted slice: the number
  formatting helpers (\<^verbatim>\<open>humanize\<close> on integers, \<^verbatim>\<open>humanize_bytes\<close>), the
  \<^verbatim>\<open>print_*\<close> methods behind \<open>--stats\<close> (as the list of lines they print and the error
  they raise after them), \<^verbatim>\<open>examine_index\<close>, the file names the object derives from its
  path, and the fallback progress bar \<^verbatim>\<open>tqdm\<close> defined when the library is missing, as a
  state machine over the bar and the console (the global \<open>spinner\<close> cycle and the text
  written to standard output). Python's \<open>"{0:,.2f}".format\<close> and \<open>"%.2f" %\<close> on floats are
  parameters \<open>fmt\<close>; \<open>time.time()\<close> is an argument of each update.
\<close>

section \<open>Number formatting\<close>

text \<open>\<open>"{:,}".format(n)\<close> for an integer: the digits of \<open>str(n)\<close> in groups of three from
  the right, separated by commas, after the sign.\<close>

fun commas_rev :: "string \<Rightarrow> string" where
  "commas_rev (a # b # c # d # rest) = a # b # c # CHR '','' # commas_rev (d # rest)"
| "commas_rev xs = xs"

definition group_digits :: "string \<Rightarrow> string" where
  "group_digits ds = rev (commas_rev (rev ds))"

definition humanize :: "int \<Rightarrow> string" where
  "humanize num =
     (if num < 0 then CHR ''-'' # group_digits (nat_str (nat (- num))) else group_digits (nat_str (nat num)))"

datatype byte_unit = Bytes | KB | MB | GB | TB | PB | Gigantic

definition byte_unit :: "int \<Rightarrow> byte_unit" where
  "byte_unit byte_count =
     (if byte_count div 1000 = 0 then Bytes
      else if byte_count div (1000 * 1000) = 0 then KB
      else if byte_count div (1000 * 1000 * 1000) = 0 then MB
      else if byte_count div (1000 * 1000 * 1000 * 1000) = 0 then GB
      else if byte_count div (1000 * 1000 * 1000 * 1000 * 1000) = 0 then TB
      else PB)"

primrec unit_divisor :: "byte_unit \<Rightarrow> real" where
  "unit_divisor Bytes = 1"
| "unit_divisor KB = 1000"
| "unit_divisor MB = 1000 * 1000"
| "unit_divisor GB = 1000 * 1000 * 1000"
| "unit_divisor TB = 1000 * 1000 * 1000 * 1000"
| "unit_divisor PB = 1000 * 1000 * 1000 * 1000 * 1000"
| "unit_divisor Gigantic = 1000 * 1000 * 1000 * 1000 * 1000"

primrec unit_name :: "byte_unit \<Rightarrow> string" where
  "unit_name Bytes = ''bytes''"
| "unit_name KB = ''KB''"
| "unit_name MB = ''MB''"
| "unit_name GB = ''GB''"
| "unit_name TB = ''TB''"
| "unit_name PB = ''PB''"
| "unit_name Gigantic = ''PB''"

definition humanize_bytes :: "(real \<Rightarrow> string) \<Rightarrow> int \<Rightarrow> string" where
  "humanize_bytes fmt byte_count =
     (case byte_unit byte_count of
        Bytes \<Rightarrow> humanize byte_count @ '' bytes''
      | u \<Rightarrow> fmt (real_of_int byte_count / unit_divisor u) @ '' '' @ unit_name u)"

section \<open>The statistics of \<open>--stats\<close>\<close>

text \<open>\<^verbatim>\<open>print_file_size\<close> uses the same thresholds as \<^verbatim>\<open>humanize_bytes\<close> but prints no
  petabyte figure.\<close>

definition file_size_unit :: "int \<Rightarrow> byte_unit" where
  "file_size_unit n =
     (if n div 1000 = 0 then Bytes
      else if n div (1000 * 1000) = 0 then KB
      else if n div (1000 * 1000 * 1000) = 0 then MB
      else if n div (1000 * 1000 * 1000 * 1000) = 0 then GB
      else if n div (1000 * 1000 * 1000 * 1000 * 1000) = 0 then TB
      else Gigantic)"

definition file_size_line :: "(real \<Rightarrow> string) \<Rightarrow> nat \<Rightarrow> string" where
  "file_size_line fmt file_size_bytes =
     (case file_size_unit (int file_size_bytes) of
        Bytes \<Rightarrow> ''File size: '' @ humanize (int file_size_bytes) @ '' bytes''
      | Gigantic \<Rightarrow> ''File size: GIGANTIC (PBs or larger)''
      | u \<Rightarrow> ''File size: '' @ fmt (real file_size_bytes / unit_divisor u) @ '' '' @ unit_name u)"

definition duration_secs :: "summary \<Rightarrow> real" where
  "duration_secs s = (max_ts s - min_ts s) / 1000000"

definition duration_line :: "(real \<Rightarrow> string) \<Rightarrow> real \<Rightarrow> string" where
  "duration_line fmt d =
     (if d > 120 then ''Timeline Duration: '' @ fmt (d / 60) @ '' mins''
      else ''Timeline Duration: '' @ fmt d @ '' secs'')"

text \<open>The gaps \<^verbatim>\<open>print_index_stats\<close> averages: \<open>if last_ts:\<close> skips the gap after an
  entry whose timestamp is 0 as well as before the first entry.\<close>

fun index_diffs :: "tstamp option \<Rightarrow> time_index \<Rightarrow> real list" where
  "index_diffs last_ts [] = []"
| "index_diffs last_ts ((ts, byte_ptr) # rest) =
     (case last_ts of Some l \<Rightarrow> if l \<noteq> 0 then [ts - l] else [] | None \<Rightarrow> []) @ index_diffs (Some ts) rest"

definition index_stats :: "time_index \<Rightarrow> pyerr + nat \<times> real" where
  "index_stats idx =
     (let diffs = index_diffs None idx
      in if diffs = [] then Inl ZeroDivision
         else Inr (length idx, sum_list diffs / real (length diffs)))"

definition print_index_stats :: "(real \<Rightarrow> string) \<Rightarrow> time_index \<Rightarrow> string list \<times> pyerr option" where
  "print_index_stats fmt idx =
     (case index_stats idx of
        Inl err \<Rightarrow> ([], Some err)
      | Inr (n, average_diff) \<Rightarrow>
          ([humanize (int n) @ '' indices built'',
            ''Average time between indices is '' @ fmt (average_diff / 1000000) @ ''s''], None))"

definition print_stats :: "(real \<Rightarrow> string) \<Rightarrow> summary \<Rightarrow> string list \<times> pyerr option" where
  "print_stats fmt s =
     (case print_index_stats fmt (index s) of
        (lines, err) \<Rightarrow>
          ([file_size_line fmt (file_size s), duration_line fmt (duration_secs s),
            humanize (int (line_count s)) @ '' lines in timeline file''] @ lines, err))"

section \<open>Index inspection and file names\<close>

text \<open>Python list indexing: a negative index counts from the end.\<close>

definition py_list_index :: "'a list \<Rightarrow> int \<Rightarrow> pyerr + 'a" where
  "py_list_index xs i =
     (if 0 \<le> i \<and> i < int (length xs) then Inr (xs ! nat i)
      else if i < 0 \<and> - int (length xs) \<le> i then Inr (xs ! nat (int (length xs) + i))
      else Inl (ListIndexError i))"

fun examine_range :: "time_index \<Rightarrow> int \<Rightarrow> nat \<Rightarrow> pyerr + time_index" where
  "examine_range idx i 0 = Inr []"
| "examine_range idx i (Suc k) =
     (case py_list_index idx i of
        Inl err \<Rightarrow> Inl err
      | Inr e \<Rightarrow> map_sum id (Cons e) (examine_range idx (i + 1) k))"

definition examine_index :: "summary \<Rightarrow> int \<Rightarrow> int \<Rightarrow> pyerr + time_index" where
  "examine_index s min_ind max_ind = examine_range (index s) min_ind (nat (max_ind + 1 - min_ind))"

definition base_path :: "string \<Rightarrow> string" where
  "base_path path = (if endswith path ''.json'' then replace_all ''.json'' [] path else path)"

definition summary_json_path :: "string \<Rightarrow> string" where
  "summary_json_path path = base_path path @ ''.sum.json''"

definition extract_file_path :: "(real \<Rightarrow> string) \<Rightarrow> string \<Rightarrow> real \<Rightarrow> real \<Rightarrow> string" where
  "extract_file_path py_str path start_secs extract_duration_secs =
     base_path path @ ''-extract-'' @ py_str start_secs @ ''s-to-'' @
     py_str (start_secs + extract_duration_secs) @ ''s.json''"

section \<open>The fallback progress bar\<close>

record pbar =
  bar_total :: real
  bar_at :: real
  bar_last_time :: real
  bar_closed :: bool

text \<open>Standard output and the module-level \<open>spinner = itertools.cycle(...)\<close>: the number
  of characters taken from the cycle so far, and the chunks written, in order.\<close>

record console =
  spin :: nat
  out :: "string list"

definition spinner_char :: "nat \<Rightarrow> char" where
  "spinner_char k = [CHR 0x5C, CHR ''|'', CHR ''/'', CHR ''-''] ! (k mod 4)"

definition stdout_write :: "string \<Rightarrow> console \<Rightarrow> console" where
  "stdout_write str c = c\<lparr>out := out c @ [str]\<rparr>"

definition pbar_init :: "real \<Rightarrow> real \<Rightarrow> pbar" where
  "pbar_init tot now = \<lparr>bar_total = tot, bar_at = 0, bar_last_time = now, bar_closed = False\<rparr>"

definition update_spinner :: "(real \<Rightarrow> string) \<Rightarrow> real \<Rightarrow> console \<Rightarrow> console" where
  "update_spinner fmt percent c =
     (let percent_2dec = fmt (percent * 100)
      in if percent \<noteq> 1
         then (let c1 = stdout_write (spinner_char (spin c) # CHR '' '' # percent_2dec @ ''%'') (c\<lparr>spin := Suc (spin c)\<rparr>);
                   backspaces = [CHR 0x08, CHR 0x08] @ replicate (length percent_2dec) (CHR 0x08) @ [CHR 0x08]
               in stdout_write backspaces c1)
         else stdout_write (percent_2dec @ ''% '') c)"

definition pbar_update ::
  "(real \<Rightarrow> string) \<Rightarrow> real \<Rightarrow> real \<Rightarrow> pbar \<times> console \<Rightarrow> pyerr + pbar \<times> console" where
  "pbar_update fmt step now bc =
     (case bc of
        (b, c) \<Rightarrow>
          (let b1 = b\<lparr>bar_at := bar_at b + step\<rparr>
           in if bar_total b1 = 0 then Inl ZeroDivision
              else (let percent = bar_at b1 / bar_total b1;
                        elapsed_seconds = now - bar_last_time b1
                    in if elapsed_seconds < 5 / 100 then Inr (b1, c)
                       else Inr (b1\<lparr>bar_last_time := now\<rparr>, update_spinner fmt percent c))))"

definition pbar_close :: "(real \<Rightarrow> string) \<Rightarrow> pbar \<times> console \<Rightarrow> pbar \<times> console" where
  "pbar_close fmt bc =
     (case bc of
        (b, c) \<Rightarrow>
          if \<not> bar_closed b
          then (let c1 = (if bar_at b \<noteq> 1 then update_spinner fmt 1 c else c)
                in (b\<lparr>bar_closed := True\<rparr>, stdout_write ''\<newline>'' c1))
          else (b, c))"

text \<open>The operations a \<open>with tqdm(...) as pbar:\<close> block performs, as a transition relation:
  an update bar_at a time, or the close on leaving the block.\<close>

inductive pbar_step :: "(real \<Rightarrow> string) \<Rightarrow> pbar \<times> console \<Rightarrow> pbar \<times> console \<Rightarrow> bool" where
  update: "pbar_update fmt step now bc = Inr bc' \<Longrightarrow> pbar_step fmt bc bc'"
| close: "pbar_step fmt bc (pbar_close fmt bc)"

section \<open>Lemmas\<close>

lemma filter_commas_rev: "CHR '','' \<notin> set xs \<Longrightarrow> filter (\<lambda>c. c \<noteq> CHR '','') (commas_rev xs) = xs"
  by (induction xs rule: commas_rev.induct) auto

lemma nat_str_no_comma: "CHR '','' \<notin> set (nat_str n)"
  using nat_str_digits [of n] by (auto simp: list_all_iff is_digit_def)

lemma humanize_digits: "filter (\<lambda>c. c \<noteq> CHR '','') (humanize n) = int_str n"
  using nat_str_no_comma [of "nat (- n)"] nat_str_no_comma [of "nat n"]
  by (simp add: humanize_def group_digits_def int_str_def rev_filter [symmetric] filter_commas_rev)

lemma div_zero_iff_less: "0 \<le> n \<Longrightarrow> 0 < (d::int) \<Longrightarrow> n div d = 0 \<longleftrightarrow> n < d"
  using pos_imp_zdiv_pos_iff [of d n] pos_imp_zdiv_nonneg_iff [of d n] by linarith

lemma index_diffs_telescope:
  "l \<noteq> 0 \<Longrightarrow> list_all (\<lambda>(t, _). t \<noteq> 0) xs \<Longrightarrow> xs \<noteq> [] \<Longrightarrow>
   sum_list (index_diffs (Some l) xs) = fst (last xs) - l \<and> length (index_diffs (Some l) xs) = length xs"
proof (induction xs arbitrary: l)
  case (Cons x xs)
  obtain t p where x: "x = (t, p)" by fastforce
  show ?case
  proof (cases "xs = []")
    case True
    then show ?thesis using Cons.prems x by simp
  next
    case False
    have "t \<noteq> 0" using Cons.prems x by simp
    then show ?thesis using Cons.IH [of t] Cons.prems False x by simp
  qed
qed simp

lemma index_diffs_short: "length idx < 2 \<Longrightarrow> index_diffs None idx = []"
  by (cases idx; cases "tl idx") (auto split: prod.splits)

lemma index_stats_mean:
  assumes "list_all (\<lambda>(t, _). t \<noteq> 0) idx"
  shows "index_stats idx =
           (if length idx < 2 then Inl ZeroDivision
            else Inr (length idx, (fst (last idx) - fst (hd idx)) / real (length idx - 1)))"
proof (cases "length idx < 2")
  case True
  then show ?thesis by (simp add: index_stats_def index_diffs_short)
next
  case False
  then obtain x rest where xr: "idx = x # rest" and ne: "rest \<noteq> []"
    by (cases idx; cases "tl idx") auto
  obtain t p where "x = (t, p)" by fastforce
  then have idx: "idx = (t, p) # rest" using xr by simp
  have t: "t \<noteq> 0" and r: "list_all (\<lambda>(t, _). t \<noteq> 0) rest" using assms idx by auto
  have "index_diffs None idx = index_diffs (Some t) rest" using idx by simp
  moreover have "index_diffs (Some t) rest \<noteq> []" using index_diffs_telescope [OF t r ne] ne by auto
  ultimately show ?thesis using index_diffs_telescope [OF t r ne] idx ne False
    by (simp add: index_stats_def Let_def)
qed

lemma write_extends: "prefix (out c) (out (stdout_write str c)) \<and> spin (stdout_write str c) = spin c"
  by (simp add: stdout_write_def)

lemma update_spinner_extends:
  "prefix (out c) (out (update_spinner fmt p c)) \<and> spin c \<le> spin (update_spinner fmt p c)"
proof (cases "p = 1")
  case True
  then show ?thesis using write_extends [of c] by (simp add: update_spinner_def)
next
  case False
  let ?c1 = "stdout_write (spinner_char (spin c) # CHR '' '' # fmt (p * 100) @ ''%'') (c\<lparr>spin := Suc (spin c)\<rparr>)"
  have "prefix (out c) (out ?c1)" "spin ?c1 = Suc (spin c)" by (simp_all add: stdout_write_def)
  then show ?thesis using False write_extends [of ?c1] by (auto simp: update_spinner_def Let_def intro: prefix_order.trans)
qed

lemma pbar_step_mono:
  assumes "pbar_step fmt bc bc'"
  shows "prefix (out (snd bc)) (out (snd bc')) \<and> spin (snd bc) \<le> spin (snd bc') \<and>
         bar_total (fst bc') = bar_total (fst bc) \<and> (bar_closed (fst bc) \<longrightarrow> bar_closed (fst bc'))"
  using assms
proof (cases rule: pbar_step.cases)
  case (update step now)
  obtain b c where bc: "bc = (b, c)" by fastforce
  show ?thesis
    using update bc update_spinner_extends [of c fmt "(bar_at b + step) / bar_total b"]
    by (auto simp: pbar_update_def Let_def split: if_splits)
next
  case close
  obtain b c where bc: "bc = (b, c)" by fastforce
  have "prefix (out c) (out (stdout_write ''\<newline>'' (if bar_at b \<noteq> 1 then update_spinner fmt 1 c else c))) \<and>
        spin c \<le> spin (stdout_write ''\<newline>'' (if bar_at b \<noteq> 1 then update_spinner fmt 1 c else c))"
    using update_spinner_extends [of c fmt 1] write_extends [of "if bar_at b \<noteq> 1 then update_spinner fmt 1 c else c"]
    by (auto intro: prefix_order.trans)
  then show ?thesis using close bc by (auto simp: pbar_close_def Let_def)
qed

lemma pbar_close_closed: "bar_closed b \<Longrightarrow> pbar_close fmt (b, c) = (b, c)"
  by (simp add: pbar_close_def)


text \<open>
  C38. The unit \<^verbatim>\<open>humanize_bytes\<close> chooses for a non-negative byte count leaves a figure
  in \<open>[1, 1000)\<close>: at least one unit (except for plain bytes) and below a thousand units
  (except for petabytes, the last unit).
\<close>

theorem byte_unit_bounds:
  assumes "0 \<le> n"
  shows "(byte_unit n = Bytes \<or> unit_divisor (byte_unit n) \<le> real_of_int n) \<and>
         (byte_unit n = PB \<or> real_of_int n < 1000 * unit_divisor (byte_unit n))"
proof -
  have r: "real_of_int n < of_int d \<longleftrightarrow> n < d" "of_int d \<le> real_of_int n \<longleftrightarrow> d \<le> n" for d
    by simp_all
  show ?thesis
    using assms r [of 1000] r [of 1000000] r [of 1000000000] r [of 1000000000000] r [of 1000000000000000]
      r [of 1000000000000000000]
    by (auto simp: byte_unit_def div_zero_iff_less)
qed

theorem byte_unit_bounds_witness:
  "0 \<le> (1500000::int) \<and> byte_unit 1500000 = MB \<and> unit_divisor MB \<le> real_of_int 1500000 \<and>
   real_of_int 1500000 < 1000 * unit_divisor MB"
proof -
  have u: "byte_unit 1500000 = MB" by (simp add: byte_unit_def)
  show ?thesis using byte_unit_bounds [of 1500000] u by simp
qed

text \<open>
  C25. What \<open>--stats\<close> prints (\<^verbatim>\<open>print_stats\<close>) for an index without zero timestamps:
  the file size, the duration and the line count, then, when the index has two entries
  or more, the number of entries and the mean gap between them, which is the span of
  the index divided by one less than its length; an index with fewer than two entries
  makes \<^verbatim>\<open>print_index_stats\<close> raise \<open>ZeroDivisionError\<close> after the first three lines.
\<close>

theorem stats_report:
  assumes "list_all (\<lambda>(t, _). t \<noteq> 0) (index s)"
  shows "print_stats fmt s =
           ([file_size_line fmt (file_size s), duration_line fmt (duration_secs s),
             humanize (int (line_count s)) @ '' lines in timeline file''] @
            (if length (index s) < 2 then []
             else [humanize (int (length (index s))) @ '' indices built'',
                   ''Average time between indices is '' @
                   fmt ((fst (last (index s)) - fst (hd (index s))) / real (length (index s) - 1) / 1000000) @ ''s'']),
            if length (index s) < 2 then Some ZeroDivision else None)"
  using index_stats_mean [OF assms]
  by (simp add: print_stats_def print_index_stats_def split: if_splits)

theorem stats_report_witness:
  "list_all (\<lambda>(t, _). t \<noteq> 0) [(20::real, 36::int)] \<and>
   print_stats (\<lambda>x. ''F'') \<lparr>line_count = 7, min_ts = 10, max_ts = 40, index = [(20, 36)], metadata_events = [], file_size = 60\<rparr> =
     ([''File size: 60 bytes'', ''Timeline Duration: F secs'', ''7 lines in timeline file''], Some ZeroDivision)"
proof -
  let ?s = "\<lparr>line_count = 7, min_ts = 10, max_ts = 40, index = [(20::real, 36::int)], metadata_events = [], file_size = 60\<rparr>"
  have h: "list_all (\<lambda>(t, _). t \<noteq> 0) (index ?s)" by simp
  have l: "file_size_line (\<lambda>x. ''F'') 60 = ''File size: 60 bytes''" by code_simp
  have d: "duration_line (\<lambda>x. ''F'') (duration_secs ?s) = ''Timeline Duration: F secs''"
    by (simp add: duration_line_def duration_secs_def)
  have c: "humanize (int 7) @ '' lines in timeline file'' = ''7 lines in timeline file''" by code_simp
  show ?thesis using stats_report [OF h, of "\<lambda>x. ''F''"] l d c by simp
qed



end
