(* ===== verification/Cli.thy ===== *)
theory Cli
  imports Extractor Timeline Reporting
begin

text \<open>
  The command line of \<^verbatim>\<open>src/htimeline/extract.py\<close> (its \<open>__main__\<close> block): exactly one of
  \<open>--stats\<close>, \<open>--extract\<close> and \<open>--verify_index\<close>; the object is constructed with the
  defaults of \<^verbatim>\<open>HorovodTimeline.__init__\<close> (5,000,000 metadata lines, no byte stride, one
  index entry per second, no forced rebuild), the requested end time when extracting and
  the \<open>--live\<close> flag; then the chosen mode runs on the constructed state. The trace is
  the file's content, the sidecar read from \<^verbatim>\<open><base>.sum.json\<close> the optional summary
  \<open>stored\<close>, and the result the mode's output together with the sidecar the constructor
  writes. This is where the components meet: the Summary Store builds the state, and the
  Extractor, the Validator and the statistics read it.
\<close>

datatype cli_output =
    CliExtracted string string
  | CliStats "string list"
  | CliVerified bool index_check

fun py_join :: "string \<Rightarrow> string list \<Rightarrow> string" where
  "py_join sep [] = []"
| "py_join sep [x] = x"
| "py_join sep (x # y # xs) = x @ sep @ py_join sep (y # xs)"

definition py_bool_list_str :: "bool list \<Rightarrow> string" where
  "py_bool_list_str bs =
     ''['' @ py_join '', '' (map (\<lambda>b. if b then ''True'' else ''False'') bs) @ '']''"

definition cli_mode :: "bool \<Rightarrow> bool \<Rightarrow> bool \<Rightarrow> pyerr + unit" where
  "cli_mode stats extract verify_index =
     (let modes = [stats, extract, verify_index];
          count_modes_chosen = length (filter id modes)
      in if count_modes_chosen > 1
         then Inl (ModeError (''Only one of '' @ py_bool_list_str modes @ '' may be chosen''))
         else if count_modes_chosen = 0
         then Inl (ModeError (''One of '' @ py_bool_list_str modes @ '' must be chosen''))
         else Inr ())"

definition cli_main ::
  "decoder \<Rightarrow> encoder \<Rightarrow> (real \<Rightarrow> string) \<Rightarrow> (real \<Rightarrow> string) \<Rightarrow> string \<Rightarrow> string \<Rightarrow>
   summary option \<Rightarrow> bool \<Rightarrow> bool \<Rightarrow> bool \<Rightarrow> bool \<Rightarrow> real \<Rightarrow> real \<Rightarrow>
   (pyerr + cli_output \<times> summary option) option" where
  "cli_main loads dumps py_str fmt htimeline_path f stored stats extract verify_index live
       start_time duration =
     (case cli_mode stats extract verify_index of
        Inl err \<Rightarrow> Some (Inl err)
      | Inr _ \<Rightarrow>
          (let end_time = (if extract then Some (start_time + duration) else None)
           in case timeline_init loads f stored 5000000 None (Some 1) False end_time live of
                None \<Rightarrow> None
              | Some (Inl err) \<Rightarrow> Some (Inl err)
              | Some (Inr (h, sidecar)) \<Rightarrow>
                  if extract then
                    (case extract_and_save_slice loads dumps h f start_time duration of
                       None \<Rightarrow> None
                     | Some (Inl err) \<Rightarrow> Some (Inl err)
                     | Some (Inr (text, _)) \<Rightarrow>
                         Some (Inr (CliExtracted (extract_file_path py_str htimeline_path start_time duration) text,
                                    sidecar)))
                  else if stats then
                    (case print_stats fmt h of
                       (lines, Some err) \<Rightarrow> Some (Inl err)
                     | (lines, None) \<Rightarrow> Some (Inr (CliStats lines, sidecar)))
                  else
                    (case confirm_index_is_valid h of
                       (is_valid, mes) \<Rightarrow> Some (Inr (CliVerified is_valid mes, sidecar)))))"

text \<open>The state a fresh construction builds (\<open>Timeline.fresh_build_value\<close>).\<close>

definition fresh_summary :: "decoder \<Rightarrow> nat \<Rightarrow> int \<Rightarrow> string \<Rightarrow> tstamp \<Rightarrow> tstamp \<Rightarrow> summary" where
  "fresh_summary loads max_lines jump f t0 t_last =
     \<lparr>line_count = count_list f CHR ''\<newline>'', min_ts = t0, max_ts = t_last,
      index = build_index loads jump f,
      metadata_events = find_metadata_events loads max_lines f, file_size = length f\<rparr>"

section \<open>Lemmas\<close>

lemma cli_mode_extract: "cli_mode False True False = Inr ()"
  by (simp add: cli_mode_def)

lemma secs_stride:
  assumes "t0 < t_last"
  shows "index_stride None (Some 1) ((t_last - t0) / 1000000) fsz =
           Inr (py_int (real fsz / ((t_last - t0) / 1000000)))
         \<and> 0 \<le> py_int (real fsz / ((t_last - t0) / 1000000))"
  using assms by (simp add: index_stride_def py_int_def)

lemma fresh_cli_state:
  assumes mono: "monotone_trace loads f"
    and first: "timed_records loads f = (p0, t0) # rest" and last: "timed_records loads f = pre @ [(p_last, t_last)]"
    and t0: "0 \<le> t0" and lt: "t0 < t_last"
    and tail: "tail_start f (length f - 100000) \<le> p_last" and big: "100000 \<le> length f"
  shows "timeline_init loads f None 5000000 None (Some 1) False end_time live =
           Some (Inr (fresh_summary loads 5000000 (py_int (real (length f) / ((t_last - t0) / 1000000))) f t0 t_last,
                      Some (fresh_summary loads 5000000 (py_int (real (length f) / ((t_last - t0) / 1000000))) f t0 t_last)))
         \<and> summary_sound loads f
             (fresh_summary loads 5000000 (py_int (real (length f) / ((t_last - t0) / 1000000))) f t0 t_last)"
proof -
  have pos: "0 < t_last" using t0 lt by linarith
  have fresh: "(None :: summary option) = None \<or> False" by simp
  show ?thesis
    using fresh_build_value [OF mono first last t0 pos tail big fresh _ conjunct1 [OF secs_stride [OF lt]],
        of 5000000 end_time live] conjunct2 [OF secs_stride [OF lt, of "length f"]]
    by (simp add: fresh_summary_def)
qed

lemma cli_rejects_mode_count:
  assumes "length (filter id [stats, extract, verify_index]) \<noteq> 1"
  shows "cli_main loads dumps py_str fmt path f stored stats extract verify_index live start_secs dur_secs =
           Some (Inl (ModeError
             (if 1 < length (filter id [stats, extract, verify_index])
              then ''Only one of '' @ py_bool_list_str [stats, extract, verify_index] @ '' may be chosen''
              else ''One of '' @ py_bool_list_str [stats, extract, verify_index] @ '' must be chosen'')))"
proof -
  have "cli_mode stats extract verify_index = Inl (ModeError
          (if 1 < length (filter id [stats, extract, verify_index])
           then ''Only one of '' @ py_bool_list_str [stats, extract, verify_index] @ '' may be chosen''
           else ''One of '' @ py_bool_list_str [stats, extract, verify_index] @ '' must be chosen''))"
    using assms by (cases stats; cases "extract"; cases verify_index) (simp_all add: cli_mode_def)
  then show ?thesis by (simp add: cli_main_def)
qed

lemma window_events_newlines:
  assumes "loads [] = None"
  shows "window_events loads (replicate n CHR ''\<newline>'' @ f) lo hi = window_events loads f lo hi"
proof -
  have "filter (\<lambda>(r, e). in_window lo hi e) (shift n rs) = shift n (filter (\<lambda>(r, e). in_window lo hi e) rs)"
    for rs :: "(nat \<times> event) list"
    by (induction rs) (auto simp: shift_def)
  moreover have "map snd (shift n rs) = map snd rs" for rs :: "(nat \<times> event) list"
    by (induction rs) (auto simp: shift_def)
  ultimately show ?thesis
    using records_append [OF ends_line_replicate, of loads n f] records_newlines [of loads n, OF assms]
    by (simp add: window_events_def)
qed

section \<open>Properties\<close>



end
