(* ===== verification/Telegraf.thy ===== *)
theory Telegraf
  imports Py_Str
begin

text \<open>
  The Telegraf configuration wrapper \<^verbatim>\<open>src/tig/telegraf_config.py\<close>. The file read from
  \<^verbatim>\<open>_telegraf.conf\<close> is its list of lines (\<open>f.readlines()\<close>, each line with its
  newline). Python's \<open>str.replace\<close> and \<open>str.split\<close> are \<open>replace_all\<close> and \<open>split_on\<close>
  of \<open>Py_Str\<close>. The loop of \<^verbatim>\<open>replace_param_line\<close> is \<open>replace_scan\<close>, its flag \<open>in_correct_confgroup\<close> an argument;
  the five \<^verbatim>\<open>set_*\<close> helpers and \<^verbatim>\<open>add_global_tag\<close> instantiate it with the source's
  literals, and \<^verbatim>\<open>generate_telegraf_conf\<close> composes them with the tag loop \<open>add_tags\<close>,
  whose \<open>RuntimeError\<close> and \<open>IndexError\<close> are the \<open>Inl\<close> values \<open>TagHasEquals\<close> and
  \<open>TagIndexError\<close>. The shell calls (\<open>sh\<close>), the file reading and writing and the
  argument parser are not modelled: the configuration lines are the input and the
  written lines the result.
\<close>

fun replace_scan :: "string \<Rightarrow> string \<Rightarrow> string \<Rightarrow> bool \<Rightarrow> bool \<Rightarrow> string list \<Rightarrow> string list" where
  "replace_scan confgroup existing new keep in_group [] = []"
| "replace_scan confgroup existing new keep in_group (line # lines) =
     (let l = strip line;
          in_group' = (in_group \<or> l = confgroup)
      in if in_group' \<and> l = existing
         then (if keep then [line] else []) @ [replace_all existing new line] @
              replace_scan confgroup existing new keep in_group' lines
         else line # replace_scan confgroup existing new keep in_group' lines)"

definition replace_param_line :: "string list \<Rightarrow> string \<Rightarrow> string \<Rightarrow> string \<Rightarrow> bool \<Rightarrow> string list" where
  "replace_param_line conf_lines confgroup_str existing_param_string new_param_string keep_old_param_line =
     replace_scan confgroup_str existing_param_string new_param_string keep_old_param_line False conf_lines"

definition set_agent_interval :: "string list \<Rightarrow> string \<Rightarrow> string list" where
  \<open>set_agent_interval conf_lines new_interval =
     replace_param_line conf_lines ''[agent]'' ''interval = "10s"'' (''interval = "'' @ new_interval @ ''"'') False\<close>

definition set_agent_flush_interval :: "string list \<Rightarrow> string \<Rightarrow> string list" where
  \<open>set_agent_flush_interval conf_lines new_interval =
     replace_param_line conf_lines ''[agent]'' ''flush_interval = "10s"''
       (''flush_interval = "'' @ new_interval @ ''"'') False\<close>

definition set_hostname :: "string list \<Rightarrow> string \<Rightarrow> string list" where
  \<open>set_hostname conf_lines hostname =
     replace_param_line conf_lines ''[agent]'' ''hostname = ""'' (''hostname = "'' @ hostname @ ''"'') False\<close>

definition set_influxdb_urls :: "string list \<Rightarrow> string \<Rightarrow> string list" where
  \<open>set_influxdb_urls conf_lines new_url =
     replace_param_line conf_lines ''[[outputs.influxdb]]'' ''# urls = ["http://127.0.0.1:8086"]''
       (''urls = ["'' @ new_url @ ''"]'') False\<close>

definition set_influxdb_database :: "string list \<Rightarrow> string \<Rightarrow> string list" where
  \<open>set_influxdb_database conf_lines new_database =
     replace_param_line conf_lines ''[[outputs.influxdb]]'' ''# database = "telegraf"''
       (''database = "'' @ new_database @ ''"'') False\<close>

definition add_global_tag :: "string list \<Rightarrow> string \<Rightarrow> string \<Rightarrow> string list" where
  \<open>add_global_tag conf_lines tag_name tag_val_str =
     replace_param_line conf_lines ''[global_tags]'' ''# user = "$USER"''
       (tag_name @ '' = "'' @ tag_val_str @ ''"'') True\<close>

fun add_tags :: "string list \<Rightarrow> string list \<Rightarrow> pyerr + string list" where
  "add_tags conf_lines [] = Inr conf_lines"
| "add_tags conf_lines (tag_pair # tags) =
     (let split_tag_pair = split_on CHR ''='' tag_pair
      in if length split_tag_pair > 2 then Inl (TagHasEquals tag_pair)
         else if length split_tag_pair < 2 then Inl (TagIndexError tag_pair)
         else add_tags (add_global_tag conf_lines (split_tag_pair ! 0) (split_tag_pair ! 1)) tags)"

definition generate_telegraf_conf ::
  "string list \<Rightarrow> string \<Rightarrow> string \<Rightarrow> string \<Rightarrow> string \<Rightarrow> string list \<Rightarrow> string \<Rightarrow> pyerr + string list" where
  "generate_telegraf_conf conf_lines agent_interval agent_flush_interval influx_url influx_db tags hostname =
     (let conf_lines = set_agent_interval conf_lines agent_interval;
          conf_lines = set_agent_flush_interval conf_lines agent_flush_interval;
          conf_lines = set_hostname conf_lines hostname;
          conf_lines = set_influxdb_urls conf_lines influx_url;
          conf_lines = set_influxdb_database conf_lines influx_db
      in add_tags conf_lines tags)"

definition param_step :: "string \<Rightarrow> string \<Rightarrow> bool \<Rightarrow> string \<Rightarrow> string list" where
  "param_step existing new keep line =
     (if strip line = existing then (if keep then [line] else []) @ [replace_all existing new line] else [line])"

definition tag_line :: "string \<Rightarrow> string \<Rightarrow> string" where
  \<open>tag_line tag_name tag_val = tag_name @ '' = "'' @ tag_val @ ''"''\<close>

lemma replace_scan_in_group:
  "replace_scan g e n keep True ls = concat (map (param_step e n keep) ls)"
  by (induction ls) (simp_all add: param_step_def Let_def)

lemma replace_scan_before:
  "replace_scan g e n keep False ls =
     takeWhile (\<lambda>l. strip l \<noteq> g) ls @
     concat (map (param_step e n keep) (dropWhile (\<lambda>l. strip l \<noteq> g) ls))"
proof (induction ls)
  case Nil
  then show ?case by simp
next
  case (Cons l ls)
  show ?case
  proof (cases "strip l = g")
    case True
    then show ?thesis by (simp add: Let_def replace_scan_in_group param_step_def [of e n keep l])
  next
    case False
    then show ?thesis using Cons.IH by (simp add: Let_def)
  qed
qed

lemma param_step_other:
  "\<forall>l\<in>set xs. strip l \<noteq> e \<Longrightarrow> concat (map (param_step e n keep) xs) = xs"
  by (induction xs) (simp_all add: param_step_def)

lemma replace_param_line_at:
  assumes pre: "\<forall>l\<in>set pre. strip l \<noteq> g" and hdr: "strip hdr = g"
    and ws1: "\<forall>c\<in>set ws1. is_space c" and ws2: "\<forall>c\<in>set ws2. is_space c"
    and e: "e \<noteq> []" "\<not> is_space (hd e)" "\<not> is_space (last e)"
    and others: "\<forall>l\<in>set (hdr # mid @ rest). strip l \<noteq> e"
  shows "replace_param_line (pre @ [hdr] @ mid @ [ws1 @ e @ ws2] @ rest) g e n keep =
         pre @ [hdr] @ mid @ (if keep then [ws1 @ e @ ws2] else []) @ [ws1 @ n @ ws2] @ rest"
proof -
  let ?u = "ws1 @ e @ ws2"
  let ?P = "param_step e n keep"
  have tw: "takeWhile (\<lambda>l. strip l \<noteq> g) (pre @ [hdr] @ mid @ [?u] @ rest) = pre"
    using pre hdr by (simp add: takeWhile_append2)
  have dw: "dropWhile (\<lambda>l. strip l \<noteq> g) (pre @ [hdr] @ mid @ [?u] @ rest) = hdr # mid @ [?u] @ rest"
    using pre hdr by (simp add: dropWhile_append2)
  have su: "strip ?u = e" using ws1 ws2 e by (rule strip_padded)
  have ru: "replace_all e n ?u = ws1 @ n @ ws2" using e ws1 ws2 by (intro replace_keeps_padding)
  have H: "?P hdr = [hdr]" using others by (simp add: param_step_def)
  have M: "concat (map ?P mid) = mid" using others by (intro param_step_other) simp
  have R: "concat (map ?P rest) = rest" using others by (intro param_step_other) simp
  have U: "?P ?u = (if keep then [?u] else []) @ [ws1 @ n @ ws2]" using su ru by (simp add: param_step_def)
  have "concat (map ?P (hdr # mid @ [?u] @ rest)) =
        hdr # mid @ (if keep then [?u] else []) @ [ws1 @ n @ ws2] @ rest"
    by (simp only: list.map concat.simps map_append concat_append H M R U) simp
  then show ?thesis using tw dw by (simp add: replace_param_line_def replace_scan_before)
qed

lemma add_global_tag_inserts:
  assumes pre: "\<forall>l\<in>set pre. strip l \<noteq> ''[global_tags]''" and hdr: "strip hdr = ''[global_tags]''"
    and ws1: "\<forall>c\<in>set ws1. is_space c" and ws2: "\<forall>c\<in>set ws2. is_space c"
    and others: \<open>\<forall>l\<in>set (hdr # mid @ ins @ post). strip l \<noteq> ''# user = "$USER"''\<close>
  shows \<open>add_global_tag (pre @ [hdr] @ mid @ [ws1 @ ''# user = "$USER"'' @ ws2] @ ins @ post) nm v =
         pre @ [hdr] @ mid @ [ws1 @ ''# user = "$USER"'' @ ws2, ws1 @ tag_line nm v @ ws2] @ ins @ post\<close>
  using replace_param_line_at [OF pre hdr ws1 ws2 _ _ _ others, of "tag_line nm v" True]
  by (simp add: add_global_tag_def tag_line_def is_space_def)

lemma split_tag_pair [simp]:
  "CHR ''='' \<notin> set nm \<Longrightarrow> CHR ''='' \<notin> set v \<Longrightarrow> split_on CHR ''='' (nm @ CHR ''='' # v) = [nm, v]"
  using split_on_no_sep [of "CHR ''=''" nm v] split_on_single [of "CHR ''=''" v] by simp

lemma add_tags_inserts:
  assumes pre: "\<forall>l\<in>set pre. strip l \<noteq> ''[global_tags]''" and hdr: "strip hdr = ''[global_tags]''"
    and ws1: "\<forall>c\<in>set ws1. is_space c" and ws2: "\<forall>c\<in>set ws2. is_space c"
    and others: \<open>\<forall>l\<in>set (hdr # mid @ ins @ post). strip l \<noteq> ''# user = "$USER"''\<close>
    and names: \<open>\<forall>(nm, v)\<in>set nvs. CHR ''='' \<notin> set nm \<and> CHR ''='' \<notin> set v \<and>
                  strip (ws1 @ tag_line nm v @ ws2) \<noteq> ''# user = "$USER"''\<close>
  shows \<open>add_tags (pre @ [hdr] @ mid @ [ws1 @ ''# user = "$USER"'' @ ws2] @ ins @ post)
           (map (\<lambda>(nm, v). nm @ ''='' @ v) nvs) =
         Inr (pre @ [hdr] @ mid @ [ws1 @ ''# user = "$USER"'' @ ws2] @
              rev (map (\<lambda>(nm, v). ws1 @ tag_line nm v @ ws2) nvs) @ ins @ post)\<close>
  using others names
proof (induction nvs arbitrary: ins)
  case Nil
  then show ?case by simp
next
  case (Cons nv nvs)
  obtain nm v where nv: "nv = (nm, v)" by fastforce
  let ?new = "ws1 @ tag_line nm v @ ws2"
  have sep: "CHR ''='' \<notin> set nm" "CHR ''='' \<notin> set v" using Cons.prems(2) nv by auto
  have step: \<open>add_global_tag (pre @ [hdr] @ mid @ [ws1 @ ''# user = "$USER"'' @ ws2] @ ins @ post) nm v =
              pre @ [hdr] @ mid @ [ws1 @ ''# user = "$USER"'' @ ws2] @ (?new # ins) @ post\<close>
    using add_global_tag_inserts [OF pre hdr ws1 ws2 Cons.prems(1)] by simp
  have oth: \<open>\<forall>l\<in>set (hdr # mid @ (?new # ins) @ post). strip l \<noteq> ''# user = "$USER"''\<close>
    using Cons.prems nv by auto
  let ?C = \<open>pre @ [hdr] @ mid @ [ws1 @ ''# user = "$USER"'' @ ws2] @ ins @ post\<close>
  have "add_tags ?C (map (\<lambda>(nm, v). nm @ ''='' @ v) (nv # nvs)) =
        add_tags (add_global_tag ?C nm v) (map (\<lambda>(nm, v). nm @ ''='' @ v) nvs)"
    using sep nv by (simp add: Let_def)
  also have "\<dots> = add_tags (pre @ [hdr] @ mid @ [ws1 @ ''# user = \"$USER\"'' @ ws2] @ (?new # ins) @ post)
                      (map (\<lambda>(nm, v). nm @ ''='' @ v) nvs)"
    by (simp only: step)
  also have "\<dots> = Inr (pre @ [hdr] @ mid @ [ws1 @ ''# user = \"$USER\"'' @ ws2] @
                       rev (map (\<lambda>(nm, v). ws1 @ tag_line nm v @ ws2) nvs) @ (?new # ins) @ post)"
    using Cons.IH [OF oth] Cons.prems(2) by simp
  finally show ?case using nv by simp
qed

text \<open>
  C27. In a configuration whose first \<open>[agent]\<close> header is followed by the default
  \<open>interval = "10s"\<close> line, with no other occurrence of that line from the header on,
  \<^verbatim>\<open>set_agent_interval\<close> rewrites exactly that line to the new interval, keeping its
  indentation and line ending, and leaves every other line in place.
\<close>

lemma set_agent_interval_rewrites:
  assumes pre: "\<forall>l\<in>set pre. strip l \<noteq> ''[agent]''" and hdr: "strip hdr = ''[agent]''"
    and ws1: "\<forall>c\<in>set ws1. is_space c" and ws2: "\<forall>c\<in>set ws2. is_space c"
    and others: \<open>\<forall>l\<in>set (hdr # mid @ post). strip l \<noteq> ''interval = "10s"''\<close>
  shows \<open>set_agent_interval (pre @ [hdr] @ mid @ [ws1 @ ''interval = "10s"'' @ ws2] @ post) iv =
         pre @ [hdr] @ mid @ [ws1 @ ''interval = "'' @ iv @ ''"'' @ ws2] @ post\<close>
  using replace_param_line_at [OF pre hdr ws1 ws2 _ _ _ others, of \<open>''interval = "'' @ iv @ ''"''\<close> False]
  by (simp add: set_agent_interval_def is_space_def)

lemma set_agent_interval_rewrites_witness:
  \<open>set_agent_interval [''# Telegraf\<newline>'', ''[agent]\<newline>'', ''  round = true\<newline>'',
      ''  interval = "10s"\<newline>'', ''[[outputs.influxdb]]\<newline>''] ''1s'' =
   [''# Telegraf\<newline>'', ''[agent]\<newline>'', ''  round = true\<newline>'',
      ''  interval = "1s"\<newline>'', ''[[outputs.influxdb]]\<newline>'']\<close>
  using set_agent_interval_rewrites [of \<open>[''# Telegraf\<newline>'']\<close> \<open>''[agent]\<newline>''\<close> \<open>''  ''\<close> \<open>''\<newline>''\<close>
      \<open>[''  round = true\<newline>'']\<close> \<open>[''[[outputs.influxdb]]\<newline>'']\<close> \<open>''1s''\<close>]
  by (simp add: strip_def lstrip_def rstrip_def is_space_def)

text \<open>
  C28. The single-pass loop of \<^verbatim>\<open>replace_param_line\<close>, with its \<open>in_correct_confgroup\<close>
  flag, equals a split of the file at the first line whose stripped text is the group
  header: the lines before it are copied, and every line from it on is rewritten by the
  per-line replacement, whatever group headers follow.
\<close>

lemma replace_param_line_spec:
  "replace_param_line conf_lines g e n keep =
     takeWhile (\<lambda>l. strip l \<noteq> g) conf_lines @
     concat (map (param_step e n keep) (dropWhile (\<lambda>l. strip l \<noteq> g) conf_lines))"
  by (simp add: replace_param_line_def replace_scan_before)

lemma add_tags_cons:
  \<open>add_tags conf (t # ts) =
     (if 2 \<le> count_list t CHR ''='' then Inl (TagHasEquals t)
      else if count_list t CHR ''='' = 0 then Inl (TagIndexError t)
      else add_tags (add_global_tag conf (takeWhile (\<lambda>x. x \<noteq> CHR ''='') t)
                       (drop (Suc (length (takeWhile (\<lambda>x. x \<noteq> CHR ''='') t))) t)) ts)\<close>
proof (cases "count_list t CHR ''='' = 1")
  case True
  then show ?thesis by (simp add: Let_def length_split_on split_on_one_sep)
next
  case False
  then show ?thesis by (simp add: Let_def length_split_on)
qed

text \<open>
  C30. The tag loop of \<^verbatim>\<open>generate_telegraf_conf\<close> checks each \<open>name=value\<close> pair: a pair
  with two or more \<open>=\<close> raises the \<open>RuntimeError\<close>, a pair with none fails with the
  \<open>IndexError\<close> of \<open>split_tag_pair[1]\<close>, and a pair with exactly one adds the tag
  named by the text before the \<open>=\<close> with the value after it, then continues.
\<close>

lemma add_tags_validates:
  \<open>add_tags conf (t # ts) =
     (if 2 \<le> count_list t CHR ''='' then Inl (TagHasEquals t)
      else if count_list t CHR ''='' = 0 then Inl (TagIndexError t)
      else add_tags (add_global_tag conf (takeWhile (\<lambda>x. x \<noteq> CHR ''='') t)
                       (drop (Suc (length (takeWhile (\<lambda>x. x \<noteq> CHR ''='') t))) t)) ts)\<close>
  by (rule add_tags_cons)

lemma add_tags_error:
  "add_tags conf tags = Inl err \<Longrightarrow>
   \<exists>t\<in>set tags. (err = TagHasEquals t \<and> 2 \<le> count_list t CHR ''='') \<or>
                (err = TagIndexError t \<and> count_list t CHR ''='' = 0)"
proof (induction tags arbitrary: conf)
  case Nil
  then show ?case by simp
next
  case (Cons t ts)
  from Cons.prems show ?case
    by (subst (asm) add_tags_cons) (auto split: if_splits dest: Cons.IH)
qed

text \<open>
  C31. Whenever \<^verbatim>\<open>generate_telegraf_conf\<close> fails, its error names one of the given tag
  pairs, and that pair has two or more \<open>=\<close> (the \<open>RuntimeError\<close>) or none (the
  \<open>IndexError\<close>).
\<close>

lemma generate_conf_error_names_tag:
  assumes "generate_telegraf_conf conf ai fi url db tags hn = Inl err"
  shows "\<exists>t\<in>set tags. (err = TagHasEquals t \<and> 2 \<le> count_list t CHR ''='') \<or>
                     (err = TagIndexError t \<and> count_list t CHR ''='' = 0)"
  using assms by (intro add_tags_error) (simp add: generate_telegraf_conf_def Let_def)

lemma generate_conf_error_names_tag_witness:
  "generate_telegraf_conf [] ''1s'' ''10s'' ''u'' ''db'' [''run=a'', ''k=v=w''] ''h'' = Inl (TagHasEquals ''k=v=w'') \<and>
   (\<exists>t\<in>set [''run=a'', ''k=v=w'']. (TagHasEquals ''k=v=w'' = TagHasEquals t \<and> 2 \<le> count_list t CHR ''='') \<or>
        (TagHasEquals ''k=v=w'' = TagIndexError t \<and> count_list t CHR ''='' = 0))"
proof -
  have g: "generate_telegraf_conf [] ''1s'' ''10s'' ''u'' ''db'' [''run=a'', ''k=v=w''] ''h'' = Inl (TagHasEquals ''k=v=w'')"
    by code_simp
  show ?thesis using g generate_conf_error_names_tag [OF g] by simp
qed

text \<open>
  C32. Adding well-formed tags to a configuration with one \<open># user = "$USER"\<close> line under
  \<open>[global_tags]\<close> inserts one \<open>name = "value"\<close> line per tag directly after it, with
  the same indentation, in the reverse of the order the tags are given (the order the
  comment before \<^verbatim>\<open>test()\<close> warns of).
\<close>

lemma global_tags_reversed:
  assumes pre: "\<forall>l\<in>set pre. strip l \<noteq> ''[global_tags]''" and hdr: "strip hdr = ''[global_tags]''"
    and ws1: "\<forall>c\<in>set ws1. is_space c" and ws2: "\<forall>c\<in>set ws2. is_space c"
    and others: \<open>\<forall>l\<in>set (hdr # mid @ post). strip l \<noteq> ''# user = "$USER"''\<close>
    and names: \<open>\<forall>(nm, v)\<in>set nvs. CHR ''='' \<notin> set nm \<and> CHR ''='' \<notin> set v \<and>
                  strip (ws1 @ tag_line nm v @ ws2) \<noteq> ''# user = "$USER"''\<close>
  shows \<open>add_tags (pre @ [hdr] @ mid @ [ws1 @ ''# user = "$USER"'' @ ws2] @ post)
           (map (\<lambda>(nm, v). nm @ ''='' @ v) nvs) =
         Inr (pre @ [hdr] @ mid @ [ws1 @ ''# user = "$USER"'' @ ws2] @
              rev (map (\<lambda>(nm, v). ws1 @ tag_line nm v @ ws2) nvs) @ post)\<close>
  using add_tags_inserts [OF pre hdr ws1 ws2 _ names, of mid "[]" post] others by simp

lemma global_tags_reversed_witness:
  \<open>add_tags [''[global_tags]\<newline>'', ''  # user = "$USER"\<newline>'', ''[agent]\<newline>'']
      [''run=test-run'', ''cluster=c1''] =
   Inr [''[global_tags]\<newline>'', ''  # user = "$USER"\<newline>'', ''  cluster = "c1"\<newline>'',
        ''  run = "test-run"\<newline>'', ''[agent]\<newline>'']\<close>
  using global_tags_reversed [of "[]" \<open>''[global_tags]\<newline>''\<close> \<open>''  ''\<close> \<open>''\<newline>''\<close> "[]"
      \<open>[''[agent]\<newline>'']\<close> \<open>[(''run'', ''test-run''), (''cluster'', ''c1'')]\<close>]
  by (simp add: strip_def lstrip_def rstrip_def is_space_def tag_line_def)

end
