(* ===== verification/Net_Util.thy ===== *)
theory Net_Util
  imports Py_Str "HOL-Library.AList"
begin

text \<open>
  The network-utilization grapher \<^verbatim>\<open>src/network-utilization/nu.py\<close>. A recorder
  (\<^verbatim>\<open>record_network_buffer_log\<close>, a shell loop over \<open>ethtool -S\<close>) writes one line per
  millisecond: a timestamp and the byte counters of the NIC queues. The class
  \<^verbatim>\<open>BufferTimeseries\<close> parses that log into snapshots (\<^verbatim>\<open>parse_line\<close>,
  \<^verbatim>\<open>parse_raw_data\<close>: \<open>parse_line\<close>, \<open>parse_kvs\<close>, \<open>queue_id\<close>, \<open>queue_dict\<close>,
  \<open>parse_raw_data\<close>), adds deltas and Gbit/s rates (\<^verbatim>\<open>add_computed_layers\<close>:
  \<open>delta_queues\<close>, \<open>to_gigabits_per_sec\<close>, \<open>gbps_acc\<close>, \<open>layer_step\<close>, \<open>layers_from\<close>),
  cuts time windows (\<^verbatim>\<open>extract\<close>, \<^verbatim>\<open>reduce\<close>, \<^verbatim>\<open>save\<close>: \<open>extract_scan\<close>,
  \<open>extract_series\<close>, \<open>bt_extract\<close>, \<open>reduce\<close>, \<open>save\<close>) and computes the plotted series
  (\<^verbatim>\<open>graph_network_usage\<close> up to the matplotlib calls: \<open>series_of\<close>,
  \<open>graph_network_usage\<close>). A snapshot dict is the record \<open>snapshot\<close>: its \<open>raw\<close> part
  is \<open>raw_timestamp\<close> and \<open>raw_queues\<close> (a Python dict as an association list updated
  in place, AList's \<open>update\<close>), its \<open>deltas\<close> and \<open>gbps\<close> parts are options (absent
  until computed). The object is the record \<open>buffer_timeseries\<close>; methods return the
  updated object. Python's \<open>int()\<close> on a decimal string is \<open>py_int_parse\<close>; floats are
  reals (rounding is not modelled), and \<open>float()\<close> on a string is a parameter of
  \<open>to_ms\<close>, as the file system is a parameter (\<open>read_lines\<close>, \<open>load_json\<close>,
  \<open>abspathify\<close>) of the constructor and the command-line branches. \<^verbatim>\<open>simple_sampler\<close>
  is modelled with the binding of the global name \<open>bt\<close> its loop uses. Each raise is an
  \<open>nu_error\<close>. Not modelled: the plotting, printing, timing and directory handling, and
  the recorder's shell loop.
\<close>

datatype nu_error =
    NuRuntimeError string
  | NuValueError string
  | NuKeyError string
  | NuIndexError
  | NuZeroDivision
  | NuAttributeError
  | NuNameError string

subsection \<open>Parsing the ethtool log\<close>

fun parse_kvs :: "string list \<Rightarrow> nu_error + (string \<times> int) list" where
  "parse_kvs [] = Inr []"
| "parse_kvs (kv # kvs) =
     (case split_on CHR '':'' kv of
        [k, v] \<Rightarrow>
          (case py_int_parse v of
             None \<Rightarrow> Inl (NuValueError v)
           | Some n \<Rightarrow> map_sum id (Cons (k, n)) (parse_kvs kvs))
      | _ \<Rightarrow> Inl (NuValueError kv))"

definition parse_line :: "string \<Rightarrow> nu_error + int \<times> (string \<times> int) list" where
  "parse_line line =
     (let split_line = split_on CHR '' '' (strip (replace_all ''\<newline>'' [] (replace_all '': '' '':'' line)))
      in case py_int_parse (hd split_line) of
           None \<Rightarrow> Inl (NuValueError (hd split_line))
         | Some ts \<Rightarrow> map_sum id (Pair ts) (parse_kvs (tl split_line)))"

record snapshot =
  raw_timestamp :: int
  raw_queues :: "(string \<times> int) list"
  deltas :: "(int \<times> (string \<times> int) list) option"
  gbps :: "(real \<times> real) option"

definition queue_id :: "string \<Rightarrow> string option" where
  "queue_id k = (case split_on CHR ''_'' k of [_, q_num, rxtx, _] \<Rightarrow> Some (rxtx @ ''_'' @ q_num) | _ \<Rightarrow> None)"

definition queue_dict :: "(string \<times> int) list \<Rightarrow> (string \<times> int) list" where
  "queue_dict kvs =
     foldl (\<lambda>d (k, v). case queue_id k of None \<Rightarrow> d | Some q_id \<Rightarrow> AList.update q_id v d) [] kvs"

fun parse_raw_data :: "string list \<Rightarrow> nu_error + snapshot list" where
  "parse_raw_data [] = Inr []"
| "parse_raw_data (line # lines) =
     (case parse_line line of
        Inl err \<Rightarrow> Inl err
      | Inr (ts, queue_kv_pairs) \<Rightarrow>
          map_sum id (Cons \<lparr>raw_timestamp = ts, raw_queues = queue_dict queue_kv_pairs, deltas = None, gbps = None\<rparr>)
            (parse_raw_data lines))"

subsection \<open>The object and its computed layers\<close>

text \<open>
  The object's attributes: \<open>timeseries\<close> is \<open>None\<close> while it is unset (a constructor given
  an empty path string sets neither source), and \<open>deltas_computed\<close> the flag.
\<close>

record buffer_timeseries =
  timeseries :: "snapshot list option"
  deltas_computed :: bool

definition bt_init ::
  "(string \<Rightarrow> string list) \<Rightarrow> (string \<Rightarrow> snapshot list) \<Rightarrow> string option \<Rightarrow> string option \<Rightarrow>
   nu_error + buffer_timeseries" where
  "bt_init read_lines load_json log_path btfile_path =
     (if log_path = None \<and> btfile_path = None
      then Inl (NuRuntimeError ''One of log_path or btfile_path must be specified'')
      else if log_path \<noteq> None \<and> btfile_path \<noteq> None
      then Inl (NuRuntimeError ''Only one of log_path or btfile_path may be specified'')
      else
        (let bt = \<lparr>timeseries = None, deltas_computed = False\<rparr>
         in case log_path of
              Some p \<Rightarrow>
                if p \<noteq> [] then map_sum id (\<lambda>ts. bt\<lparr>timeseries := Some ts\<rparr>) (parse_raw_data (read_lines p))
                else Inr bt
            | None \<Rightarrow>
                (case btfile_path of
                   Some p \<Rightarrow> if p \<noteq> [] then Inr (bt\<lparr>timeseries := Some (load_json p)\<rparr>) else Inr bt
                 | None \<Rightarrow> Inr bt)))"

fun delta_queues :: "(string \<times> int) list \<Rightarrow> (string \<times> int) list \<Rightarrow> nu_error + (string \<times> int) list" where
  "delta_queues prev [] = Inr []"
| "delta_queues prev ((q_id, current_bytes) # qs) =
     (case map_of prev q_id of
        None \<Rightarrow> Inl (NuKeyError q_id)
      | Some prev_bytes \<Rightarrow> map_sum id (Cons (q_id, current_bytes - prev_bytes)) (delta_queues prev qs))"

definition to_gigabits_per_sec :: "int \<Rightarrow> int \<Rightarrow> nu_error + real" where
  "to_gigabits_per_sec ms_delta byte_delta =
     (if ms_delta = 0 then Inl NuZeroDivision
      else (let bits = byte_delta * 8;
                bits_per_ms = real_of_int bits / real_of_int ms_delta;
                gigabits_per_ms = bits_per_ms / (1000 * 1000 * 1000)
            in Inr (gigabits_per_ms * 1000)))"

fun gbps_acc :: "int \<Rightarrow> (string \<times> int) list \<Rightarrow> real \<times> real \<Rightarrow> nu_error + real \<times> real" where
  "gbps_acc ms [] acc = Inr acc"
| "gbps_acc ms ((q_id, d) # qs) (rx, tx) =
     (case to_gigabits_per_sec ms d of
        Inl err \<Rightarrow> Inl err
      | Inr g \<Rightarrow>
          if startswith q_id ''tx'' then gbps_acc ms qs (rx, tx + g)
          else if startswith q_id ''rx'' then gbps_acc ms qs (rx + g, tx)
          else Inl (NuRuntimeError (''Unrecognized queue id: '' @ q_id)))"

definition layer_step :: "snapshot \<Rightarrow> snapshot \<Rightarrow> nu_error + snapshot" where
  "layer_step prev_snapshot snapshot =
     (let ts_delta = raw_timestamp snapshot - raw_timestamp prev_snapshot
      in case delta_queues (raw_queues prev_snapshot) (raw_queues snapshot) of
           Inl err \<Rightarrow> Inl err
         | Inr dq \<Rightarrow>
             (case gbps_acc ts_delta dq (0, 0) of
                Inl err \<Rightarrow> Inl err
              | Inr g \<Rightarrow> Inr (snapshot\<lparr>deltas := Some (ts_delta, dq), gbps := Some g\<rparr>)))"

fun layers_from :: "snapshot \<Rightarrow> snapshot list \<Rightarrow> nu_error + snapshot list" where
  "layers_from prev [] = Inr []"
| "layers_from prev (s # ss) =
     (case layer_step prev s of
        Inl err \<Rightarrow> Inl err
      | Inr s' \<Rightarrow> map_sum id (Cons s') (layers_from s' ss))"

definition add_computed_layers :: "buffer_timeseries \<Rightarrow> nu_error + buffer_timeseries" where
  "add_computed_layers bt =
     (if deltas_computed bt then Inr bt
      else case timeseries bt of
             None \<Rightarrow> Inl NuAttributeError
           | Some [] \<Rightarrow> Inr (bt\<lparr>deltas_computed := True\<rparr>)
           | Some (s # ss) \<Rightarrow>
               map_sum id (\<lambda>ss'. bt\<lparr>timeseries := Some (s # ss'), deltas_computed := True\<rparr>) (layers_from s ss))"

subsection \<open>Extraction, reduction and the plotted series\<close>

definition min_state :: "snapshot \<Rightarrow> snapshot" where
  "min_state s = s\<lparr>deltas := None, gbps := None\<rparr>"

fun extract_scan :: "real \<Rightarrow> real \<Rightarrow> bool \<Rightarrow> snapshot list \<Rightarrow> snapshot list" where
  "extract_scan start_raw end_raw reduce [] = []"
| "extract_scan start_raw end_raw reduce (s # ss) =
     (if real_of_int (raw_timestamp s) < start_raw then extract_scan start_raw end_raw reduce ss
      else if real_of_int (raw_timestamp s) > end_raw then []
      else (if reduce then min_state s else s) # extract_scan start_raw end_raw reduce ss)"

definition extract_series :: "snapshot list \<Rightarrow> real option \<Rightarrow> real option \<Rightarrow> bool \<Rightarrow> nu_error + snapshot list" where
  "extract_series ts start_ms duration_ms reduce_to_min_state =
     (if ts = [] then Inl NuIndexError
      else
        (let start_raw_ms = real_of_int (raw_timestamp (hd ts));
             end_raw_ms = real_of_int (raw_timestamp (last ts));
             start_raw_ms = (case start_ms of None \<Rightarrow> start_raw_ms | Some s \<Rightarrow> start_raw_ms + s);
             end_raw_ms = (case duration_ms of None \<Rightarrow> end_raw_ms | Some d \<Rightarrow> start_raw_ms + d)
         in Inr (extract_scan start_raw_ms end_raw_ms reduce_to_min_state ts)))"

definition bt_extract :: "buffer_timeseries \<Rightarrow> real option \<Rightarrow> real option \<Rightarrow> bool \<Rightarrow> nu_error + snapshot list" where
  "bt_extract bt start_ms duration_ms reduce_to_min_state =
     (case timeseries bt of
        None \<Rightarrow> Inl NuAttributeError
      | Some ts \<Rightarrow> extract_series ts start_ms duration_ms reduce_to_min_state)"

definition reduce :: "buffer_timeseries \<Rightarrow> real option \<Rightarrow> real option \<Rightarrow> nu_error + buffer_timeseries" where
  "reduce bt start_ms duration_ms =
     map_sum id (\<lambda>ts. bt\<lparr>timeseries := Some ts\<rparr>) (bt_extract bt start_ms duration_ms False)"

fun series_of :: "nat \<Rightarrow> snapshot list \<Rightarrow> nu_error + real list \<times> real list \<times> int list" where
  "series_of i [] = Inr ([], [], [])"
| "series_of i (s # ss) =
     (if i = 0 \<and> gbps s = None then series_of (Suc i) ss
      else case gbps s of
             None \<Rightarrow> Inl (NuKeyError ''gbps'')
           | Some (rx, tx) \<Rightarrow>
               map_sum id (\<lambda>(rxs, txs, tss). (rx # rxs, tx # txs, raw_timestamp s # tss)) (series_of (Suc i) ss))"

definition graph_network_usage ::
  "buffer_timeseries \<Rightarrow> real option \<Rightarrow> real option \<Rightarrow>
   nu_error + buffer_timeseries \<times> real list \<times> real list \<times> real list" where
  "graph_network_usage bt skip_ms length_ms =
     (case (if \<not> deltas_computed bt then add_computed_layers bt else Inr bt) of
        Inl err \<Rightarrow> Inl err
      | Inr bt \<Rightarrow>
          (case bt_extract bt skip_ms length_ms False of
             Inl err \<Rightarrow> Inl err
           | Inr reduced_timeseries \<Rightarrow>
               (case series_of 0 reduced_timeseries of
                  Inl err \<Rightarrow> Inl err
                | Inr (rx_timeseries, tx_timeseries, ts_timeseries) \<Rightarrow>
                    if ts_timeseries = [] then Inl NuIndexError
                    else
                      (let t0 = hd ts_timeseries;
                           ts_secs = map (\<lambda>t. real_of_int (t - t0) / 1000) ts_timeseries
                       in if length rx_timeseries \<noteq> length tx_timeseries
                          then Inl (NuRuntimeError ''Code expects rx and tx timeseries to be of the same length'')
                          else Inr (bt, ts_secs, rx_timeseries, tx_timeseries)))))"

definition save :: "buffer_timeseries \<Rightarrow> real option \<Rightarrow> real option \<Rightarrow> nu_error + snapshot list" where
  "save bt start_ms duration_ms = bt_extract bt start_ms duration_ms True"

text \<open>
  \<^verbatim>\<open>simple_sampler\<close> graphs its sample windows through the module-level name \<open>bt\<close>, not
  \<open>self\<close>. What that name is bound to is the argument \<open>bt_binding\<close>: the object itself (the
  script's call), another object, or nothing.
\<close>

datatype bt_binding = GlobalIsSelf | GlobalOther buffer_timeseries | GlobalUnbound

type_synonym plot_series = "real list \<times> real list \<times> real list"

fun sample_graphs :: "buffer_timeseries \<Rightarrow> real list \<Rightarrow> nu_error + buffer_timeseries \<times> plot_series list" where
  "sample_graphs bt [] = Inr (bt, [])"
| "sample_graphs bt (sample_dur_secs # sizes) =
     (case graph_network_usage bt (Some 0) (Some (sample_dur_secs * 1000)) of
        Inl err \<Rightarrow> Inl err
      | Inr (bt', series) \<Rightarrow> map_sum id (\<lambda>(bt'', plots). (bt'', series # plots)) (sample_graphs bt' sizes))"

definition default_sample_sizes :: "real list" where
  "default_sample_sizes = [60, 10, 5, 2, 1, 1 / 2, 1 / 10]"

definition simple_sampler ::
  "buffer_timeseries \<Rightarrow> bt_binding \<Rightarrow> real option \<Rightarrow> real list \<Rightarrow>
   nu_error + buffer_timeseries \<times> bt_binding \<times> plot_series list \<times> snapshot list" where
  "simple_sampler self binding start sample_sizes =
     (let start = (case start of None \<Rightarrow> 0 | Some s \<Rightarrow> s)
      in case graph_network_usage self (Some 0) None of
           Inl err \<Rightarrow> Inl err
         | Inr (self1, complete_sample) \<Rightarrow>
             (case reduce self1 (Some start) (Some (60 * 1000)) of
                Inl err \<Rightarrow> Inl err
              | Inr self2 \<Rightarrow>
                  (case binding of
                     GlobalIsSelf \<Rightarrow>
                       (case sample_graphs self2 sample_sizes of
                          Inl err \<Rightarrow> Inl err
                        | Inr (self3, plots) \<Rightarrow>
                            map_sum id (\<lambda>saved. (self3, GlobalIsSelf, complete_sample # plots, saved)) (save self3 None None))
                   | GlobalOther g \<Rightarrow>
                       (case sample_graphs g sample_sizes of
                          Inl err \<Rightarrow> Inl err
                        | Inr (g', plots) \<Rightarrow>
                            map_sum id (\<lambda>saved. (self2, GlobalOther g', complete_sample # plots, saved)) (save self2 None None))
                   | GlobalUnbound \<Rightarrow>
                       if sample_sizes = [] then map_sum id (\<lambda>saved. (self2, GlobalUnbound, [complete_sample], saved)) (save self2 None None)
                       else Inl (NuNameError ''bt''))))"

subsection \<open>Command-line helpers\<close>

text \<open>
  \<^verbatim>\<open>to_ms\<close> over Python's \<open>float\<close>, a parameter \<open>py_float\<close> returning \<open>None\<close> where
  \<open>float()\<close> raises (the \<open>except\<close> branch prints and returns \<open>None\<close>).
\<close>

definition to_ms :: "(string \<Rightarrow> real option) \<Rightarrow> string \<Rightarrow> real option" where
  "to_ms py_float dur_str =
     (if endswith dur_str ''ms'' then py_float (take (length dur_str - 2) dur_str)
      else if endswith dur_str ''s'' then map_option (\<lambda>x. x * 1000) (py_float (take (length dur_str - 1) dur_str))
      else if endswith dur_str ''m'' then map_option (\<lambda>x. x * 60 * 1000) (py_float (take (length dur_str - 1) dur_str))
      else map_option (\<lambda>x. x * 1000) (py_float dur_str))"

definition primary_option :: "bool \<Rightarrow> bool \<Rightarrow> bool \<Rightarrow> nu_error + string" where
  "primary_option simplesample extract graph =
     (let active_primary_options =
            map fst (filter snd [(''simplesample'', simplesample), (''extract'', extract), (''graph'', graph)])
      in if length active_primary_options \<noteq> 1
         then Inl (NuRuntimeError ''Exactly one primary option must be set'')
         else Inr (hd active_primary_options))"

definition cli_times :: "(string \<Rightarrow> real option) \<Rightarrow> string option \<Rightarrow> string option \<Rightarrow> real option \<times> real option" where
  "cli_times py_float start duration =
     ((case start of Some s \<Rightarrow> if s \<noteq> [] then to_ms py_float s else Some 0 | None \<Rightarrow> Some 0),
      (case duration of Some d \<Rightarrow> if d \<noteq> [] then to_ms py_float d else None | None \<Rightarrow> None))"

definition saved_name :: "string \<Rightarrow> string" where
  "saved_name saved = (if \<not> endswith saved ''.json'' then saved @ ''.bt.json'' else saved)"

definition extract_save_name :: "string \<Rightarrow> string" where
  "extract_save_name save_str = (if \<not> endswith save_str ''json'' then save_str @ ''.bt.json'' else save_str)"

definition cli_inputs :: "(string \<Rightarrow> string) \<Rightarrow> string option \<Rightarrow> string option \<Rightarrow> string option \<times> string option" where
  "cli_inputs abspathify raw saved =
     ((case raw of Some r \<Rightarrow> if r \<noteq> [] then Some (abspathify r) else None | None \<Rightarrow> None),
      (case saved of Some s \<Rightarrow> if s \<noteq> [] then Some (abspathify (saved_name s)) else None | None \<Rightarrow> None))"

definition cli_extract ::
  "(string \<Rightarrow> string list) \<Rightarrow> (string \<Rightarrow> snapshot list) \<Rightarrow> (string \<Rightarrow> string) \<Rightarrow>
   string option \<Rightarrow> string option \<Rightarrow> string option \<Rightarrow> real option \<Rightarrow> real option \<Rightarrow>
   nu_error + string \<times> snapshot list" where
  "cli_extract read_lines load_json abspathify raw saved save_opt start_ms duration_ms =
     (case cli_inputs abspathify raw saved of
        (raw, saved) \<Rightarrow>
          (case save_opt of
             None \<Rightarrow> Inl (NuRuntimeError ''--save must be specified for an extraction'')
           | Some save_arg \<Rightarrow>
               (let save_path = abspathify (extract_save_name save_arg)
                in case bt_init read_lines load_json raw saved of
                     Inl err \<Rightarrow> Inl err
                   | Inr bt \<Rightarrow> map_sum id (Pair save_path) (save bt start_ms duration_ms))))"

definition cli_graph ::
  "(string \<Rightarrow> string list) \<Rightarrow> (string \<Rightarrow> snapshot list) \<Rightarrow> (string \<Rightarrow> string) \<Rightarrow>
   string option \<Rightarrow> string option \<Rightarrow> real option \<Rightarrow> real option \<Rightarrow>
   nu_error + buffer_timeseries \<times> plot_series" where
  "cli_graph read_lines load_json abspathify raw saved start_ms duration_ms =
     (case cli_inputs abspathify raw saved of
        (raw, saved) \<Rightarrow>
          (case bt_init read_lines load_json raw saved of
             Inl err \<Rightarrow> Inl err
           | Inr bt \<Rightarrow> graph_network_usage bt start_ms duration_ms))"

text \<open>
  The \<open>--simplesample\<close> branch; \<open>log_path\<close> is the recorder's log in the output directory
  and \<open>is_linux\<close> the platform test. Recording itself is a shell loop and not modelled.
\<close>

definition cli_simplesample ::
  "(string \<Rightarrow> string list) \<Rightarrow> (string \<Rightarrow> snapshot list) \<Rightarrow> (string \<Rightarrow> string) \<Rightarrow> bool \<Rightarrow> string \<Rightarrow>
   string option \<Rightarrow> string option \<Rightarrow> bool \<Rightarrow> real option \<Rightarrow>
   nu_error + buffer_timeseries \<times> bt_binding \<times> plot_series list \<times> snapshot list" where
  "cli_simplesample read_lines load_json abspathify is_linux log_path raw saved live start_ms =
     (case cli_inputs abspathify raw saved of
        (raw, saved) \<Rightarrow>
          (if live \<and> \<not> is_linux
           then Inl (NuRuntimeError ''--live requires ethtool and is only supported on Linux'')
           else
             (let raw = (if live then Some log_path else raw);
                  start_ms = (if live then Some 0 else start_ms)
              in case bt_init read_lines load_json raw saved of
                   Inl err \<Rightarrow> Inl err
                 | Inr bt \<Rightarrow> simple_sampler bt GlobalIsSelf start_ms default_sample_sizes)))"

subsection \<open>Rendering the recorder's log, and example data\<close>

definition ethtool_line :: "int \<Rightarrow> (string \<times> int) list \<Rightarrow> string" where
  "ethtool_line ts kvs = int_str ts @ concat (map (\<lambda>(k, v). '' '' @ k @ '': '' @ int_str v) kvs) @ ''\<newline>''"

definition plain_key :: "string \<Rightarrow> bool" where
  "plain_key k \<longleftrightarrow> CHR '' '' \<notin> set k \<and> CHR '':'' \<notin> set k \<and> CHR ''\<newline>'' \<notin> set k"

definition nu_sample0 :: snapshot where
  "nu_sample0 = \<lparr>raw_timestamp = 15, raw_queues = [(''tx_0'', 32), (''rx_0'', 58)], deltas = None, gbps = None\<rparr>"

definition nu_sample1 :: snapshot where
  "nu_sample1 = \<lparr>raw_timestamp = 17, raw_queues = [(''tx_0'', 40), (''rx_0'', 60)], deltas = None, gbps = None\<rparr>"

definition nu_example_bt :: buffer_timeseries where
  "nu_example_bt = \<lparr>timeseries = Some [nu_sample0, nu_sample1], deltas_computed = False\<rparr>"

definition raw_part :: "snapshot \<Rightarrow> int \<times> (string \<times> int) list" where
  "raw_part s = (raw_timestamp s, raw_queues s)"

section \<open>Lemmas\<close>

lemma replace_colon_space:
  "list_all (\<lambda>(k, v). plain_key k) kvs \<Longrightarrow>
   replace_all '': '' '':'' (concat (map (\<lambda>(k, v). '' '' @ k @ '': '' @ int_str v) kvs) @ ''\<newline>'') =
   concat (map (\<lambda>(k, v). '' '' @ k @ '':'' @ int_str v) kvs) @ ''\<newline>''"
proof (induction kvs)
  case Nil
  then show ?case by (simp add: replace_all_nomatch)
next
  case (Cons kv kvs)
  obtain k v where kv: "kv = (k, v)" by fastforce
  have k: "plain_key k" using Cons.prems kv by simp
  let ?r = "concat (map (\<lambda>(k, v). '' '' @ k @ '': '' @ int_str v) kvs) @ ''\<newline>''"
  have "replace_all '': '' '':'' ((CHR '' '' # k) @ '': '' @ int_str v @ ?r) =
        (CHR '' '' # k) @ '':'' @ int_str v @ replace_all '': '' '':'' ?r"
  proof -
    have ne: "'': '' \<noteq> []" by simp
    have s1: "hd '': '' \<notin> set (CHR '' '' # k)" using k by (simp add: plain_key_def)
    have s2: "hd '': '' \<notin> set (int_str v)" using int_str_plain [of v] by simp
    have "replace_all '': '' '':'' ((CHR '' '' # k) @ '': '' @ int_str v @ ?r) =
          (CHR '' '' # k) @ replace_all '': '' '':'' ('': '' @ int_str v @ ?r)"
      by (rule replace_all_skip [OF ne s1])
    also have "replace_all '': '' '':'' ('': '' @ int_str v @ ?r) = '':'' @ replace_all '': '' '':'' (int_str v @ ?r)"
      by (rule replace_all_match [OF ne])
    also have "replace_all '': '' '':'' (int_str v @ ?r) = int_str v @ replace_all '': '' '':'' ?r"
      by (rule replace_all_skip [OF ne s2])
    finally show ?thesis .
  qed
  then show ?case using Cons kv by simp
qed

lemma remove_newline:
  "list_all (\<lambda>(k, v). plain_key k) kvs \<Longrightarrow>
   replace_all ''\<newline>'' [] (int_str ts @ concat (map (\<lambda>(k, v). '' '' @ k @ '':'' @ int_str v) kvs) @ ''\<newline>'') =
   int_str ts @ concat (map (\<lambda>(k, v). '' '' @ k @ '':'' @ int_str v) kvs)"
proof -
  assume pk: "list_all (\<lambda>(k, v). plain_key k) kvs"
  have ne: "''\<newline>'' \<noteq> []" by simp
  have nl: "hd ''\<newline>'' \<notin> set (int_str ts @ concat (map (\<lambda>(k, v). '' '' @ k @ '':'' @ int_str v) kvs))"
    using pk int_str_plain by (auto simp: list_all_iff plain_key_def)
  have "replace_all ''\<newline>'' [] ''\<newline>'' = []"
    using replace_all_match [OF ne, of "[]" "[]"] by simp
  then show ?thesis using replace_all_skip [OF ne nl, of "[]" "''\<newline>''"] by simp
qed

lemma split_fields:
  "CHR '' '' \<notin> set w \<Longrightarrow> list_all (\<lambda>(k, v). plain_key k) kvs \<Longrightarrow>
   split_on CHR '' '' (w @ concat (map (\<lambda>(k, v). '' '' @ k @ '':'' @ int_str v) kvs)) =
   w # map (\<lambda>(k, v). k @ '':'' @ int_str v) kvs"
proof (induction kvs arbitrary: w)
  case Nil
  then show ?case by (simp add: split_on_single)
next
  case (Cons kv kvs)
  obtain k v where kv: "kv = (k, v)" by fastforce
  have w': "CHR '' '' \<notin> set (k @ '':'' @ int_str v)" using Cons.prems kv int_str_plain [of v] by (simp add: plain_key_def)
  have "split_on CHR '' '' (w @ CHR '' '' # (k @ '':'' @ int_str v) @ concat (map (\<lambda>(k, v). '' '' @ k @ '':'' @ int_str v) kvs)) =
        w # split_on CHR '' '' ((k @ '':'' @ int_str v) @ concat (map (\<lambda>(k, v). '' '' @ k @ '':'' @ int_str v) kvs))"
    by (rule split_on_no_sep [OF Cons.prems(1)])
  then show ?case using Cons.IH [OF w'] Cons.prems(2) kv by simp
qed

lemma parse_kvs_fields:
  "list_all (\<lambda>(k, v). plain_key k) kvs \<Longrightarrow> parse_kvs (map (\<lambda>(k, v). k @ '':'' @ int_str v) kvs) = Inr kvs"
proof (induction kvs)
  case (Cons kv kvs)
  obtain k v where kv: "kv = (k, v)" by fastforce
  have "split_on CHR '':'' (k @ CHR '':'' # int_str v) = [k, int_str v]"
    using Cons.prems kv int_str_plain [of v] split_on_no_sep [of "CHR '':''" k "int_str v"]
      split_on_single [of "CHR '':''" "int_str v"] by (simp add: plain_key_def)
  then show ?case using Cons kv by (simp add: py_int_parse_int_str)
qed simp

lemma int_str_last: "\<not> is_space (last (int_str ts @ concat (map (\<lambda>(k, v). '' '' @ k @ '':'' @ int_str v) kvs)))"
proof (cases kvs rule: rev_exhaust)
  case Nil
  then show ?thesis using int_str_ends [of ts] by simp
next
  case (snoc kvs' kv)
  then show ?thesis using int_str_ends [of "snd kv"] by (cases kv) simp
qed

lemma parse_ethtool_line:
  "list_all (\<lambda>(k, v). plain_key k) kvs \<Longrightarrow> parse_line (ethtool_line ts kvs) = Inr (ts, kvs)"
proof -
  assume pk: "list_all (\<lambda>(k, v). plain_key k) kvs"
  let ?b = "int_str ts @ concat (map (\<lambda>(k, v). '' '' @ k @ '':'' @ int_str v) kvs)"
  have a: "replace_all '': '' '':'' (ethtool_line ts kvs) = ?b @ ''\<newline>''"
  proof -
    have ne: "'': '' \<noteq> []" by simp
    have h: "hd '': '' \<notin> set (int_str ts)" using int_str_plain [of ts] by simp
    show ?thesis using replace_all_skip [OF ne h] replace_colon_space [OF pk] by (simp add: ethtool_line_def)
  qed
  have s: "strip ?b = ?b"
    using int_str_ends [of ts] int_str_last [of ts kvs] by (intro strip_no_space_ends) simp_all
  have sp: "CHR '' '' \<notin> set (int_str ts)" using int_str_plain [of ts] by simp
  show ?thesis
    using a remove_newline [OF pk, of ts] s split_fields [OF sp pk] parse_kvs_fields [OF pk]
    by (simp add: parse_line_def Let_def py_int_parse_int_str)
qed

text \<open>
  \<^verbatim>\<open>parse_raw_data\<close> either raises the error of the first line that does not
  parse (a \<open>ValueError\<close> of \<open>int()\<close> or of the \<open>k, v = kv.split(":")\<close> unpacking),
  or returns one fresh snapshot per line, in file order.
\<close>

lemma parse_raw_data_stops_at_first_error:
  "parse_raw_data lines =
     (case List.find (\<lambda>l. isl (parse_line l)) lines of
        Some l \<Rightarrow> Inl (projl (parse_line l))
      | None \<Rightarrow> Inr (map (\<lambda>l. case projr (parse_line l) of (ts, kvs) \<Rightarrow>
                   \<lparr>raw_timestamp = ts, raw_queues = queue_dict kvs, deltas = None, gbps = None\<rparr>) lines))"
proof (induction lines)
  case (Cons l ls)
  then show ?case by (cases "parse_line l") (auto split: option.split)
qed simp

lemma delta_queues_keys:
  "delta_queues prev qs = Inr dq \<Longrightarrow> map fst dq = map fst qs"
proof (induction prev qs arbitrary: dq rule: delta_queues.induct)
  case (2 prev q_id current_bytes qs)
  obtain pb where pb: "map_of prev q_id = Some pb" using "2.prems" by (cases "map_of prev q_id") auto
  obtain dq' where dq': "delta_queues prev qs = Inr dq'" and dq: "dq = (q_id, current_bytes - pb) # dq'"
    using "2.prems" pb by (cases "delta_queues prev qs") auto
  show ?case using "2.IH" [OF pb dq'] dq by simp
qed simp

lemma delta_queues_present:
  "set (map fst qs) \<subseteq> set (map fst prev) \<Longrightarrow> \<exists>dq. delta_queues prev qs = Inr dq"
proof (induction prev qs rule: delta_queues.induct)
  case (2 prev q_id current_bytes qs)
  have "q_id \<in> fst ` set prev" using "2.prems" by auto
  then obtain pb where pb: "map_of prev q_id = Some pb" by (metis map_of_eq_None_iff option.exhaust)
  have "set (map fst qs) \<subseteq> set (map fst prev)" using "2.prems" by auto
  then obtain dq where "delta_queues prev qs = Inr dq" using "2.IH" [OF pb] by blast
  then show ?case using pb by simp
qed simp

lemma layer_step_Inr:
  "layer_step p s = Inr s' \<Longrightarrow>
   raw_part s' = raw_part s \<and> gbps s' \<noteq> None \<and>
   map_option fst (deltas s') = Some (raw_timestamp s - raw_timestamp p)"
  by (auto simp: layer_step_def Let_def raw_part_def split: sum.splits)

lemma layers_from_Inr:
  "layers_from p ss = Inr ss' \<Longrightarrow>
   map raw_part ss' = map raw_part ss \<and> list_all (\<lambda>s. gbps s \<noteq> None) ss' \<and>
   list_all (\<lambda>(q, r). map_option fst (deltas r) = Some (raw_timestamp r - raw_timestamp q)) (zip (p # ss') ss')"
proof (induction p ss arbitrary: ss' rule: layers_from.induct)
  case (2 prev s ss)
  from "2.prems" obtain s1 where st: "layer_step prev s = Inr s1"
    by (cases "layer_step prev s") auto
  with "2.prems" obtain ss1 where r: "layers_from s1 ss = Inr ss1" and e: "ss' = s1 # ss1"
    by (cases "layers_from s1 ss") auto
  have "raw_timestamp s1 = raw_timestamp s" using layer_step_Inr [OF st] by (simp add: raw_part_def)
  then show ?case using "2.IH" [OF st r] layer_step_Inr [OF st] e by simp
qed simp

lemma gbps_acc_zero: "gbps_acc 0 (q # qs) acc = Inl NuZeroDivision"
  by (cases q, cases acc) (simp add: to_gigabits_per_sec_def)

lemma extract_scan_sorted:
  "sorted (map raw_timestamp ts) \<Longrightarrow>
   extract_scan lo hi r ts =
     map (\<lambda>s. if r then min_state s else s)
       (filter (\<lambda>s. lo \<le> real_of_int (raw_timestamp s) \<and> real_of_int (raw_timestamp s) \<le> hi) ts)"
proof (induction ts)
  case (Cons s ss)
  show ?case
  proof (cases "hi < real_of_int (raw_timestamp s)")
    case True
    have "\<forall>x\<in>set ss. raw_timestamp s \<le> raw_timestamp x" using Cons.prems by simp
    then have "filter (\<lambda>s. lo \<le> real_of_int (raw_timestamp s) \<and> real_of_int (raw_timestamp s) \<le> hi) ss = []"
      using True by (force simp: filter_empty_conv)
    moreover have "sorted (map raw_timestamp ss)" using Cons.prems by simp
    ultimately show ?thesis using True Cons.IH by auto
  next
    case False
    then show ?thesis using Cons by auto
  qed
qed simp

lemma series_of_lengths:
  "series_of i ss = Inr (rxs, txs, tss) \<Longrightarrow> length rxs = length txs \<and> length txs = length tss"
proof (induction i ss arbitrary: rxs txs tss rule: series_of.induct)
  case (2 i s ss)
  then show ?case by (cases "series_of (Suc i) ss") (auto split: if_splits option.splits)
qed simp

text \<open>
  C33. Parsing round trip: a log written in the ethtool format the recorder produces (a
  millisecond timestamp, then for each counter a space, its name, a colon, a space and its
  value, then a newline), with counter names free of spaces, colons and newlines, parses
  back to one snapshot per line holding that timestamp and the queue dictionary of those
  counters.
\<close>

lemma parse_raw_data_roundtrip:
  assumes "list_all (\<lambda>(ts, kvs). list_all (\<lambda>(k, v). plain_key k) kvs) samples"
  shows "parse_raw_data (map (\<lambda>(ts, kvs). ethtool_line ts kvs) samples) =
         Inr (map (\<lambda>(ts, kvs). \<lparr>raw_timestamp = ts, raw_queues = queue_dict kvs, deltas = None, gbps = None\<rparr>) samples)"
  using assms
proof (induction samples)
  case (Cons sample samples)
  then show ?case by (cases sample) (simp add: parse_ethtool_line)
qed simp

lemma parse_raw_data_roundtrip_witness:
  "list_all (\<lambda>(ts, kvs). list_all (\<lambda>(k, v). plain_key k) kvs)
     [(15, [(''queue_0_tx_bytes'', 32), (''queue_0_rx_bytes'', 58)])] \<and>
   parse_raw_data [''15 queue_0_tx_bytes: 32 queue_0_rx_bytes: 58\<newline>''] =
     Inr [\<lparr>raw_timestamp = 15, raw_queues = [(''tx_0'', 32), (''rx_0'', 58)], deltas = None, gbps = None\<rparr>]"
proof -
  have h: "list_all (\<lambda>(ts, kvs). list_all (\<lambda>(k, v). plain_key k) kvs)
     [(15::int, [(''queue_0_tx_bytes'', 32::int), (''queue_0_rx_bytes'', 58)])]" by (simp add: plain_key_def)
  have l: "map (\<lambda>(ts, kvs). ethtool_line ts kvs) [(15::int, [(''queue_0_tx_bytes'', 32::int), (''queue_0_rx_bytes'', 58)])] =
           [''15 queue_0_tx_bytes: 32 queue_0_rx_bytes: 58\<newline>'']"
    by code_simp
  have q: "queue_dict [(''queue_0_tx_bytes'', 32), (''queue_0_rx_bytes'', 58)] = [(''tx_0'', 32), (''rx_0'', 58)]"
    by code_simp
  show ?thesis using parse_raw_data_roundtrip [OF h] h l q by simp
qed




text \<open>
  C36. On a series sorted by timestamp, the scan of \<^verbatim>\<open>extract\<close> with its \<open>continue\<close> and
  \<open>break\<close> returns exactly the snapshots whose timestamp lies in the window from the
  first timestamp plus the start offset to the end (the last timestamp, or the start plus
  the duration), reduced to their raw part when asked.
\<close>

lemma extract_sorted_is_filter:
  assumes "sorted (map raw_timestamp ts)" and "ts \<noteq> []"
  shows "extract_series ts start_ms duration_ms r =
         (let lo = real_of_int (raw_timestamp (hd ts)) + (case start_ms of None \<Rightarrow> 0 | Some x \<Rightarrow> x);
              hi = (case duration_ms of None \<Rightarrow> real_of_int (raw_timestamp (last ts)) | Some d \<Rightarrow> lo + d)
          in Inr (map (\<lambda>s. if r then min_state s else s)
                    (filter (\<lambda>s. lo \<le> real_of_int (raw_timestamp s) \<and> real_of_int (raw_timestamp s) \<le> hi) ts)))"
  using assms by (simp add: extract_series_def Let_def extract_scan_sorted split: option.split)

text \<open>
  Whenever \<^verbatim>\<open>graph_network_usage\<close> reaches the plot, the time, received and
  transmitted series have the same length, are not empty, and the time series starts at
  0 seconds; so its length check never raises.
\<close>

lemma graph_series_aligned:
  assumes "graph_network_usage bt skip_ms length_ms = Inr (bt', ts_secs, rxs, txs)"
  shows "length ts_secs = length rxs \<and> length rxs = length txs \<and> ts_secs \<noteq> [] \<and> hd ts_secs = 0"
proof -
  obtain bt1 red tss where s: "series_of 0 red = Inr (rxs, txs, tss)" and ne: "tss \<noteq> []"
    and e: "ts_secs = map (\<lambda>t. real_of_int (t - hd tss) / 1000) tss"
    using assms by (auto simp: graph_network_usage_def Let_def split: sum.splits prod.splits if_splits)
  show ?thesis using series_of_lengths [OF s] ne e by (cases tss) auto
qed




lemma extract_sorted_is_filter_witness:
  "sorted (map raw_timestamp [nu_sample0, nu_sample1]) \<and>
   extract_series [nu_sample0, nu_sample1] (Some 1) None True = Inr [min_state nu_sample1]"
proof -
  have h1: "sorted (map raw_timestamp [nu_sample0, nu_sample1])" and h2: "[nu_sample0, nu_sample1] \<noteq> []"
    by (simp_all add: nu_sample0_def nu_sample1_def)
  show ?thesis using extract_sorted_is_filter [OF h1 h2, of "Some 1" None True] h1
    by (simp add: nu_sample0_def nu_sample1_def)
qed

lemma graph_series_aligned_witness:
  "graph_network_usage nu_example_bt (Some 0) None =
     Inr (nu_example_bt\<lparr>timeseries := Some [nu_sample0, nu_sample1\<lparr>deltas := Some (2, [(''tx_0'', 8), (''rx_0'', 2)]),
                                                                gbps := Some (1 / 125000, 1 / 31250)\<rparr>],
                         deltas_computed := True\<rparr>, [0], [1 / 125000], [1 / 31250]) \<and>
   length [0::real] = length [1 / 125000 :: real]"
proof -
  have h: "graph_network_usage nu_example_bt (Some 0) None =
     Inr (nu_example_bt\<lparr>timeseries := Some [nu_sample0, nu_sample1\<lparr>deltas := Some (2, [(''tx_0'', 8), (''rx_0'', 2)]),
                                                                gbps := Some (1 / 125000, 1 / 31250)\<rparr>],
                         deltas_computed := True\<rparr>, [0], [1 / 125000], [1 / 31250])"
    by (simp add: graph_network_usage_def add_computed_layers_def nu_example_bt_def layer_step_def
        nu_sample0_def nu_sample1_def to_gigabits_per_sec_def startswith_def bt_extract_def extract_series_def)
  show ?thesis using graph_series_aligned [OF h] h by simp
qed

end
