(* ===== verification/Spec2Isabelle.thy ===== *)
theory Spec2Isabelle
  imports Cli Telegraf Net_Util
begin

text \<open>
  \<^bold>\<open>A verification development of horovod-utils.\<close> The repository holds three tools.
  The main one, \<^verbatim>\<open>src/htimeline/extract.py\<close>, keeps a summary of a large append-only trace
  of JSON events (one event per line, a timestamp \<open>ts\<close> in microseconds) and extracts time
  windows from it. \<^verbatim>\<open>src/tig/telegraf_config.py\<close> rewrites a generated Telegraf
  configuration, and \<^verbatim>\<open>src/network-utilization/nu.py\<close> parses and graphs a log of NIC
  queue counters. Each theory below models the code of one part as executable HOL
  functions over explicit state, with every raise of the source an \<open>Inl\<close> error value
  and every loop that may not end a \<open>partial_function\<close> in the option monad.

  \<^bold>\<open>The trace engine\<close> (\<^verbatim>\<open>extract.py\<close>). The constructor \<^verbatim>\<open>HorovodTimeline.__init__\<close>
  loads the sidecar summary, decides which parts are stale, and rebuilds them by calling
  the Scanner (\<^verbatim>\<open>summarize\<close>), the Metadata Scanner (\<^verbatim>\<open>find_metadata_events\<close>) and the
  Index Builder (\<^verbatim>\<open>build_index\<close>); \<^verbatim>\<open>extract_and_save_slice\<close> then maps a time window to
  byte offsets through the Index Searcher (\<^verbatim>\<open>search_index\<close>) and copies the lines in
  between. All of them read the trace through a Python text file.
  \<^item> \<open>Prelude\<close>: the types (timestamps as reals, offsets as ints, the summary record that
    is both the object's state and the sidecar's content, the error type \<open>pyerr\<close>),
    Python's \<open>strip\<close>, and the shared list facts \<open>trace_simps\<close>.
  \<^item> \<open>File_IO\<close>: the file object (\<open>fh_open\<close>, \<open>fh_read\<close>, \<open>fh_readline\<close>,
    \<open>fh_seek\<close>; \<open>tell()\<close> is the position) as a content string and a position, and the
    module's chunk generator \<^verbatim>\<open>blocks\<close>. A negative seek is the \<open>ValueError\<close> \<open>NegativeSeek\<close>.
  \<^item> \<open>Line_Parse\<close>: \<^verbatim>\<open>parse_line_as_json\<close> and the timestamp readers, over a JSON decoder
    parameter \<open>loads\<close> that returns \<open>None\<close> where \<open>json.loads\<close> raises.
  \<^item> \<open>Trace\<close>: the trace as records at line offsets (\<open>line_at\<close>, \<open>records\<close>,
    \<open>timed_records\<close>, \<open>monotone_trace\<close>), the reference semantics the other theories are
    proved against; \<open>Trace_Append\<close> relates a grown file to the old one.
  \<^item> \<open>Index_Search\<close>: \<^verbatim>\<open>search_index\<close> and \<^verbatim>\<open>confirm_index_is_valid\<close>, the soundness
    predicate \<open>summary_sound\<close> of a summary for a file, and an abstract search
    specification \<open>search_spec\<close> that the scan refines.
  \<^item> \<open>Index_Builder\<close>, \<open>Scanner\<close>, \<open>Extractor\<close>, \<open>Timeline\<close>: \<^verbatim>\<open>build_index\<close> with its
    generator \<^verbatim>\<open>line_samples\<close>; \<^verbatim>\<open>summarize\<close> and \<^verbatim>\<open>find_metadata_events\<close>;
    \<^verbatim>\<open>extract_and_save_slice\<close>; and the constructor \<open>timeline_init\<close> composing them, which
    returns the new state and the sidecar it writes.
  \<^item> \<open>Reporting\<close>: what the tool prints besides the slice. \<^verbatim>\<open>humanize\<close>
    (\<open>"{:,}"\<close> on integers, with \<open>commas_rev\<close>/\<open>group_digits\<close>), \<^verbatim>\<open>humanize_bytes\<close>
    (\<open>byte_unit\<close>), the \<^verbatim>\<open>print_*\<close> methods of \<open>--stats\<close> as the lines they print and
    the error they raise after them (\<open>print_stats\<close>, \<open>index_diffs\<close>), \<^verbatim>\<open>examine_index\<close>,
    the derived file names (\<open>base_path\<close>, \<open>extract_file_path\<close>), and the fallback
    \<^verbatim>\<open>tqdm\<close> class as a state machine: the bar is the record \<open>pbar\<close>, the console
    (the global \<open>spinner\<close> cycle and the chunks written to standard output) the record
    \<open>console\<close>, and \<open>pbar_step\<close> the updates and the close of a \<open>with\<close> block.
  \<^item> \<open>Cli\<close>: the \<open>__main__\<close> block of \<^verbatim>\<open>extract.py\<close> (\<open>cli_mode\<close>, \<open>cli_main\<close>): the
    exactly-one-mode check, the constructor with its defaults, and the dispatch to the
    extractor, the statistics or the validator. It is where the components compose.

  \<^bold>\<open>The other tools.\<close> \<open>Py_Str\<close> models the two Python string methods the tools use
  (\<open>str.replace\<close>, \<open>str.split\<close>, and \<open>startswith\<close>/\<open>endswith\<close>). \<open>Telegraf\<close> models
  \<^verbatim>\<open>replace_param_line\<close>, the \<^verbatim>\<open>set_*\<close> helpers, \<^verbatim>\<open>add_global_tag\<close> and
  \<^verbatim>\<open>generate_telegraf_conf\<close> over the configuration's lines. \<open>Net_Util\<close> models
  \<^verbatim>\<open>BufferTimeseries\<close> (parsing, computed layers, extraction, the plotted series),
  \<^verbatim>\<open>simple_sampler\<close>, \<^verbatim>\<open>to_ms\<close> and the command line's name rules and its
  \<open>--extract\<close>, \<open>--graph\<close> and \<open>--simplesample\<close> branches.

  \<^bold>\<open>What is proved.\<close> The properties are the claims C1 to C40, each stated in a text
  block before its theorem. For the trace engine they are: exact extraction of a window
  for a sound summary (C1, C2); the search bracketing the window and refining its
  specification, its failures and the validator's verdicts; soundness and spacing of
  the built index; the scanner's summary on a monotone trace; the constructor's fresh
  build producing a sound summary, the index surviving appends, reopening unchanged,
  and its state invariant; the command line's extraction after a fresh build writing
  exactly the window (C21); and, as findings, the paths where the code hangs (the
  extraction loop past the end of file and the minimum scan on a trace without
  timestamps, proved as the value \<open>None\<close> of the \<open>partial_function\<close>), fails (a trace
  under 100 kB, a zero index stride) or diverges from the spec. For the reporting: the statistics
  \<open>--stats\<close> prints, with the division by zero on an index of fewer than two entries
  (C25), \<open>humanize\<close> losing nothing (C26), the invariant of every run of the progress
  bar, proved by rule induction over \<open>pbar_step\<close> (C37), and the bounds of the unit
  \<open>humanize_bytes\<close> picks (C38). For the tools: the
  rewriting and tag insertion of the Telegraf wrapper and its error cases, and for
  \<^verbatim>\<open>nu.py\<close> a parse round trip, the invariant of the computed layers, the division by
  zero on duplicate timestamps, the extraction as a filter on sorted series, and the
  error paths of the constructor and the parser. Each claim with hypotheses has a
  witness theorem that applies it to concrete data evaluated by \<open>simp\<close> or
  \<open>code_simp\<close>.

  \<^bold>\<open>Loops, fuel and bounds.\<close> No claim relies on fuel. The loops that may run forever in
  Python (\<open>extract_loop\<close>, \<open>find_min_ts\<close>) are \<open>partial_function (option)\<close>; termination is
  proved where it holds (\<open>extract_loop_Some_bound\<close>, \<open>find_min_ts_Some_timed\<close>) and
  divergence where it does not. \<open>line_samples\<close>, \<open>skip_chunks\<close>, \<open>replace_all\<close> and the
  other loops are total \<open>fun\<close>/\<open>function\<close> definitions with measure termination proofs.
  The constants of the code are kept: the 65536-character chunks, the 100000-character
  tail of \<^verbatim>\<open>summarize\<close>, the 2-second buffer of the extractor and the 65536-character
  read cap of the index builder's skip. The witnesses use a 60-character example trace,
  and two (the fresh build and the command line) a file of 100000 newlines followed by
  it, so that the tail seek of \<^verbatim>\<open>summarize\<close> succeeds; on that file the one-second
  stride of the command line exceeds the file and the index is empty.

  \<^bold>\<open>Not modelled.\<close> The verbose and progress prints inside the other methods of
  \<^verbatim>\<open>extract.py\<close> and the prints of the command line (the printing the statistics and
  the progress bar do is modelled in \<open>Reporting\<close>), float formatting (a parameter),
  timing and sleeping, argparse (the flags are arguments), plotting, the shell calls of the Telegraf
  wrapper and the network recorder, and file writing (a written file is a returned
  value). JSON and float parsing are parameters. Offsets are character positions, which
  equal byte offsets for the ASCII traces the tools produce. Paths (\<^verbatim>\<open>abspathify\<close>)
  and the file system are parameters of the command-line models.
\<close>

end
